(* ===== verification/Prelude.thy ===== *)
theory Prelude
  imports Main "HOL-Library.Word" "HOL-Library.Code_Target_Nat"
begin

text \<open>
  What every component of the development shares: the machine integers of the Rust code, the
  clock, the result type of code that may panic, and the collections of rewrite rules that the
  component theories extend.
\<close>

section \<open>Machine integers and time\<close>

type_synonym u8 = "8 word"
type_synonym u16 = "16 word"
type_synonym u32 = "32 word"
type_synonym u64 = "64 word"
type_synonym usize = "64 word"

lemma unat_of_nat_id: "n < 2 ^ LENGTH('w) \<Longrightarrow> unat (of_nat n :: 'w::len word) = n"
  by (simp add: unsigned_of_nat take_bit_nat_eq_self)

text \<open>
  An \<open>Instant\<close> and a \<open>SystemTime\<close> are nanoseconds since an arbitrary origin; a \<open>Duration\<close> is a
  number of nanoseconds. Subtraction on \<^typ>\<open>nat\<close> stops at 0, as \<open>Instant::duration_since\<close> does.
\<close>

type_synonym instant = nat
type_synonym duration = nat

definition millis :: "nat \<Rightarrow> duration" where
  "millis n = n * 1000000"

definition secs :: "nat \<Rightarrow> duration" where
  "secs n = n * 1000000000"

definition duration_since :: "instant \<Rightarrow> instant \<Rightarrow> duration" where
  "duration_since later earlier = later - earlier"

named_theorems rust_simps "unfolding rules of the Rust primitives"
named_theorems wf_intros "well-formedness of the maps of the proxy state"

lemmas time_defs = millis_def secs_def duration_since_def

section \<open>Results of code that may panic\<close>

text \<open>
  \<open>Panic\<close> is an index out of bounds, a division by zero or an \<open>unwrap\<close> on an error: the release
  profile aborts the whole process there. \<open>Diverge\<close> is a loop that never ends.
\<close>

datatype 'a outcome = Panic | Diverge | Ret 'a

definition obind :: "'a outcome \<Rightarrow> ('a \<Rightarrow> 'b outcome) \<Rightarrow> 'b outcome" where
  "obind r f = (case r of Panic \<Rightarrow> Panic | Diverge \<Rightarrow> Diverge | Ret x \<Rightarrow> f x)"

lemma obind_simps [simp]:
  "obind Panic f = Panic"
  "obind Diverge f = Diverge"
  "obind (Ret x) f = f x"
  by (simp_all add: obind_def)

lemma obind_Ret_iff [simp]: "obind r f = Ret y \<longleftrightarrow> (\<exists>x. r = Ret x \<and> f x = Ret y)"
  by (cases r) auto

lemma obind_Panic_iff: "obind r f = Panic \<longleftrightarrow> r = Panic \<or> (\<exists>x. r = Ret x \<and> f x = Panic)"
  by (cases r) auto

definition omap :: "('a \<Rightarrow> 'b) \<Rightarrow> 'a outcome \<Rightarrow> 'b outcome" where
  "omap f r = obind r (\<lambda>x. Ret (f x))"

lemma omap_simps [simp]:
  "omap f Panic = Panic"
  "omap f Diverge = Diverge"
  "omap f (Ret x) = Ret (f x)"
  by (simp_all add: omap_def)

lemma omap_Ret_iff [simp]: "omap f r = Ret y \<longleftrightarrow> (\<exists>x. r = Ret x \<and> y = f x)"
  by (cases r) auto

text \<open>A loop over a list whose body may panic.\<close>

fun traverse :: "('a \<Rightarrow> 'b outcome) \<Rightarrow> 'a list \<Rightarrow> 'b list outcome" where
  "traverse f [] = Ret []"
| "traverse f (x # xs) = obind (f x) (\<lambda>y. omap ((#) y) (traverse f xs))"

lemma traverse_Ret: "(\<And>x. x \<in> set xs \<Longrightarrow> f x = Ret (g x)) \<Longrightarrow> traverse f xs = Ret (map g xs)"
  by (induction xs) auto

section \<open>Traces of labelled steps\<close>

fun trace :: "('l \<Rightarrow> 's \<Rightarrow> 's \<Rightarrow> bool) \<Rightarrow> 'l list \<Rightarrow> 's \<Rightarrow> 's \<Rightarrow> bool" where
  "trace step [] s t \<longleftrightarrow> s = t"
| "trace step (l # ls) s t \<longleftrightarrow> (\<exists>m. step l s m \<and> trace step ls m t)"

lemma trace_append: "trace step (ls @ ms) s t \<longleftrightarrow> (\<exists>m. trace step ls s m \<and> trace step ms m t)"
  by (induction ls arbitrary: s) auto

text \<open>
  A system whose admitted steps keep an invariant, and one whose admitted steps also use up a rank: what
  the step relations of the tasks promise to the theorems on their runs.
\<close>

locale invariant_system =
  fixes step :: "'l \<Rightarrow> 's \<Rightarrow> 's \<Rightarrow> bool"
    and admitted :: "'l \<Rightarrow> bool"
    and inv :: "'s \<Rightarrow> bool"
  assumes step_inv: "\<lbrakk>step l s t; admitted l; inv s\<rbrakk> \<Longrightarrow> inv t"
begin

lemma trace_inv: "\<lbrakk>trace step ls s t; \<forall>l\<in>set ls. admitted l; inv s\<rbrakk> \<Longrightarrow> inv t"
  by (induction ls arbitrary: s) (auto intro: step_inv)

end

locale ranked_system = invariant_system +
  fixes rank :: "'s \<Rightarrow> nat"
  assumes step_rank: "\<lbrakk>step l s t; admitted l; inv s\<rbrakk> \<Longrightarrow> rank t < rank s"
begin

lemma trace_bounded:
  "\<lbrakk>trace step ls s t; \<forall>l\<in>set ls. admitted l; inv s\<rbrakk> \<Longrightarrow> length ls + rank t \<le> rank s"
proof (induction ls arbitrary: s)
  case (Cons l ls)
  then obtain m where m: "step l s m" "trace step ls m t" by auto
  with Cons.prems have "rank m < rank s" "inv m" by (auto intro: step_rank step_inv)
  with Cons.IH [OF m(2)] Cons.prems(2) show ?case by simp
qed simp

end

text \<open>
  A system that refines another: to each of its steps the other can answer with admitted steps of its
  own, so that the relation between the states is kept.
\<close>

locale simulation =
  fixes step :: "'l \<Rightarrow> 'c \<Rightarrow> 'c \<Rightarrow> bool"
    and spec_step :: "'m \<Rightarrow> 's \<Rightarrow> 's \<Rightarrow> bool"
    and admitted :: "'m \<Rightarrow> bool"
    and rel :: "'c \<Rightarrow> 's \<Rightarrow> bool"
  assumes simulates: "\<lbrakk>step l c c'; rel c s\<rbrakk> \<Longrightarrow>
    \<exists>ms s'. trace spec_step ms s s' \<and> (\<forall>m\<in>set ms. admitted m) \<and> rel c' s'"
begin

lemma trace_simulates:
  "\<lbrakk>trace step ls c c'; rel c s\<rbrakk> \<Longrightarrow>
    \<exists>ms s'. trace spec_step ms s s' \<and> (\<forall>m\<in>set ms. admitted m) \<and> rel c' s'"
proof (induction ls arbitrary: c s)
  case Nil
  then show ?case by (intro exI [of _ "[]"]) auto
next
  case (Cons l ls)
  then obtain c1 where c1: "step l c c1" "trace step ls c1 c'" by auto
  with Cons.prems(2) obtain ms s1 where "trace spec_step ms s s1" "\<forall>m\<in>set ms. admitted m" "rel c1 s1"
    using simulates by blast
  moreover from Cons.IH [OF c1(2) this(3)] obtain ms' s' where
    "trace spec_step ms' s1 s'" "\<forall>m\<in>set ms'. admitted m" "rel c' s'" by blast
  ultimately show ?case by (intro exI [of _ "ms @ ms'"] exI [of _ s']) (auto simp: trace_append)
qed

end

section \<open>Lists and options\<close>

lemma find_map_Some:
  "List.find (\<lambda>y. y \<noteq> None) (map f xs) = Some r \<Longrightarrow> \<exists>x\<in>set xs. f x = r"
  by (auto simp: find_Some_iff intro: nth_mem)

definition find_map :: "('a \<Rightarrow> 'b option) \<Rightarrow> 'a list \<Rightarrow> 'b option" where
  "find_map f xs = (case dropWhile (\<lambda>x. f x = None) xs of [] \<Rightarrow> None | x # _ \<Rightarrow> f x)"

lemma find_map_Nil [simp]: "find_map f [] = None"
  by (simp add: find_map_def)

lemma find_map_Cons [simp]:
  "find_map f (x # xs) = (case f x of None \<Rightarrow> find_map f xs | Some y \<Rightarrow> Some y)"
  by (simp add: find_map_def split: option.split)

lemma find_map_SomeD: "find_map f xs = Some y \<Longrightarrow> \<exists>x\<in>set xs. f x = Some y"
  by (induction xs) (auto split: option.splits)

lemma find_map_None_iff: "find_map f xs = None \<longleftrightarrow> (\<forall>x\<in>set xs. f x = None)"
  by (induction xs) (auto split: option.splits)

lemma length_takeWhile_less: "x \<in> set xs \<Longrightarrow> \<not> P x \<Longrightarrow> length (takeWhile P xs) < length xs"
  by (induction xs) auto

lemma set_map_filter_iff:
  "y \<in> set (List.map_filter f xs) \<longleftrightarrow> (\<exists>x\<in>set xs. f x = Some y)"
  by (induction xs) (auto simp: List.map_filter_simps split: option.splits)

lemma in_tlD: "x \<in> set (tl xs) \<Longrightarrow> x \<in> set xs"
  by (cases xs) auto

text \<open>Arithmetic on machine integers read as numbers.\<close>

lemma unat_less_iff: "(a < b) = (unat a < unat b)" for a b :: "'n::len word"
  by (simp add: word_less_nat_alt)

lemma unat_plus_one: "a < b \<Longrightarrow> unat (a + 1) = unat a + 1" for a b :: "'n::len word"
proof -
  assume "a < b"
  then have "unat a + 1 \<le> unat b" by (simp add: word_less_nat_alt)
  also have "unat b < 2 ^ LENGTH('n)" by (rule unsigned_less)
  finally show ?thesis by (simp add: unat_word_ariths)
qed

lemma of_nat_unat_eq: "unat a = n \<Longrightarrow> a = of_nat n" for a :: "'n::len word"
  by auto

end
