(* ===== verification/Rust_Str.thy ===== *)
theory Rust_Str
  imports Prelude
begin

text \<open>
  The part of Rust's \<open>str\<close> the program uses. A string is its list of UTF-8 bytes, one
  \<^typ>\<open>char\<close> per byte, so that lengths and ranges count bytes as Rust's do. Unicode white space
  is recognised by its byte sequences; since no UTF-8 character starts inside another one, looking
  for them byte by byte finds the same positions as decoding first.
\<close>

section \<open>Bytes and characters\<close>

definition byte :: "char \<Rightarrow> nat" where
  "byte c = of_char c"

definition starts_with :: "string \<Rightarrow> string \<Rightarrow> bool" where
  "starts_with s p \<longleftrightarrow> take (length p) s = p"

definition is_cont :: "char \<Rightarrow> bool" where
  "is_cont c \<longleftrightarrow> 128 \<le> byte c \<and> byte c < 192"

definition is_char_boundary :: "string \<Rightarrow> nat \<Rightarrow> bool" where
  "is_char_boundary s i \<longleftrightarrow> i = length s \<or> i < length s \<and> \<not> is_cont (s ! i)"

text \<open>\<open>s.get(i..)\<close> and \<open>s.get(a..b)\<close>.\<close>

definition str_from :: "string \<Rightarrow> nat \<Rightarrow> string option" where
  "str_from s i = (if is_char_boundary s i then Some (drop i s) else None)"

definition str_range :: "string \<Rightarrow> nat \<Rightarrow> nat \<Rightarrow> string option" where
  "str_range s a b =
     (if a \<le> b \<and> is_char_boundary s a \<and> is_char_boundary s b
      then Some (drop a (take b s)) else None)"

text \<open>\<open>String::replace_range\<close> panics unless the range lies in the string at character boundaries.\<close>

definition replace_range :: "string \<Rightarrow> nat \<Rightarrow> nat \<Rightarrow> string \<Rightarrow> string outcome" where
  "replace_range s a b new =
     (if a \<le> b \<and> is_char_boundary s a \<and> is_char_boundary s b
      then Ret (take a s @ new @ drop b s) else Panic)"

section \<open>White space\<close>

definition ascii_ws :: "char \<Rightarrow> bool" where
  "ascii_ws c \<longleftrightarrow> 9 \<le> byte c \<and> byte c \<le> 13 \<or> byte c = 32"

text \<open>The characters of \<open>char::is_whitespace\<close> beyond ASCII, in UTF-8.\<close>

definition wide_ws :: "string list" where
  "wide_ws =
     [[CHR 0xC2, CHR 0x85], [CHR 0xC2, CHR 0xA0], [CHR 0xE1, CHR 0x9A, CHR 0x80],
      [CHR 0xE2, CHR 0x80, CHR 0x80], [CHR 0xE2, CHR 0x80, CHR 0x81],
      [CHR 0xE2, CHR 0x80, CHR 0x82], [CHR 0xE2, CHR 0x80, CHR 0x83],
      [CHR 0xE2, CHR 0x80, CHR 0x84], [CHR 0xE2, CHR 0x80, CHR 0x85],
      [CHR 0xE2, CHR 0x80, CHR 0x86], [CHR 0xE2, CHR 0x80, CHR 0x87],
      [CHR 0xE2, CHR 0x80, CHR 0x88], [CHR 0xE2, CHR 0x80, CHR 0x89],
      [CHR 0xE2, CHR 0x80, CHR 0x8A], [CHR 0xE2, CHR 0x80, CHR 0xA8],
      [CHR 0xE2, CHR 0x80, CHR 0xA9], [CHR 0xE2, CHR 0x80, CHR 0xAF],
      [CHR 0xE2, CHR 0x81, CHR 0x9F], [CHR 0xE3, CHR 0x80, CHR 0x80]]"

text \<open>The number of bytes of the white space character at the head, 0 if there is none.\<close>

fun ws_len :: "string \<Rightarrow> nat" where
  "ws_len [] = 0"
| "ws_len (c # cs) =
     (if byte c < 128 then (if ascii_ws c then 1 else 0)
      else (case List.find (starts_with (c # cs)) wide_ws of None \<Rightarrow> 0 | Some w \<Rightarrow> length w))"

declare ws_len.simps(2) [simp del]

lemma ws_len_ascii [simp]: "byte c < 128 \<Longrightarrow> ws_len (c # cs) = (if ascii_ws c then 1 else 0)"
  by (simp add: ws_len.simps)

lemma ws_len_space [simp]: "ws_len (CHR '' '' # s) = 1"
  by (simp add: ws_len.simps ascii_ws_def byte_def)

text \<open>The same at the end of a reversed string.\<close>

fun ws_len_rev :: "string \<Rightarrow> nat" where
  "ws_len_rev [] = 0"
| "ws_len_rev (c # cs) =
     (if byte c < 128 then (if ascii_ws c then 1 else 0)
      else (case List.find (\<lambda>w. starts_with (c # cs) (rev w)) wide_ws of
              None \<Rightarrow> 0 | Some w \<Rightarrow> length w))"

text \<open>\<open>s.find(|c| !c.is_whitespace())\<close>.\<close>

function first_non_ws :: "string \<Rightarrow> nat option" where
  "first_non_ws s =
     (if s = [] then None
      else if ws_len s = 0 then Some 0
      else map_option ((+) (ws_len s)) (first_non_ws (drop (ws_len s) s)))"
  by pat_completeness auto
termination by (relation "measure length") auto

declare first_non_ws.simps [simp del]

function trim_start :: "string \<Rightarrow> string" where
  "trim_start s = (if s = [] \<or> ws_len s = 0 then s else trim_start (drop (ws_len s) s))"
  by pat_completeness auto
termination by (relation "measure length") auto

declare trim_start.simps [simp del]

function trim_start_rev :: "string \<Rightarrow> string" where
  "trim_start_rev s =
     (if s = [] \<or> ws_len_rev s = 0 then s else trim_start_rev (drop (ws_len_rev s) s))"
  by pat_completeness auto
termination by (relation "measure length") auto

declare trim_start_rev.simps [simp del]

definition trim :: "string \<Rightarrow> string" where
  "trim s = rev (trim_start_rev (rev (trim_start s)))"

text \<open>\<open>s.split_whitespace()\<close>: the maximal runs of other characters. \<open>cur\<close> is the current run.\<close>

function words_from :: "string \<Rightarrow> string \<Rightarrow> string list" where
  "words_from cur s =
     (if s = [] then (if cur = [] then [] else [cur])
      else if ws_len s = 0 then words_from (cur @ [hd s]) (tl s)
      else (if cur = [] then [] else [cur]) @ words_from [] (drop (ws_len s) s))"
  by pat_completeness auto
termination by (relation "measure (\<lambda>(cur, s). length s)") auto

declare words_from.simps [simp del]

definition split_whitespace :: "string \<Rightarrow> string list" where
  "split_whitespace s = words_from [] s"

section \<open>Searching\<close>

text \<open>The first position whose suffix satisfies \<open>P\<close>: all of Rust's \<open>str::find\<close> patterns.\<close>

fun find_where :: "(string \<Rightarrow> bool) \<Rightarrow> string \<Rightarrow> nat option" where
  "find_where P [] = None"
| "find_where P (c # cs) = (if P (c # cs) then Some 0 else map_option Suc (find_where P cs))"

definition find_str :: "string \<Rightarrow> string \<Rightarrow> nat option" where
  "find_str s p = find_where (\<lambda>t. starts_with t p) s"

definition find_char :: "string \<Rightarrow> char list \<Rightarrow> nat option" where
  "find_char s cs = find_where (\<lambda>t. hd t \<in> set cs) s"

lemma find_where_Some_iff:
  "find_where P s = Some i \<longleftrightarrow>
     i < length s \<and> P (drop i s) \<and> (\<forall>j<i. \<not> P (drop j s))"
proof (induction s arbitrary: i)
  case Nil
  then show ?case by simp
next
  case (Cons c cs)
  show ?case
  proof (cases i)
    case 0
    then show ?thesis by auto
  next
    case (Suc n)
    have "(\<forall>j<Suc n. \<not> P (drop j (c # cs))) \<longleftrightarrow>
        \<not> P (c # cs) \<and> (\<forall>j<n. \<not> P (drop j cs))"
      by (metis Suc_less_eq drop0 drop_Suc_Cons gr0_conv_Suc nat.exhaust zero_less_Suc)
    with Suc show ?thesis by (auto simp: Cons.IH)
  qed
qed

lemma find_where_None_iff: "find_where P s = None \<longleftrightarrow> (\<forall>j<length s. \<not> P (drop j s))"
  by (induction s) (auto simp: less_Suc_eq_0_disj)

lemma find_str_bound: "find_str s p = Some i \<Longrightarrow> i + length p \<le> length s"
  unfolding find_str_def find_where_Some_iff starts_with_def
  by (metis diff_is_0_eq' length_drop length_take min.cobounded1 nat_le_linear
      ordered_cancel_comm_monoid_diff_class.le_diff_conv2 add.commute less_imp_le)

lemma find_str_at: "find_str s p = Some i \<Longrightarrow> take (length p) (drop i s) = p"
  by (simp add: find_str_def find_where_Some_iff starts_with_def)

text \<open>A change behind the match leaves the first match where it is.\<close>

lemma find_str_same_prefix:
  assumes "find_str s p = Some i" and "p \<noteq> []"
    and "take (i + length p) t = take (i + length p) s"
  shows "find_str t p = Some i"
proof -
  have bound: "i + length p \<le> length s" using assms(1) by (rule find_str_bound)
  have eq: "take (length p) (drop j t) = take (length p) (drop j s)" if "j \<le> i" for j
  proof -
    have "take (length p) (drop j t) = drop j (take (j + length p) (take (i + length p) t))"
      using that by (simp add: take_drop add.commute min_absorb1)
    also have "\<dots> = take (length p) (drop j s)"
      using that assms(3) by (simp add: take_drop add.commute min_absorb1)
    finally show ?thesis .
  qed
  have "i < length t"
  proof -
    have "length (take (i + length p) t) = i + length p"
      using assms(3) bound by simp
    then show ?thesis using assms(2) by (cases p) auto
  qed
  then show ?thesis
    using assms(1) eq by (auto simp: find_str_def find_where_Some_iff starts_with_def)
qed

lemma find_str_append: "find_str s p = Some i \<Longrightarrow> p \<noteq> [] \<Longrightarrow> find_str (s @ t) p = Some i"
  by (rule find_str_same_prefix) (auto dest: find_str_bound)

section \<open>Splitting and replacing\<close>

text \<open>\<open>s.split(c)\<close>: one piece more than there are separators.\<close>

fun split_on :: "char \<Rightarrow> string \<Rightarrow> string list" where
  "split_on c [] = [[]]"
| "split_on c (x # xs) =
     (if x = c then [] # split_on c xs
      else (case split_on c xs of [] \<Rightarrow> [[x]] | p # ps \<Rightarrow> (x # p) # ps))"

definition split_once :: "char \<Rightarrow> string \<Rightarrow> (string \<times> string) option" where
  "split_once c s =
     (if c \<in> set s then Some (takeWhile (\<lambda>x. x \<noteq> c) s, tl (dropWhile (\<lambda>x. x \<noteq> c) s)) else None)"

text \<open>\<open>s.splitn(n, c)\<close>: at most \<open>n\<close> pieces, the last one holds the rest.\<close>

fun splitn :: "nat \<Rightarrow> char \<Rightarrow> string \<Rightarrow> string list" where
  "splitn 0 c s = []"
| "splitn (Suc 0) c s = [s]"
| "splitn (Suc (Suc n)) c s =
     (case split_once c s of None \<Rightarrow> [s] | Some (a, b) \<Rightarrow> a # splitn (Suc n) c b)"

text \<open>\<open>s.replace(from, to)\<close> for a non-empty \<open>from\<close>: leftmost matches that do not overlap.\<close>

function replace_all :: "string \<Rightarrow> string \<Rightarrow> string \<Rightarrow> string" where
  "replace_all s p r =
     (if s = [] then []
      else if p \<noteq> [] \<and> starts_with s p then r @ replace_all (drop (length p) s) p r
      else hd s # replace_all (tl s) p r)"
  by pat_completeness auto
termination by (relation "measure (\<lambda>(s, p, r). length s)") auto

declare replace_all.simps [simp del]

definition trim_start_matches :: "char \<Rightarrow> string \<Rightarrow> string" where
  "trim_start_matches c s = dropWhile (\<lambda>x. x = c) s"

definition trim_end_matches :: "char \<Rightarrow> string \<Rightarrow> string" where
  "trim_end_matches c s = rev (dropWhile (\<lambda>x. x = c) (rev s))"

definition ascii_lower :: "char \<Rightarrow> char" where
  "ascii_lower c = (if 65 \<le> byte c \<and> byte c \<le> 90 then char_of (byte c + 32) else c)"

definition eq_ignore_ascii_case :: "string \<Rightarrow> string \<Rightarrow> bool" where
  "eq_ignore_ascii_case s t \<longleftrightarrow> map ascii_lower s = map ascii_lower t"

lemma split_on_nonempty [simp]: "split_on c s \<noteq> []"
  by (induction s) (auto split: list.splits)

lemma split_on_no_sep: "p \<in> set (split_on c s) \<Longrightarrow> c \<notin> set p"
proof (induction s arbitrary: p)
  case Nil
  then show ?case by simp
next
  case (Cons x xs)
  then show ?case by (cases "split_on c xs") (auto split: if_splits)
qed

lemma split_once_Some:
  "split_once c s = Some (a, b) \<Longrightarrow> s = a @ c # b \<and> c \<notin> set a"
proof -
  assume *: "split_once c s = Some (a, b)"
  then have c: "c \<in> set s" and a: "a = takeWhile (\<lambda>x. x \<noteq> c) s"
    and b: "b = tl (dropWhile (\<lambda>x. x \<noteq> c) s)"
    by (auto simp: split_once_def split: if_splits)
  from c have "dropWhile (\<lambda>x. x \<noteq> c) s \<noteq> []" by (simp add: dropWhile_eq_Nil_conv)
  moreover from this have "hd (dropWhile (\<lambda>x. x \<noteq> c) s) = c"
    by (metis (mono_tags, lifting) hd_dropWhile)
  ultimately have "dropWhile (\<lambda>x. x \<noteq> c) s = c # b" using b by (metis list.collapse)
  then have "s = a @ c # b" using a by (metis takeWhile_dropWhile_id)
  moreover have "c \<notin> set a" using a by (auto dest: set_takeWhileD)
  ultimately show ?thesis by simp
qed

lemma split_once_append [simp]: "c \<notin> set a \<Longrightarrow> split_once c (a @ c # b) = Some (a, b)"
  by (auto simp: split_once_def takeWhile_append dropWhile_append)

lemma split_once_None: "split_once c s = None \<longleftrightarrow> c \<notin> set s"
  by (simp add: split_once_def)

section \<open>Numbers\<close>

definition digit_val :: "char \<Rightarrow> nat option" where
  "digit_val c = (if 48 \<le> byte c \<and> byte c \<le> 57 then Some (byte c - 48) else None)"

definition hex_val :: "char \<Rightarrow> nat option" where
  "hex_val c =
     (if 48 \<le> byte c \<and> byte c \<le> 57 then Some (byte c - 48)
      else if 97 \<le> byte c \<and> byte c \<le> 102 then Some (byte c - 87)
      else if 65 \<le> byte c \<and> byte c \<le> 70 then Some (byte c - 55)
      else None)"

text \<open>
  \<open>from_str_radix\<close> of an unsigned type: an optional \<open>+\<close>, then at least one digit, an error on any
  other byte and on a value that does not fit in \<open>bound\<close>.
\<close>

fun radix_digits :: "(char \<Rightarrow> nat option) \<Rightarrow> nat \<Rightarrow> nat \<Rightarrow> nat \<Rightarrow> string \<Rightarrow> nat option" where
  "radix_digits dv base bound acc [] = Some acc"
| "radix_digits dv base bound acc (c # cs) =
     (case dv c of
        None \<Rightarrow> None
      | Some d \<Rightarrow>
          if acc * base + d < bound then radix_digits dv base bound (acc * base + d) cs else None)"

definition from_radix :: "(char \<Rightarrow> nat option) \<Rightarrow> nat \<Rightarrow> nat \<Rightarrow> string \<Rightarrow> nat option" where
  "from_radix dv base bound s =
     (case s of
        [] \<Rightarrow> None
      | c # cs \<Rightarrow>
          if c = CHR ''+''
          then (if cs = [] then None else radix_digits dv base bound 0 cs)
          else radix_digits dv base bound 0 (c # cs))"

definition parse_uint :: "string \<Rightarrow> 'n::len word option" where
  "parse_uint s = map_option of_nat (from_radix digit_val 10 (2 ^ LENGTH('n)) s)"

definition hex_byte :: "string \<Rightarrow> char option" where
  "hex_byte s = map_option char_of (from_radix hex_val 16 256 s)"

text \<open>\<open>itoa\<close> and \<open>to_string\<close>: decimal digits, the most significant first.\<close>

definition digit_char :: "nat \<Rightarrow> char" where
  "digit_char d = char_of (48 + d)"

fun digits :: "nat \<Rightarrow> string" where
  "digits n = (if n < 10 then [digit_char n] else digits (n div 10) @ [digit_char (n mod 10)])"

declare digits.simps [simp del]

definition format_uint :: "'n::len word \<Rightarrow> string" where
  "format_uint w = digits (unat w)"

lemma byte_digit_char: "d < 10 \<Longrightarrow> byte (digit_char d) = 48 + d"
  by (simp add: byte_def digit_char_def of_char_of)

lemma digit_val_char [simp]: "d < 10 \<Longrightarrow> digit_val (digit_char d) = Some d"
  by (simp add: digit_val_def byte_digit_char)

lemma digits_nonempty [simp]: "digits n \<noteq> []"
  by (subst digits.simps) simp

lemma digits_bytes: "c \<in> set (digits n) \<Longrightarrow> 48 \<le> byte c \<and> byte c \<le> 57"
proof (induction n rule: digits.induct)
  case (1 n)
  show ?case
  proof (cases "n < 10")
    case True
    with 1 show ?thesis by (simp add: digits.simps [of n] byte_digit_char)
  next
    case False
    with 1 show ?thesis by (auto simp: digits.simps [of n] byte_digit_char)
  qed
qed

lemma radix_digits_append:
  "radix_digits dv base bound acc (s @ t) =
     (case radix_digits dv base bound acc s of
        None \<Rightarrow> None | Some v \<Rightarrow> radix_digits dv base bound v t)"
  by (induction s arbitrary: acc) (auto split: option.splits)

lemma radix_digits_digits: "n < bound \<Longrightarrow> radix_digits digit_val 10 bound 0 (digits n) = Some n"
proof (induction n rule: digits.induct)
  case (1 n)
  show ?case
  proof (cases "n < 10")
    case True
    with 1 show ?thesis by (simp add: digits.simps [of n])
  next
    case False
    then have "n div 10 < bound" using 1 by linarith
    with False 1 show ?thesis
      by (simp add: digits.simps [of n] radix_digits_append mult.commute)
  qed
qed

lemma from_radix_digits: "n < bound \<Longrightarrow> from_radix digit_val 10 bound (digits n) = Some n"
proof -
  assume n: "n < bound"
  obtain c cs where ds: "digits n = c # cs" by (cases "digits n") auto
  then have "byte c \<noteq> 43" using digits_bytes [of c n] by auto
  then have "c \<noteq> CHR ''+''" by (auto simp: byte_def)
  then show ?thesis using radix_digits_digits [OF n] ds by (simp add: from_radix_def)
qed

text \<open>What the program formats it reads back.\<close>

lemma parse_format [simp]: "parse_uint (format_uint w) = Some w" for w :: "'n::len word"
  by (simp add: parse_uint_def format_uint_def from_radix_digits)

lemma format_inj [simp]: "format_uint v = format_uint w \<longleftrightarrow> v = w" for v w :: "'n::len word"
  by (metis parse_format option.inject)

lemma radix_digits_bytes:
  "radix_digits digit_val 10 bound acc s = Some v \<Longrightarrow> c \<in> set s \<Longrightarrow> 48 \<le> byte c \<and> byte c \<le> 57"
  by (induction s arbitrary: acc) (auto simp: digit_val_def split: option.splits if_splits)

lemma parse_uint_bytes:
  "parse_uint s = Some w \<Longrightarrow> c \<in> set s \<Longrightarrow> c = CHR ''+'' \<or> 48 \<le> byte c \<and> byte c \<le> 57"
  by (auto simp: parse_uint_def from_radix_def simp del: radix_digits.simps
      split: list.splits if_splits dest: radix_digits_bytes)

section \<open>UTF-8\<close>

definition between :: "nat \<Rightarrow> nat \<Rightarrow> char \<Rightarrow> bool" where
  "between lo hi c \<longleftrightarrow> lo \<le> byte c \<and> byte c \<le> hi"

text \<open>\<open>std::str::from_utf8\<close> succeeds on exactly these byte sequences (RFC 3629).\<close>

fun utf8_valid :: "string \<Rightarrow> bool" where
  "utf8_valid [] = True"
| "utf8_valid (a # s) =
     (if byte a < 128 then utf8_valid s
      else case s of
        [] \<Rightarrow> False
      | b # s1 \<Rightarrow>
          if between 194 223 a then is_cont b \<and> utf8_valid s1
          else case s1 of
            [] \<Rightarrow> False
          | c # s2 \<Rightarrow>
              if byte a = 224 then between 160 191 b \<and> is_cont c \<and> utf8_valid s2
              else if byte a = 237 then between 128 159 b \<and> is_cont c \<and> utf8_valid s2
              else if between 225 239 a then is_cont b \<and> is_cont c \<and> utf8_valid s2
              else case s2 of
                [] \<Rightarrow> False
              | d # s3 \<Rightarrow>
                  if byte a = 240
                  then between 144 191 b \<and> is_cont c \<and> is_cont d \<and> utf8_valid s3
                  else if between 241 243 a
                  then is_cont b \<and> is_cont c \<and> is_cont d \<and> utf8_valid s3
                  else byte a = 244 \<and> between 128 143 b \<and> is_cont c \<and> is_cont d \<and> utf8_valid s3)"

lemma utf8_valid_ascii: "\<forall>c\<in>set s. byte c < 128 \<Longrightarrow> utf8_valid s"
  by (induction s) auto

lemma byte_inj: "byte c = byte d \<longleftrightarrow> c = d"
  by (simp add: byte_def)

lemma char_of_byte [simp]: "char_of (byte c) = c"
  by (simp add: byte_def)

lemma hex_byte_digit:
  assumes "48 \<le> byte d" and "byte d \<le> 57"
  shows "hex_byte [CHR ''3'', d] = Some d"
proof -
  have "hex_val d = Some (byte d - 48)" using assms by (simp add: hex_val_def)
  moreover have "hex_val (CHR ''3'') = Some 3" by (simp add: hex_val_def byte_def)
  moreover have "48 + (byte d - 48) = byte d" using assms by simp
  ultimately show ?thesis using assms by (simp add: hex_byte_def from_radix_def)
qed

end
