(* ===== verification/Hash_Map.thy ===== *)
theory Hash_Map
  imports Prelude "HOL-Library.AList"
begin

text \<open>
  \<open>std::collections::HashMap\<close>. A map is the list of its entries in the order an iteration visits
  them (Rust leaves that order open, so no statement of the development depends on it); a
  well-formed map has every key once. The interface the components rely on is the locale
  \<^theory_text>\<open>hash_map\<close>; its interpretation shows that the list operations provide it.
\<close>

section \<open>The operations\<close>

type_synonym ('k, 'v) hmap = "('k \<times> 'v) list"

definition hm_wf :: "('k, 'v) hmap \<Rightarrow> bool" where
  "hm_wf m \<longleftrightarrow> distinct (map fst m)"

definition hm_get :: "('k, 'v) hmap \<Rightarrow> 'k \<Rightarrow> 'v option" where
  "hm_get m k = map_of m k"

definition hm_insert :: "'k \<Rightarrow> 'v \<Rightarrow> ('k, 'v) hmap \<Rightarrow> ('k, 'v) hmap" where
  "hm_insert k v m = AList.update k v m"

definition hm_remove :: "'k \<Rightarrow> ('k, 'v) hmap \<Rightarrow> ('k, 'v) hmap" where
  "hm_remove k m = AList.delete k m"

text \<open>\<open>retain\<close>, and the \<open>values_mut\<close> / \<open>iter_mut\<close> loops.\<close>

definition hm_retain :: "('k \<Rightarrow> 'v \<Rightarrow> bool) \<Rightarrow> ('k, 'v) hmap \<Rightarrow> ('k, 'v) hmap" where
  "hm_retain P m = filter (\<lambda>(k, v). P k v) m"

definition hm_map_values :: "('k \<Rightarrow> 'v \<Rightarrow> 'v) \<Rightarrow> ('k, 'v) hmap \<Rightarrow> ('k, 'v) hmap" where
  "hm_map_values f m = map (\<lambda>(k, v). (k, f k v)) m"

definition hm_keys :: "('k, 'v) hmap \<Rightarrow> 'k list" where
  "hm_keys m = map fst m"

definition hm_contains :: "('k, 'v) hmap \<Rightarrow> 'k \<Rightarrow> bool" where
  "hm_contains m k \<longleftrightarrow> hm_get m k \<noteq> None"

text \<open>\<open>extend\<close>: later entries overwrite.\<close>

definition hm_extend :: "('k, 'v) hmap \<Rightarrow> ('k, 'v) hmap \<Rightarrow> ('k, 'v) hmap" where
  "hm_extend m n = fold (\<lambda>(k, v). hm_insert k v) n m"

section \<open>The interface\<close>

locale hash_map =
  fixes wf :: "'m \<Rightarrow> bool"
    and empty :: "'m"
    and get :: "'m \<Rightarrow> 'k \<Rightarrow> 'v option"
    and insert :: "'k \<Rightarrow> 'v \<Rightarrow> 'm \<Rightarrow> 'm"
    and remove :: "'k \<Rightarrow> 'm \<Rightarrow> 'm"
    and retain :: "('k \<Rightarrow> 'v \<Rightarrow> bool) \<Rightarrow> 'm \<Rightarrow> 'm"
    and map_values :: "('k \<Rightarrow> 'v \<Rightarrow> 'v) \<Rightarrow> 'm \<Rightarrow> 'm"
  assumes wf_empty: "wf empty"
    and wf_insert: "wf m \<Longrightarrow> wf (insert k v m)"
    and wf_remove: "wf m \<Longrightarrow> wf (remove k m)"
    and wf_retain: "wf m \<Longrightarrow> wf (retain P m)"
    and wf_map_values: "wf m \<Longrightarrow> wf (map_values f m)"
    and get_empty: "get empty k = None"
    and get_insert: "get (insert k v m) k' = (if k' = k then Some v else get m k')"
    and get_remove: "get (remove k m) k' = (if k' = k then None else get m k')"
    and get_retain: "wf m \<Longrightarrow> get (retain P m) k =
      (case get m k of None \<Rightarrow> None | Some v \<Rightarrow> if P k v then Some v else None)"
    and get_map_values: "get (map_values f m) k = map_option (f k) (get m k)"
begin

lemma retain_keeps: "wf m \<Longrightarrow> get m k = Some v \<Longrightarrow> P k v \<Longrightarrow> get (retain P m) k = Some v"
  by (simp add: get_retain)

lemma retain_SomeD: "wf m \<Longrightarrow> get (retain P m) k = Some v \<Longrightarrow> get m k = Some v \<and> P k v"
  by (simp add: get_retain split: option.splits if_splits)

lemma retain_twice:
  "wf m \<Longrightarrow> get (retain P (retain Q m)) k = get (retain (\<lambda>k v. P k v \<and> Q k v) m) k"
  by (simp add: get_retain wf_retain split: option.splits)

lemma insert_other: "k' \<noteq> k \<Longrightarrow> get (insert k v m) k' = get m k'"
  by (simp add: get_insert)

lemma remove_insert_same: "get (remove k (insert k v m)) k' = get (remove k m) k'"
  by (simp add: get_insert get_remove)

lemma map_values_keys: "get (map_values f m) k = None \<longleftrightarrow> get m k = None"
  by (simp add: get_map_values)

end

section \<open>The list operations provide it\<close>

lemma hm_get_retain:
  "hm_wf m \<Longrightarrow> hm_get (hm_retain P m) k =
     (case hm_get m k of None \<Rightarrow> None | Some v \<Rightarrow> if P k v then Some v else None)"
proof (induction m)
  case Nil
  then show ?case by (simp add: hm_get_def hm_retain_def)
next
  case (Cons kv m)
  obtain k' v' where kv: "kv = (k', v')" by (cases kv)
  with Cons.prems have wf: "hm_wf m" and fresh: "k' \<notin> set (map fst m)"
    by (auto simp: hm_wf_def)
  from fresh have "map_of m k' = None" by (simp add: map_of_eq_None_iff)
  moreover from this wf Cons.IH have "map_of (filter (\<lambda>(k, v). P k v) m) k' = None" if "k = k'"
    using that by (simp add: hm_get_def hm_retain_def)
  ultimately show ?case
    using Cons.IH [OF wf] kv by (auto simp: hm_get_def hm_retain_def)
qed

lemma hm_get_map_values: "hm_get (hm_map_values f m) k = map_option (f k) (hm_get m k)"
  by (induction m) (auto simp: hm_get_def hm_map_values_def)

lemma hm_wf_retain: "hm_wf m \<Longrightarrow> hm_wf (hm_retain P m)"
  unfolding hm_wf_def hm_retain_def by (rule distinct_map_filter)

interpretation hm: hash_map hm_wf "[]" hm_get hm_insert hm_remove hm_retain hm_map_values
proof (unfold_locales, goal_cases)
  case 1 show ?case by (simp add: hm_wf_def)
next
  case 2 then show ?case by (simp add: hm_wf_def hm_insert_def distinct_update)
next
  case 3 then show ?case by (simp add: hm_wf_def hm_remove_def distinct_delete)
next
  case 4 then show ?case by (rule hm_wf_retain)
next
  case (5 m f)
  have "map fst (hm_map_values f m) = map fst m"
    by (simp add: hm_map_values_def case_prod_beta comp_def)
  with 5 show ?case by (simp add: hm_wf_def)
next
  case 6 show ?case by (simp add: hm_get_def)
next
  case 7 show ?case by (simp add: hm_get_def hm_insert_def update_conv)
next
  case 8 show ?case by (simp add: hm_get_def hm_remove_def delete_conv)
next
  case 9 then show ?case by (rule hm_get_retain)
next
  case 10 show ?case by (rule hm_get_map_values)
qed

lemmas hm_simps [simp] = hm.get_empty hm.get_insert hm.get_remove hm.get_map_values
lemmas hm_wf_simps [simp, wf_intros] =
  hm.wf_empty hm.wf_insert hm.wf_remove hm.wf_retain hm.wf_map_values

section \<open>Entries\<close>

lemma hm_mem_iff: "hm_wf m \<Longrightarrow> (k, v) \<in> set m \<longleftrightarrow> hm_get m k = Some v"
  by (simp add: hm_wf_def hm_get_def)

lemma hm_mem_keys_iff: "k \<in> set (hm_keys m) \<longleftrightarrow> hm_get m k \<noteq> None"
  by (force simp: hm_keys_def hm_get_def map_of_eq_None_iff)

lemma hm_contains_iff [simp]: "hm_contains m k \<longleftrightarrow> hm_get m k \<noteq> None"
  by (simp add: hm_contains_def)

lemma hm_get_memI: "hm_get m k = Some v \<Longrightarrow> (k, v) \<in> set m"
  by (simp add: hm_get_def map_of_SomeD)

lemma hm_get_extend:
  "hm_wf n \<Longrightarrow> hm_get (hm_extend m n) k = (case hm_get n k of None \<Rightarrow> hm_get m k | Some v \<Rightarrow> Some v)"
proof (induction n arbitrary: m)
  case Nil
  then show ?case by (simp add: hm_extend_def)
next
  case (Cons kv n)
  obtain k' v' where kv: "kv = (k', v')" by (cases kv)
  with Cons.prems have wf: "hm_wf n" and "k' \<notin> set (map fst n)" by (auto simp: hm_wf_def)
  then have "hm_get n k' = None" by (simp add: hm_get_def map_of_eq_None_iff)
  then show ?case
    using Cons.IH [OF wf, of "hm_insert k' v' m"] kv
    by (auto simp: hm_extend_def hm_get_def [of "(k', v') # n"] hm_get_def [of n] split: option.splits)
qed

lemma hm_wf_extend [simp, wf_intros]: "hm_wf m \<Longrightarrow> hm_wf (hm_extend m n)"
  by (induction n arbitrary: m) (auto simp: hm_extend_def)

end
