(* ===== verification/Config_Model.thy ===== *)
theory Config_Model
  imports Rust_Str Hash_Map
begin

text \<open>
  \<open>src/config.rs\<close>: the configuration record, the client entries with their guild ids, the cache
  switches and the twilight flags they stand for. How it is read and reloaded is in \<open>Config_Load\<close>.
\<close>

section \<open>Records\<close>

record client_config =
  cl_secret :: string
  cl_guilds :: "u64 set"
  cl_reachable_url :: "string option"
  cl_next_wake_at :: "instant option"

record cache_config =
  cc_channels :: bool
  cc_presences :: bool
  cc_emojis :: bool
  cc_current_member :: bool
  cc_members :: bool
  cc_roles :: bool
  cc_scheduled_events :: bool
  cc_stage_instances :: bool
  cc_stickers :: bool
  cc_users :: bool
  cc_voice_states :: bool

text \<open>
  An activity and the status of a presence are twilight's; the proxy reads the name of the activity
  only, the rest of it is \<open>av_rest\<close>.
\<close>

record activity =
  av_name :: string
  av_rest :: string

datatype status = DoNotDisturb | Idle | Invisible | Offline | Online

record config =
  cfg_log_level :: string
  cfg_token :: string
  cfg_intents :: u64
  cfg_port :: u16
  cfg_shards :: "u32 option"
  cfg_shard_start :: "u32 option"
  cfg_shard_end :: "u32 option"
  cfg_activity :: "activity option"
  cfg_status :: status
  cfg_backpressure :: usize
  cfg_validate_token :: bool
  cfg_http_proxy :: "string option"
  cfg_gateway_url :: "string option"
  cfg_externally_accessible_url :: string
  cfg_cache :: cache_config
  cfg_clients :: "(string, client_config) hmap"

definition default_cache :: cache_config where
  "default_cache =
     \<lparr>cc_channels = True, cc_presences = False, cc_emojis = False, cc_current_member = True,
      cc_members = False, cc_roles = True, cc_scheduled_events = False,
      cc_stage_instances = False, cc_stickers = False, cc_users = False, cc_voice_states = False\<rparr>"

definition default_log_level :: string where "default_log_level = ''info''"
definition default_status :: status where "default_status = Online"
definition default_port :: u16 where "default_port = 7878"
definition default_backpressure :: usize where "default_backpressure = 100"
definition default_validate_token :: bool where "default_validate_token = True"

section \<open>Guild ids of a client: strings or numbers\<close>

datatype guild_id_entry = GidString string | GidNumber u64

fun deserialize_guild_ids :: "guild_id_entry list \<Rightarrow> u64 set option" where
  "deserialize_guild_ids [] = Some {}"
| "deserialize_guild_ids (e # es) =
     (case (case e of GidString s \<Rightarrow> parse_uint s | GidNumber n \<Rightarrow> Some n) of
        None \<Rightarrow> None
      | Some parsed \<Rightarrow> map_option (insert parsed) (deserialize_guild_ids es))"

lemma deserialize_guild_ids_mixed:
  "deserialize_guild_ids (map (\<lambda>(quoted, n). if quoted then GidString (format_uint n) else GidNumber n) xs)
     = Some (snd ` set xs)"
  by (induction xs) auto

section \<open>Cache switches\<close>

text \<open>Names of twilight's event flags and resource types; a flag word is the set of its names.\<close>

datatype event_flag =
    F_GUILD_CREATE | F_GUILD_DELETE | F_GUILD_UPDATE | F_READY | F_GATEWAY_INVALIDATE_SESSION
  | F_MEMBER_ADD | F_MEMBER_REMOVE | F_MEMBER_UPDATE
  | F_ROLE_CREATE | F_ROLE_DELETE | F_ROLE_UPDATE
  | F_CHANNEL_CREATE | F_CHANNEL_DELETE | F_CHANNEL_UPDATE
  | F_THREAD_CREATE | F_THREAD_DELETE | F_THREAD_LIST_SYNC | F_THREAD_UPDATE
  | F_PRESENCE_UPDATE | F_GUILD_EMOJIS_UPDATE | F_GUILD_SCHEDULED_EVENTS
  | F_STAGE_INSTANCE_CREATE | F_STAGE_INSTANCE_DELETE | F_STAGE_INSTANCE_UPDATE
  | F_VOICE_STATE_UPDATE | F_VOICE_SERVER_UPDATE | F_USER_UPDATE

datatype resource_type =
    R_GUILD | R_USER_CURRENT | R_CHANNEL | R_EMOJI | R_MEMBER_CURRENT | R_MEMBER | R_PRESENCE
  | R_ROLE | R_GUILD_SCHEDULED_EVENT | R_STAGE_INSTANCE | R_STICKER | R_USER | R_VOICE_STATE

definition flags_if :: "bool \<Rightarrow> 'a set \<Rightarrow> 'a set" where
  "flags_if b s = (if b then s else {})"

lemma flags_if_iff: "x \<in> flags_if b s \<longleftrightarrow> b \<and> x \<in> s"
  by (simp add: flags_if_def)

definition event_type_flags :: "cache_config \<Rightarrow> event_flag set" where
  "event_type_flags c =
     {F_GUILD_CREATE, F_GUILD_DELETE, F_GUILD_UPDATE, F_READY, F_GATEWAY_INVALIDATE_SESSION}
     \<union> flags_if (cc_members c \<or> cc_current_member c) {F_MEMBER_ADD, F_MEMBER_REMOVE, F_MEMBER_UPDATE}
     \<union> flags_if (cc_roles c) {F_ROLE_CREATE, F_ROLE_DELETE, F_ROLE_UPDATE}
     \<union> flags_if (cc_channels c) {F_CHANNEL_CREATE, F_CHANNEL_DELETE, F_CHANNEL_UPDATE,
         F_THREAD_CREATE, F_THREAD_DELETE, F_THREAD_LIST_SYNC, F_THREAD_UPDATE}
     \<union> flags_if (cc_presences c) {F_PRESENCE_UPDATE}
     \<union> flags_if (cc_emojis c) {F_GUILD_EMOJIS_UPDATE}
     \<union> flags_if (cc_scheduled_events c) {F_GUILD_SCHEDULED_EVENTS}
     \<union> flags_if (cc_stage_instances c)
         {F_STAGE_INSTANCE_CREATE, F_STAGE_INSTANCE_DELETE, F_STAGE_INSTANCE_UPDATE}
     \<union> flags_if (cc_voice_states c) {F_VOICE_STATE_UPDATE, F_VOICE_SERVER_UPDATE}
     \<union> flags_if (cc_users c) {F_USER_UPDATE}"

definition resource_types :: "cache_config \<Rightarrow> resource_type set" where
  "resource_types c =
     {R_GUILD, R_USER_CURRENT}
     \<union> flags_if (cc_channels c) {R_CHANNEL}
     \<union> flags_if (cc_emojis c) {R_EMOJI}
     \<union> flags_if (cc_current_member c) {R_MEMBER_CURRENT}
     \<union> flags_if (cc_members c) {R_MEMBER}
     \<union> flags_if (cc_presences c) {R_PRESENCE}
     \<union> flags_if (cc_roles c) {R_ROLE}
     \<union> flags_if (cc_scheduled_events c) {R_GUILD_SCHEDULED_EVENT}
     \<union> flags_if (cc_stage_instances c) {R_STAGE_INSTANCE}
     \<union> flags_if (cc_stickers c) {R_STICKER}
     \<union> flags_if (cc_users c) {R_USER}
     \<union> flags_if (cc_voice_states c) {R_VOICE_STATE}"

text \<open>Which cached resource each dispatch event keeps up to date, one line of \<open>From<Cache>\<close> each.\<close>

definition kept_fresh_by :: "resource_type \<Rightarrow> event_flag set" where
  "kept_fresh_by r = (case r of
     R_GUILD \<Rightarrow> {F_GUILD_CREATE, F_GUILD_DELETE, F_GUILD_UPDATE}
   | R_CHANNEL \<Rightarrow> {F_CHANNEL_CREATE, F_CHANNEL_DELETE, F_CHANNEL_UPDATE}
   | R_EMOJI \<Rightarrow> {F_GUILD_EMOJIS_UPDATE}
   | R_MEMBER_CURRENT \<Rightarrow> {F_MEMBER_UPDATE}
   | R_MEMBER \<Rightarrow> {F_MEMBER_ADD, F_MEMBER_REMOVE, F_MEMBER_UPDATE}
   | R_PRESENCE \<Rightarrow> {F_PRESENCE_UPDATE}
   | R_ROLE \<Rightarrow> {F_ROLE_CREATE, F_ROLE_DELETE, F_ROLE_UPDATE}
   | R_GUILD_SCHEDULED_EVENT \<Rightarrow> {F_GUILD_SCHEDULED_EVENTS}
   | R_STAGE_INSTANCE \<Rightarrow>
       {F_STAGE_INSTANCE_CREATE, F_STAGE_INSTANCE_DELETE, F_STAGE_INSTANCE_UPDATE}
   | R_USER \<Rightarrow> {F_USER_UPDATE}
   | R_VOICE_STATE \<Rightarrow> {F_VOICE_STATE_UPDATE}
   | R_USER_CURRENT \<Rightarrow> {F_READY}
   | R_STICKER \<Rightarrow> {})"

end
