(* ===== verification/Db_Config.thy ===== *)
theory Db_Config
  imports Config_Model
begin

text \<open>
  \<open>src/db_config.rs\<close>, without the sync loop: the client registry \<open>CLIENTS\<close>, its freshness, client
  authentication, the grouping of database rows into the registry, the incremental refresh, and
  the parser of change notifications.
\<close>

section \<open>The registry\<close>

type_synonym clients = "(string, client_config) hmap"

text \<open>
  What a reader of the registry sees: \<open>CLIENTS.read()\<close> (\<^term>\<open>None\<close> is a poisoned lock), whether
  \<open>DIRECT_DATABASE_URL\<close> or \<open>DATABASE_URL\<close> is set, the time of the last successful sync, and the
  wall clock in seconds (\<^term>\<open>None\<close> if it is before the epoch).
\<close>

record registry =
  rg_clients :: "clients option"
  rg_db_configured :: bool
  rg_last_sync :: u64
  rg_unix_now :: "u64 option"

definition CLIENT_DATA_STALE_AFTER_SECS :: u64 where
  "CLIENT_DATA_STALE_AFTER_SECS = 120"

text \<open>\<open>mark_sync_success\<close>.\<close>

definition mark_sync_success :: "registry \<Rightarrow> registry" where
  "mark_sync_success r =
     (case rg_unix_now r of Some now_secs \<Rightarrow> r\<lparr>rg_last_sync := now_secs\<rparr> | None \<Rightarrow> r)"

datatype client_data_state = NoDatabase | NeverSynced | Fresh | Stale

definition saturating_sub :: "u64 \<Rightarrow> u64 \<Rightarrow> u64" where
  "saturating_sub a b = (if a < b then 0 else a - b)"

definition client_data_state :: "registry \<Rightarrow> client_data_state" where
  "client_data_state r =
     (if \<not> rg_db_configured r then NoDatabase
      else if rg_last_sync r = 0 then NeverSynced
      else (case rg_unix_now r of
              None \<Rightarrow> Fresh
            | Some now_secs \<Rightarrow>
                if CLIENT_DATA_STALE_AFTER_SECS < saturating_sub now_secs (rg_last_sync r)
                then Stale else Fresh))"

datatype client_auth_result = COk string "u64 set" | CStale | CInvalid

definition unverified :: "client_data_state \<Rightarrow> client_auth_result" where
  "unverified state = (case state of
     NeverSynced \<Rightarrow> CStale | Stale \<Rightarrow> CStale | NoDatabase \<Rightarrow> CInvalid | Fresh \<Rightarrow> CInvalid)"

definition client_guilds :: "registry \<Rightarrow> string \<Rightarrow> u64 set option" where
  "client_guilds r client_id =
     (case rg_clients r of
        None \<Rightarrow> None
      | Some clients \<Rightarrow> map_option cl_guilds (hm_get clients client_id))"

definition client_has_guild :: "registry \<Rightarrow> string \<Rightarrow> u64 \<Rightarrow> bool" where
  "client_has_guild r client_id guild =
     (case rg_clients r of
        None \<Rightarrow> False
      | Some clients \<Rightarrow>
          (case hm_get clients client_id of None \<Rightarrow> False | Some client \<Rightarrow> guild \<in> cl_guilds client))"

definition authenticate_client_with_id :: "registry \<Rightarrow> string \<Rightarrow> client_auth_result" where
  "authenticate_client_with_id r token =
     (case split_once CHR '':'' token of
        None \<Rightarrow> CInvalid
      | Some (client_id, secret) \<Rightarrow>
          let state = client_data_state r in
          if state = Stale then CStale
          else (case rg_clients r of
              None \<Rightarrow> unverified state
            | Some clients \<Rightarrow>
                (case hm_get clients client_id of
                   Some client \<Rightarrow>
                     if cl_secret client = secret then COk client_id (cl_guilds client)
                     else unverified state
                 | None \<Rightarrow> unverified state)))"

section \<open>Change notifications\<close>

datatype change_operation = Insert | Update | Delete | Unknown

definition from_tg_op :: "string \<Rightarrow> change_operation" where
  "from_tg_op raw =
     (if raw = ''INSERT'' then Insert else if raw = ''UPDATE'' then Update
      else if raw = ''DELETE'' then Delete else Unknown)"

record change_event =
  ce_operation :: change_operation
  ce_client_id :: string
  ce_guild_id :: "string option"

abbreviation tab :: char where "tab \<equiv> CHR 0x09"

definition parse_change_payload :: "string \<Rightarrow> change_event" where
  "parse_change_payload payload =
     (let parts = splitn 3 tab payload in
      if length parts = 3
      then \<lparr>ce_operation = from_tg_op (parts ! 0), ce_client_id = parts ! 1,
            ce_guild_id = (if parts ! 2 = [] then None else Some (parts ! 2))\<rparr>
      else \<lparr>ce_operation = Unknown, ce_client_id = payload, ce_guild_id = None\<rparr>)"

text \<open>What the installed trigger sends: \<open>format('%s\t%s\t%s', TG_OP, client_id, guild_id)\<close>.\<close>

definition trigger_payload :: "string \<Rightarrow> string \<Rightarrow> string \<Rightarrow> string" where
  "trigger_payload tg_op client_id guild = tg_op @ [tab] @ client_id @ [tab] @ guild"

definition normalize_database_url :: "string \<Rightarrow> string" where
  "normalize_database_url url =
     replace_all (replace_all url ''sslmode=verify-full'' ''sslmode=require'')
       ''sslmode=verify-ca'' ''sslmode=require''"

section \<open>Rows to registry\<close>

record snapshot_row =
  row_client_id :: string
  row_secret :: string
  row_guild_id :: string
  row_reachable_url :: "string option"
  row_next_wake_at :: "instant option"

fun earliest_wake :: "instant option \<Rightarrow> instant option \<Rightarrow> instant option" where
  "earliest_wake None other = other"
| "earliest_wake other None = other"
| "earliest_wake (Some left) (Some right) = Some (min left right)"

text \<open>One round of the loop of \<open>group_rows_into_clients\<close>.\<close>

definition group_row :: "snapshot_row \<Rightarrow> clients \<Rightarrow> clients" where
  "group_row row clients =
     (case parse_uint (row_guild_id row) of
        None \<Rightarrow> clients
      | Some guild \<Rightarrow>
          (case hm_get clients (row_client_id row) of
             Some c \<Rightarrow>
               if cl_secret c \<noteq> row_secret row then clients
               else hm_insert (row_client_id row)
                 (c\<lparr>cl_guilds := insert guild (cl_guilds c),
                    cl_reachable_url :=
                      (if cl_reachable_url c = None \<and> row_reachable_url row \<noteq> None
                       then row_reachable_url row else cl_reachable_url c),
                    cl_next_wake_at := earliest_wake (cl_next_wake_at c) (row_next_wake_at row)\<rparr>)
                 clients
           | None \<Rightarrow>
               hm_insert (row_client_id row)
                 \<lparr>cl_secret = row_secret row, cl_guilds = {guild},
                  cl_reachable_url = row_reachable_url row,
                  cl_next_wake_at = row_next_wake_at row\<rparr> clients))"

definition group_rows_into_clients :: "snapshot_row list \<Rightarrow> clients" where
  "group_rows_into_clients rows = fold group_row rows []"

text \<open>
  \<open>refresh_clients_by_ids\<close>: \<open>rows\<close> is the answer of the query for the dirty ids. A poisoned lock
  leaves the registry as it is.
\<close>

definition refresh_clients_by_ids :: "snapshot_row list \<Rightarrow> string set \<Rightarrow> clients option \<Rightarrow> clients option"
  where
  "refresh_clients_by_ids rows dirty clients =
     (if dirty = {} then clients
      else map_option
        (\<lambda>m. hm_extend (hm_retain (\<lambda>client_id _. client_id \<notin> dirty) m) (group_rows_into_clients rows))
        clients)"

section \<open>Authentication: lemmas\<close>

lemma client_has_guild_iff:
  "client_has_guild r c g \<longleftrightarrow> (\<exists>gs. client_guilds r c = Some gs \<and> g \<in> gs)"
  by (auto simp: client_has_guild_def client_guilds_def split: option.splits)

lemma authenticate_COk_iff:
  "authenticate_client_with_id r token = COk c gs \<longleftrightarrow>
     (\<exists>secret m cfg. split_once CHR '':'' token = Some (c, secret) \<and> client_data_state r \<noteq> Stale \<and>
        rg_clients r = Some m \<and> hm_get m c = Some cfg \<and> cl_secret cfg = secret \<and>
        gs = cl_guilds cfg)"
  by (auto simp: authenticate_client_with_id_def unverified_def Let_def
      split: option.splits if_splits client_data_state.splits)

lemma authenticate_COk_guilds:
  "authenticate_client_with_id r token = COk c gs \<Longrightarrow> client_guilds r c = Some gs"
  by (auto simp: authenticate_COk_iff client_guilds_def)

lemma authenticate_CInvalid:
  "authenticate_client_with_id r token = CInvalid \<Longrightarrow>
     CHR '':'' \<notin> set token \<or> client_data_state r \<in> {NoDatabase, Fresh}"
  by (auto simp: authenticate_client_with_id_def unverified_def Let_def split_once_None
      split: option.splits if_splits client_data_state.splits)

text \<open>Each client has one entry.\<close>

definition wf_registry :: "registry \<Rightarrow> bool" where
  "wf_registry r \<longleftrightarrow> (case rg_clients r of None \<Rightarrow> True | Some m \<Rightarrow> hm_wf m)"

lemma wf_registryD: "wf_registry r \<Longrightarrow> rg_clients r = Some m \<Longrightarrow> hm_wf m"
  by (simp add: wf_registry_def)

section \<open>Grouping: lemmas\<close>

lemma earliest_wake_None2 [simp]: "earliest_wake w None = w"
  by (cases w) auto

lemma earliest_wake_assoc: "earliest_wake (earliest_wake a b) c = earliest_wake a (earliest_wake b c)"
  by (cases a; cases b; cases c) auto

lemma earliest_wake_commute: "earliest_wake a b = earliest_wake b a"
  by (cases a; cases b) auto

text \<open>The rows that count for a client: its own, with a guild id that parses.\<close>

definition rows_of :: "string \<Rightarrow> snapshot_row list \<Rightarrow> snapshot_row list" where
  "rows_of c rows =
     filter (\<lambda>r. row_client_id r = c \<and> (parse_uint (row_guild_id r) :: u64 option) \<noteq> None) rows"

definition row_guild :: "snapshot_row \<Rightarrow> u64" where
  "row_guild r = the (parse_uint (row_guild_id r))"

text \<open>
  The entry that a list of rows of one client stands for: the newest secret (rows come newest
  first), the guilds of the rows with that secret, the first URL and the soonest wake among them.
\<close>

definition entry_of_rows :: "snapshot_row list \<Rightarrow> client_config option" where
  "entry_of_rows rows =
     (case rows of
        [] \<Rightarrow> None
      | r # _ \<Rightarrow>
          let same = filter (\<lambda>x. row_secret x = row_secret r) rows in
          Some \<lparr>cl_secret = row_secret r, cl_guilds = row_guild ` set same,
                cl_reachable_url = find_map row_reachable_url same,
                cl_next_wake_at = fold (\<lambda>x w. earliest_wake w (row_next_wake_at x)) same None\<rparr>)"

lemma find_map_append:
  "find_map f (xs @ ys) = (case find_map f xs of None \<Rightarrow> find_map f ys | Some y \<Rightarrow> Some y)"
  by (induction xs) (auto split: option.splits)

lemma entry_of_rows_snoc:
  "entry_of_rows (rows @ [r]) =
     (case entry_of_rows rows of
        None \<Rightarrow> Some \<lparr>cl_secret = row_secret r, cl_guilds = {row_guild r},
                  cl_reachable_url = row_reachable_url r, cl_next_wake_at = row_next_wake_at r\<rparr>
      | Some c \<Rightarrow>
          if cl_secret c \<noteq> row_secret r then Some c
          else Some (c\<lparr>cl_guilds := insert (row_guild r) (cl_guilds c),
                 cl_reachable_url :=
                   (if cl_reachable_url c = None then row_reachable_url r else cl_reachable_url c),
                 cl_next_wake_at := earliest_wake (cl_next_wake_at c) (row_next_wake_at r)\<rparr>))"
  by (cases rows) (auto simp: entry_of_rows_def Let_def find_map_append split: option.splits)

lemma rows_of_snoc:
  "rows_of c (rows @ [r]) =
     (if row_client_id r = c \<and> (parse_uint (row_guild_id r) :: u64 option) \<noteq> None
      then rows_of c rows @ [r] else rows_of c rows)"
  by (simp add: rows_of_def)

lemma group_rows_get: "hm_get (group_rows_into_clients rows) c = entry_of_rows (rows_of c rows)"
proof (induction rows rule: rev_induct)
  case Nil
  show ?case by (simp add: group_rows_into_clients_def rows_of_def entry_of_rows_def)
next
  case (snoc r rows)
  have step: "group_rows_into_clients (rows @ [r]) = group_row r (group_rows_into_clients rows)"
    by (simp add: group_rows_into_clients_def)
  show ?case
  proof (cases "parse_uint (row_guild_id r) :: u64 option")
    case None
    then show ?thesis using snoc.IH step by (simp add: rows_of_snoc group_row_def)
  next
    case (Some g)
    then have "row_guild r = g" by (simp add: row_guild_def)
    moreover have IH: "entry_of_rows (rows_of c rows) = hm_get (group_rows_into_clients rows) c"
      using snoc.IH by simp
    ultimately show ?thesis
      using Some step
      by (cases "row_client_id r = c"; cases "hm_get (group_rows_into_clients rows) (row_client_id r)")
        (auto simp: rows_of_snoc group_row_def entry_of_rows_snoc IH)
  qed
qed

lemma group_row_wf [simp]: "hm_wf m \<Longrightarrow> hm_wf (group_row r m)"
  by (auto simp: group_row_def split: option.splits)

lemma group_rows_wf [simp, wf_intros]: "hm_wf (group_rows_into_clients rows)"
proof -
  have "hm_wf m \<Longrightarrow> hm_wf (fold group_row rows m)" for m
    by (induction rows arbitrary: m) auto
  then show ?thesis by (simp add: group_rows_into_clients_def)
qed

lemma rows_of_filter_client:
  "rows_of c (filter (\<lambda>r. row_client_id r \<in> D) rows) = (if c \<in> D then rows_of c rows else [])"
  by (induction rows) (auto simp: rows_of_def)

lemma refresh_get:
  assumes "hm_wf m"
  shows "refresh_clients_by_ids (filter (\<lambda>r. row_client_id r \<in> D) db) D (Some m) = Some m' \<Longrightarrow>
    hm_get m' c = (if c \<in> D then entry_of_rows (rows_of c db) else hm_get m c)"
  using assms
  by (auto simp: refresh_clients_by_ids_def hm_get_extend hm.get_retain group_rows_get
      rows_of_filter_client entry_of_rows_def split: if_splits option.splits)

section \<open>Notifications: lemmas\<close>

lemma splitn3_parts:
  assumes "tab \<notin> set a" and "tab \<notin> set b"
  shows "splitn 3 tab (a @ [tab] @ b @ [tab] @ c) = [a, b, c]"
  using assms by (simp add: numeral_3_eq_3)

lemma parse_trigger_payload:
  assumes "tab \<notin> set tg_op" and "tab \<notin> set c"
  shows "parse_change_payload (trigger_payload tg_op c g) =
    \<lparr>ce_operation = from_tg_op tg_op, ce_client_id = c,
     ce_guild_id = (if g = [] then None else Some g)\<rparr>"
  using splitn3_parts [OF assms, of g] by (simp add: parse_change_payload_def trigger_payload_def)

end
