(* ===== verification/Auth_Model.thy ===== *)
theory Auth_Model
  imports Db_Config
begin

text \<open>
  \<open>src/auth.rs\<close>: how a token of IDENTIFY, RESUME or the \<open>Authorization\<close> header becomes a principal
  with its guilds. Both the gateway and the REST proxy go through
  \<open>authenticate_gateway_token\<close>.
\<close>

section \<open>Definitions\<close>

datatype session_principal = BotToken | Client string | Unvalidated string

record auth_context =
  ac_principal :: session_principal
  ac_authorized_guilds :: "u64 set option"

datatype gateway_auth_result = GOk auth_context | GStale | GInvalid

definition normalize_gateway_token :: "string \<Rightarrow> string" where
  "normalize_gateway_token token =
     (case split_whitespace token of [] \<Rightarrow> [] | ws \<Rightarrow> last ws)"

definition authenticate_gateway_token :: "config \<Rightarrow> registry \<Rightarrow> string \<Rightarrow> gateway_auth_result" where
  "authenticate_gateway_token cfg r token =
     (case authenticate_client_with_id r token of
        COk client_id guilds \<Rightarrow>
          GOk \<lparr>ac_principal = Client client_id, ac_authorized_guilds = Some guilds\<rparr>
      | CStale \<Rightarrow> GStale
      | CInvalid \<Rightarrow>
          if token = cfg_token cfg
          then GOk \<lparr>ac_principal = BotToken, ac_authorized_guilds = None\<rparr>
          else if cfg_validate_token cfg then GInvalid
          else GOk \<lparr>ac_principal = Unvalidated token, ac_authorized_guilds = None\<rparr>)"

definition client_of :: "session_principal \<Rightarrow> string option" where
  "client_of p = (case p of Client c \<Rightarrow> Some c | _ \<Rightarrow> None)"

lemma client_of_simps [simp]:
  "client_of (Client c) = Some c" "client_of BotToken = None" "client_of (Unvalidated t) = None"
  by (simp_all add: client_of_def)

lemma client_of_Some [simp]: "client_of p = Some c \<longleftrightarrow> p = Client c"
  by (cases p) auto

section \<open>Lemmas\<close>

lemma auth_GOk_cases:
  assumes "authenticate_gateway_token cfg r token = GOk ctx"
  obtains (client) c gs where "authenticate_client_with_id r token = COk c gs"
      and "ctx = \<lparr>ac_principal = Client c, ac_authorized_guilds = Some gs\<rparr>"
    | (bot) "authenticate_client_with_id r token = CInvalid" and "token = cfg_token cfg"
      and "ctx = \<lparr>ac_principal = BotToken, ac_authorized_guilds = None\<rparr>"
    | (unvalidated) "authenticate_client_with_id r token = CInvalid" and "\<not> cfg_validate_token cfg"
      and "token \<noteq> cfg_token cfg"
      and "ctx = \<lparr>ac_principal = Unvalidated token, ac_authorized_guilds = None\<rparr>"
  using assms
  by (auto simp: authenticate_gateway_token_def split: client_auth_result.splits if_splits)

lemma auth_client_guilds:
  assumes "authenticate_gateway_token cfg r token = GOk ctx" and "ac_principal ctx = Client c"
  shows "ac_authorized_guilds ctx = client_guilds r c" and "client_guilds r c \<noteq> None"
  using assms by (auto elim!: auth_GOk_cases dest: authenticate_COk_guilds)

lemma auth_no_client_no_filter:
  assumes "authenticate_gateway_token cfg r token = GOk ctx" and "client_of (ac_principal ctx) = None"
  shows "ac_authorized_guilds ctx = None"
  using assms by (auto elim!: auth_GOk_cases)

text \<open>A word without white space is one piece of \<open>split_whitespace\<close>.\<close>

definition no_ws :: "string \<Rightarrow> bool" where
  "no_ws s \<longleftrightarrow> (\<forall>i<length s. ws_len (drop i s) = 0)"

lemma no_ws_tl: "no_ws (c # cs) \<Longrightarrow> no_ws cs"
  by (force simp: no_ws_def)

lemma no_ws_hd: "no_ws (c # cs) \<Longrightarrow> ws_len (c # cs) = 0"
  unfolding no_ws_def by (metis drop0 length_greater_0_conv list.discI)

lemma words_from_no_ws: "no_ws s \<Longrightarrow> words_from cur s = (if cur @ s = [] then [] else [cur @ s])"
proof (induction s arbitrary: cur)
  case Nil
  show ?case by (subst words_from.simps) simp
next
  case (Cons c cs)
  then have "ws_len (c # cs) = 0" and "no_ws cs" by (blast intro: no_ws_hd no_ws_tl)+
  with Cons.IH [OF \<open>no_ws cs\<close>, of "cur @ [c]"] show ?case
    by (subst words_from.simps) simp
qed

lemma split_whitespace_word: "no_ws s \<Longrightarrow> s \<noteq> [] \<Longrightarrow> split_whitespace s = [s]"
  by (simp add: split_whitespace_def words_from_no_ws)

lemma normalize_plain: "no_ws t \<Longrightarrow> t \<noteq> [] \<Longrightarrow> normalize_gateway_token t = t"
  by (simp add: normalize_gateway_token_def split_whitespace_word)

lemma split_whitespace_bot:
  assumes "no_ws t" and "t \<noteq> []"
  shows "split_whitespace (''Bot '' @ t) = [''Bot'', t]"
proof -
  have "words_from ''Bot'' (CHR '' '' # t) = [''Bot''] @ words_from [] t"
    by (subst words_from.simps) simp
  then show ?thesis
    using words_from_no_ws [OF assms(1), of "[]"] assms(2)
    by (simp add: split_whitespace_def words_from.simps [of "[]" "CHR ''B'' # s" for s]
        words_from.simps [of "''B''" "CHR ''o'' # s" for s]
        words_from.simps [of "''Bo''" "CHR ''t'' # s" for s] ascii_ws_def byte_def)
qed

end
