(* ===== verification/Json_Model.thy ===== *)
theory Json_Model
  imports Rust_Str Hash_Map
begin

text \<open>
  \<open>src/model.rs\<close>: the payloads the proxy reads and writes. The JSON library (simd-json or
  serde_json) is not part of the repository: its parsers and its printer are the functions of the
  record \<open>json_lib\<close>, an argument of every definition that uses them. What the repository itself
  fixes, the shape of each type and which fields its \<open>Serialize\<close> attributes write, is modelled.
\<close>

section \<open>JSON values\<close>

datatype json =
    JNull
  | JBool bool
  | JInt int
  | JFloat string
  | JStr string
  | JArr "json list"
  | JObj "(string \<times> json) list"

type_synonym json_object = "(string, json) hmap"

section \<open>Payloads from clients\<close>

record identify_info =
  idf_compress :: "bool option"
  idf_shard :: "u32 \<times> u32"
  idf_token :: string

record resume_info =
  res_session_id :: string
  res_seq :: usize
  res_token :: string

datatype user_ids = One string | Many "string list"

record request_guild_members_info =
  rgm_guild_id :: string
  rgm_query :: "string option"
  rgm_limit :: "u32 option"
  rgm_presences :: "bool option"
  rgm_user_ids :: "user_ids option"
  rgm_nonce :: "string option"

record voice_state_update_info =
  vsu_guild_id :: string
  vsu_channel_id :: "string option"
  vsu_self_mute :: bool
  vsu_self_deaf :: bool

section \<open>Payloads from Discord\<close>

record voice_state_event_info =
  vse_user_id :: string
  vse_channel_id :: "string option"

text \<open>\<open>ReadyUserInfo { user: IdOnly { id } }\<close> and the generic \<open>Ready { d }\<close>.\<close>

record id_only = ido_id :: string

record ready_user_info = rui_user :: id_only

section \<open>The JSON library\<close>

record json_lib =
  parse_identify :: "string \<Rightarrow> identify_info option"
  parse_resume :: "string \<Rightarrow> resume_info option"
  parse_request_guild_members :: "string \<Rightarrow> request_guild_members_info option"
  parse_voice_state_update :: "string \<Rightarrow> voice_state_update_info option"
  parse_ready :: "string \<Rightarrow> json_object option"
  parse_ready_user :: "string \<Rightarrow> ready_user_info option"
  parse_voice_state_event :: "string \<Rightarrow> voice_state_event_info option"
  parse_object_keys :: "string \<Rightarrow> string set option"
  parse_value :: "string \<Rightarrow> json option"
  to_json_string :: "json \<Rightarrow> string option"

section \<open>What is written\<close>

text \<open>\<open>skip_serializing_if = "Option::is_none"\<close>.\<close>

definition opt_field :: "string \<Rightarrow> ('a \<Rightarrow> json) \<Rightarrow> 'a option \<Rightarrow> (string \<times> json) list" where
  "opt_field name f v = (case v of None \<Rightarrow> [] | Some x \<Rightarrow> [(name, f x)])"

definition user_ids_json :: "user_ids \<Rightarrow> json" where
  "user_ids_json u = (case u of One s \<Rightarrow> JStr s | Many ss \<Rightarrow> JArr (map JStr ss))"

definition request_guild_members_json :: "request_guild_members_info \<Rightarrow> json" where
  "request_guild_members_json d =
     JObj ([(''guild_id'', JStr (rgm_guild_id d))]
       @ opt_field ''query'' JStr (rgm_query d)
       @ opt_field ''limit'' (\<lambda>n. JInt (uint n)) (rgm_limit d)
       @ opt_field ''presences'' JBool (rgm_presences d)
       @ opt_field ''user_ids'' user_ids_json (rgm_user_ids d)
       @ opt_field ''nonce'' JStr (rgm_nonce d))"

definition voice_state_update_json :: "voice_state_update_info \<Rightarrow> json" where
  "voice_state_update_json d =
     JObj [(''guild_id'', JStr (vsu_guild_id d)),
           (''channel_id'', case vsu_channel_id d of None \<Rightarrow> JNull | Some c \<Rightarrow> JStr c),
           (''self_mute'', JBool (vsu_self_mute d)),
           (''self_deaf'', JBool (vsu_self_deaf d))]"

definition outgoing_command :: "u8 \<Rightarrow> json \<Rightarrow> json" where
  "outgoing_command opcode d = JObj [(''op'', JInt (uint opcode)), (''d'', d)]"

section \<open>Reading a value back\<close>

fun json_field :: "string \<Rightarrow> json \<Rightarrow> json option" where
  "json_field k (JObj kvs) = map_of kvs k"
| "json_field k _ = None"

fun json_keys :: "json \<Rightarrow> string list" where
  "json_keys (JObj kvs) = map fst kvs"
| "json_keys _ = []"

lemma opt_field_keys: "set (map fst (opt_field k f v)) \<subseteq> {k}"
  by (auto simp: opt_field_def split: option.splits)

lemma request_guild_members_json_keys:
  "set (json_keys (request_guild_members_json d)) \<subseteq>
     {''guild_id'', ''query'', ''limit'', ''presences'', ''user_ids'', ''nonce''}"
  by (auto simp: request_guild_members_json_def opt_field_def split: option.splits)

lemma request_guild_members_json_distinct: "distinct (json_keys (request_guild_members_json d))"
  by (auto simp: request_guild_members_json_def opt_field_def split: option.splits)

lemma request_guild_members_json_guild [simp]:
  "json_field ''guild_id'' (request_guild_members_json d) = Some (JStr (rgm_guild_id d))"
  by (simp add: request_guild_members_json_def)

lemma voice_state_update_json_keys:
  "json_keys (voice_state_update_json d) = [''guild_id'', ''channel_id'', ''self_mute'', ''self_deaf'']"
  by (simp add: voice_state_update_json_def)

lemma voice_state_update_json_guild [simp]:
  "json_field ''guild_id'' (voice_state_update_json d) = Some (JStr (vsu_guild_id d))"
  by (simp add: voice_state_update_json_def)

lemma outgoing_command_fields [simp]:
  "json_keys (outgoing_command opcode d) = [''op'', ''d'']"
  "json_field ''op'' (outgoing_command opcode d) = Some (JInt (uint opcode))"
  "json_field ''d'' (outgoing_command opcode d) = Some d"
  by (simp_all add: outgoing_command_def)

end
