(* ===== verification/Guild_Cache.thy ===== *)
theory Guild_Cache
  imports Json_Model
begin

text \<open>
  \<open>src/cache.rs\<close>: what the proxy reads from the guild cache of a shard, and the READY, GUILD_CREATE
  and GUILD_DELETE payloads it builds from it for a new session.
\<close>

section \<open>The in-memory cache\<close>

text \<open>
  The cache is twilight's; the records hold what \<open>src/cache.rs\<close> observes of it. An accessor method
  of a cached resource is a field of \<open>accessors\<close>, with the JSON value that serde writes for what it
  returns; only the accessors the proxy branches on are typed. An id set of a guild is a list in its
  iteration order, \<^term>\<open>None\<close> if the cache has no such set, and may name ids that are not cached.
\<close>

type_synonym accessors = "string \<Rightarrow> json"

record cached_guild =
  cg_id :: u64
  cg_unavailable :: "bool option"
  cg_get :: accessors

record cached_channel =
  ch_is_thread :: bool
  ch_value :: json

record cached_emoji =
  ce_user_id :: "u64 option"
  ce_get :: accessors

record cached_member =
  cm_user_id :: u64
  cm_deaf :: "bool option"
  cm_mute :: "bool option"
  cm_get :: accessors

record cached_sticker =
  cs_user_id :: "u64 option"
  cs_get :: accessors

record guild_cache =
  gc_guilds :: "cached_guild list"
  gc_unavailable_guilds :: "u64 list"
  gc_guild_channels :: "u64 \<rightharpoonup> u64 list"
  gc_guild_presences :: "u64 \<rightharpoonup> u64 list"
  gc_guild_emojis :: "u64 \<rightharpoonup> u64 list"
  gc_guild_members :: "u64 \<rightharpoonup> u64 list"
  gc_guild_roles :: "u64 \<rightharpoonup> u64 list"
  gc_scheduled_events :: "u64 \<rightharpoonup> u64 list"
  gc_guild_stage_instances :: "u64 \<rightharpoonup> u64 list"
  gc_guild_stickers :: "u64 \<rightharpoonup> u64 list"
  gc_guild_voice_states :: "u64 \<rightharpoonup> u64 list"
  gc_channel :: "u64 \<rightharpoonup> cached_channel"
  gc_presence :: "u64 \<times> u64 \<rightharpoonup> accessors"
  gc_emoji :: "u64 \<rightharpoonup> cached_emoji"
  gc_member :: "u64 \<times> u64 \<rightharpoonup> cached_member"
  gc_role :: "u64 \<rightharpoonup> json"
  gc_scheduled_event :: "u64 \<rightharpoonup> json"
  gc_stage_instance :: "u64 \<rightharpoonup> json"
  gc_sticker :: "u64 \<rightharpoonup> cached_sticker"
  gc_user :: "u64 \<rightharpoonup> json"
  gc_voice_state :: "u64 \<times> u64 \<rightharpoonup> accessors"

definition empty_cache :: guild_cache where
  "empty_cache =
     \<lparr>gc_guilds = [], gc_unavailable_guilds = [], gc_guild_channels = Map.empty,
      gc_guild_presences = Map.empty, gc_guild_emojis = Map.empty, gc_guild_members = Map.empty,
      gc_guild_roles = Map.empty, gc_scheduled_events = Map.empty, gc_guild_stage_instances = Map.empty,
      gc_guild_stickers = Map.empty, gc_guild_voice_states = Map.empty, gc_channel = Map.empty,
      gc_presence = Map.empty, gc_emoji = Map.empty, gc_member = Map.empty, gc_role = Map.empty,
      gc_scheduled_event = Map.empty, gc_stage_instance = Map.empty, gc_sticker = Map.empty,
      gc_user = Map.empty, gc_voice_state = Map.empty\<rparr>"

section \<open>Lookups\<close>

text \<open>\<open>Id::new_checked\<close> refuses 0.\<close>

definition has_voice_state :: "guild_cache \<Rightarrow> u64 \<Rightarrow> u64 \<Rightarrow> bool" where
  "has_voice_state gc guild user \<longleftrightarrow>
     guild \<noteq> 0 \<and> user \<noteq> 0 \<and> gc_voice_state gc (user, guild) \<noteq> None"

definition cache_resolve_guild_id_for_channel :: "guild_cache \<Rightarrow> u64 \<Rightarrow> u64 option" where
  "cache_resolve_guild_id_for_channel gc channel =
     find_map (\<lambda>guild.
       let has_channel = (case gc_guild_channels gc (cg_id guild) of
             Some channels \<Rightarrow> list_ex (\<lambda>c. c = channel) channels
           | None \<Rightarrow> False)
       in if has_channel then Some (cg_id guild) else None) (gc_guilds gc)"

section \<open>READY\<close>

text \<open>\<open>Payload { d, op: OpCode::Dispatch, t, s }\<close>.\<close>

definition dispatch_payload :: "json \<Rightarrow> string \<Rightarrow> usize \<Rightarrow> json" where
  "dispatch_payload d t s =
     JObj [(''d'', d), (''op'', JInt 0), (''t'', JStr t), (''s'', JInt (uint s))]"

definition id_json :: "u64 \<Rightarrow> json" where
  "id_json i = JStr (format_uint i)"

definition guild_id_to_json :: "u64 \<Rightarrow> json" where
  "guild_id_to_json guild = JObj [(''id'', id_json guild), (''unavailable'', JBool True)]"

definition is_authorized :: "u64 set option \<Rightarrow> u64 \<Rightarrow> bool" where
  "is_authorized authorized_guilds guild =
     (case authorized_guilds of Some guilds \<Rightarrow> guild \<in> guilds | None \<Rightarrow> True)"

text \<open>\<open>READY { d, s }\<close>: the object is kept apart because the forwarder still writes into it.\<close>

definition get_ready_payload ::
  "guild_cache \<Rightarrow> json_object \<Rightarrow> usize \<Rightarrow> u64 set option \<Rightarrow> json_object \<times> usize" where
  "get_ready_payload gc ready seq authorized_guilds =
     (let guilds =
        map guild_id_to_json
          (map cg_id (filter (\<lambda>guild. is_authorized authorized_guilds (cg_id guild) \<and>
             cg_unavailable guild \<noteq> Some True) (gc_guilds gc)))
        @ map guild_id_to_json
          (filter (is_authorized authorized_guilds) (gc_unavailable_guilds gc))
      in (hm_insert ''guilds'' (JArr guilds) ready, seq + 1))"

section \<open>The resources of a guild\<close>

text \<open>\<open>reference.map(|ids| ids.iter().filter_map(f).collect()).unwrap_or_default()\<close>.\<close>

definition collect_ids :: "u64 list option \<Rightarrow> (u64 \<Rightarrow> 'a option) \<Rightarrow> 'a list" where
  "collect_ids reference f = (case reference of None \<Rightarrow> [] | Some ids \<Rightarrow> List.map_filter f ids)"

text \<open>Fields that are passed on as the accessor of the same name returns them.\<close>

definition same :: "accessors \<Rightarrow> string list \<Rightarrow> (string \<times> json) list" where
  "same get_field names = map (\<lambda>name. (name, get_field name)) names"

definition opt_json :: "json option \<Rightarrow> json" where
  "opt_json v = (case v of None \<Rightarrow> JNull | Some x \<Rightarrow> x)"

definition channels_in_guild :: "guild_cache \<Rightarrow> u64 \<Rightarrow> json list" where
  "channels_in_guild gc guild_id =
     collect_ids (gc_guild_channels gc guild_id) (\<lambda>channel_id.
       Option.bind (gc_channel gc channel_id) (\<lambda>channel.
         if ch_is_thread channel then None else Some (ch_value channel)))"

definition presences_in_guild :: "guild_cache \<Rightarrow> u64 \<Rightarrow> json list" where
  "presences_in_guild gc guild_id =
     collect_ids (gc_guild_presences gc guild_id) (\<lambda>user_id.
       map_option (\<lambda>presence. JObj
           (same presence [''activities'', ''client_status'', ''guild_id'', ''status''] @
            [(''user'', JObj [(''id'', presence ''user_id'')])]))
         (gc_presence gc (guild_id, user_id)))"

definition emoji_json :: "guild_cache \<Rightarrow> u64 \<Rightarrow> json option" where
  "emoji_json gc emoji_id =
     map_option (\<lambda>emoji. JObj
         (same (ce_get emoji)
            [''animated'', ''available'', ''id'', ''managed'', ''name'', ''require_colons'', ''roles''] @
          [(''user'', opt_json (Option.bind (ce_user_id emoji) (gc_user gc)))]))
       (gc_emoji gc emoji_id)"

definition emojis_in_guild :: "guild_cache \<Rightarrow> u64 \<Rightarrow> json list" where
  "emojis_in_guild gc guild_id = collect_ids (gc_guild_emojis gc guild_id) (emoji_json gc)"

definition member :: "guild_cache \<Rightarrow> u64 \<Rightarrow> u64 \<Rightarrow> json option" where
  "member gc guild_id user_id =
     Option.bind (gc_member gc (guild_id, user_id)) (\<lambda>member.
       let field = cm_get member in
       map_option (\<lambda>user. JObj
           (same field [''avatar''] @
            [(''avatar_decoration_data'', JNull), (''banner'', JNull)] @
            same field [''communication_disabled_until''] @
            [(''deaf'', JBool (cm_deaf member = Some True))] @
            same field [''flags'', ''joined_at''] @
            [(''mute'', JBool (cm_mute member = Some True))] @
            same field [''nick'', ''pending'', ''premium_since'', ''roles''] @
            [(''user'', user)]))
         (gc_user gc (cm_user_id member)))"

definition members_in_guild :: "guild_cache \<Rightarrow> u64 \<Rightarrow> json list" where
  "members_in_guild gc guild_id = collect_ids (gc_guild_members gc guild_id) (member gc guild_id)"

definition roles_in_guild :: "guild_cache \<Rightarrow> u64 \<Rightarrow> json list" where
  "roles_in_guild gc guild_id = collect_ids (gc_guild_roles gc guild_id) (gc_role gc)"

definition scheduled_events_in_guild :: "guild_cache \<Rightarrow> u64 \<Rightarrow> json list" where
  "scheduled_events_in_guild gc guild_id =
     collect_ids (gc_scheduled_events gc guild_id) (gc_scheduled_event gc)"

definition stage_instances_in_guild :: "guild_cache \<Rightarrow> u64 \<Rightarrow> json list" where
  "stage_instances_in_guild gc guild_id =
     collect_ids (gc_guild_stage_instances gc guild_id) (gc_stage_instance gc)"

definition sticker_json :: "guild_cache \<Rightarrow> u64 \<Rightarrow> json option" where
  "sticker_json gc sticker_id =
     map_option (\<lambda>sticker. JObj
         (same (cs_get sticker)
            [''available'', ''description'', ''format_type'', ''guild_id'', ''id'', ''kind'', ''name'',
             ''pack_id'', ''sort_value'', ''tags''] @
          [(''user'', opt_json (Option.bind (cs_user_id sticker) (gc_user gc)))]))
       (gc_sticker gc sticker_id)"

definition stickers_in_guild :: "guild_cache \<Rightarrow> u64 \<Rightarrow> json list" where
  "stickers_in_guild gc guild_id = collect_ids (gc_guild_stickers gc guild_id) (sticker_json gc)"

definition voice_states_in_guild :: "guild_cache \<Rightarrow> u64 \<Rightarrow> json list" where
  "voice_states_in_guild gc guild_id =
     collect_ids (gc_guild_voice_states gc guild_id) (\<lambda>user_id.
       map_option (\<lambda>voice_state. JObj
           (same voice_state [''channel_id'', ''deaf'', ''guild_id''] @
            [(''member'', opt_json (member gc guild_id user_id))] @
            same voice_state
              [''mute'', ''self_deaf'', ''self_mute'', ''self_stream'', ''self_video'', ''session_id'',
               ''suppress'', ''user_id'', ''request_to_speak_timestamp'']))
         (gc_voice_state gc (user_id, guild_id)))"

definition threads_in_guild :: "guild_cache \<Rightarrow> u64 \<Rightarrow> json list" where
  "threads_in_guild gc guild_id =
     collect_ids (gc_guild_channels gc guild_id) (\<lambda>channel_id.
       Option.bind (gc_channel gc channel_id) (\<lambda>channel.
         if ch_is_thread channel then Some (ch_value channel) else None))"

section \<open>GUILD_CREATE and GUILD_DELETE\<close>

text \<open>The literal \<open>Guild { .. }\<close>; which of its fields serde leaves out is twilight's.\<close>

definition new_guild :: "guild_cache \<Rightarrow> cached_guild \<Rightarrow> (string \<times> json) list" where
  "new_guild gc guild =
     (let field = cg_get guild in
      same field [''afk_channel_id'', ''afk_timeout'', ''application_id''] @
      [(''approximate_member_count'', JNull)] @
      same field [''banner''] @
      [(''approximate_presence_count'', JNull),
       (''channels'', JArr (channels_in_guild gc (cg_id guild)))] @
      same field [''default_message_notifications'', ''description'', ''discovery_splash''] @
      [(''emojis'', JArr (emojis_in_guild gc (cg_id guild)))] @
      same field [''explicit_content_filter'', ''features''] @
      [(''guild_scheduled_events'', JArr (scheduled_events_in_guild gc (cg_id guild)))] @
      same field [''icon''] @
      [(''id'', id_json (cg_id guild))] @
      same field
        [''joined_at'', ''large'', ''max_members'', ''max_presences'', ''max_stage_video_channel_users'',
         ''max_video_channel_users'', ''member_count''] @
      [(''members'', JArr (members_in_guild gc (cg_id guild)))] @
      same field
        [''mfa_level'', ''name'', ''nsfw_level'', ''owner_id'', ''owner'', ''permissions'',
         ''public_updates_channel_id'', ''preferred_locale'', ''premium_progress_bar_enabled'',
         ''premium_subscription_count'', ''premium_tier''] @
      [(''presences'', JArr (presences_in_guild gc (cg_id guild))),
       (''roles'', JArr (roles_in_guild gc (cg_id guild)))] @
      same field [''rules_channel_id'', ''safety_alerts_channel_id'', ''splash''] @
      [(''stage_instances'', JArr (stage_instances_in_guild gc (cg_id guild))),
       (''stickers'', JArr (stickers_in_guild gc (cg_id guild)))] @
      same field [''system_channel_flags'', ''system_channel_id''] @
      [(''threads'', JArr (threads_in_guild gc (cg_id guild))), (''unavailable'', JBool False)] @
      same field [''vanity_url_code'', ''verification_level''] @
      [(''voice_states'', JArr (voice_states_in_guild gc (cg_id guild)))] @
      same field [''widget_channel_id'', ''widget_enabled''])"

definition guild_payload :: "guild_cache \<Rightarrow> cached_guild \<Rightarrow> usize \<Rightarrow> json" where
  "guild_payload gc guild seq =
     (if cg_unavailable guild = Some True
      then dispatch_payload
        (JObj [(''id'', id_json (cg_id guild)), (''unavailable'', JBool True)]) ''GUILD_DELETE'' seq
      else dispatch_payload (JObj (new_guild gc guild)) ''GUILD_CREATE'' seq)"

text \<open>The lazy iterator of \<open>get_guild_payloads\<close>; \<open>unwrap\<close> on a failed serialization panics.\<close>

fun guild_payloads_from ::
  "json_lib \<Rightarrow> guild_cache \<Rightarrow> cached_guild list \<Rightarrow> usize \<Rightarrow> (string list \<times> usize) outcome" where
  "guild_payloads_from J gc [] seq = Ret ([], seq)"
| "guild_payloads_from J gc (guild # guilds) seq =
     (case to_json_string J (guild_payload gc guild (seq + 1)) of
        None \<Rightarrow> Panic
      | Some payload \<Rightarrow>
          omap (\<lambda>(payloads, seq'). (payload # payloads, seq')) (guild_payloads_from J gc guilds (seq + 1)))"

definition get_guild_payloads ::
  "json_lib \<Rightarrow> guild_cache \<Rightarrow> usize \<Rightarrow> u64 set option \<Rightarrow> (string list \<times> usize) outcome" where
  "get_guild_payloads J gc seq authorized_guilds =
     guild_payloads_from J gc
       (filter (\<lambda>guild. is_authorized authorized_guilds (cg_id guild)) (gc_guilds gc)) seq"

section \<open>Lemmas\<close>

lemma resolve_cache_SomeD:
  "cache_resolve_guild_id_for_channel gc ch = Some g \<Longrightarrow>
     \<exists>guild\<in>set (gc_guilds gc). cg_id guild = g \<and>
       (\<exists>chs. gc_guild_channels gc g = Some chs \<and> ch \<in> set chs)"
  unfolding cache_resolve_guild_id_for_channel_def
  by (drule find_map_SomeD) (auto simp: Let_def list_ex_iff split: if_splits option.splits)

lemma collect_ids_cong:
  assumes "r = r'" and "\<And>ids i. r = Some ids \<Longrightarrow> i \<in> set ids \<Longrightarrow> f i = f' i"
  shows "collect_ids r f = collect_ids r' f'"
proof (cases r)
  case (Some ids)
  with assms have "List.map_filter f ids = List.map_filter f' ids"
    unfolding List.map_filter_def by (intro map_cong filter_cong) auto
  with Some assms(1) show ?thesis by (simp add: collect_ids_def)
qed (use assms(1) in \<open>simp add: collect_ids_def\<close>)

text \<open>Nothing is lost if every listed resource is cached.\<close>

lemma length_collect_ids:
  assumes "\<And>i. i \<in> set ids \<Longrightarrow> f i \<noteq> None"
  shows "length (collect_ids (Some ids) f) = length ids"
proof -
  have "filter (\<lambda>i. f i \<noteq> None) ids = ids" using assms by (intro filter_True) blast
  then show ?thesis by (simp add: collect_ids_def List.map_filter_def comp_def)
qed

lemma length_collect_ids_filter:
  "length (collect_ids (Some ids) f) = length (filter (\<lambda>i. f i \<noteq> None) ids)"
  by (simp add: collect_ids_def List.map_filter_def comp_def)

end
