(* ===== verification/Deserializer.thy ===== *)
theory Deserializer
  imports Rust_Str "HOL-Library.Monad_Syntax"
begin

text \<open>
  \<open>src/deserializer.rs\<close>: the opcode, event name, sequence number and routing ids of a gateway
  payload are found by scanning its text, without parsing the JSON. The model is the scanner
  itself, over bytes, with the \<open>Option\<close> chains of the source as the option monad.
\<close>

section \<open>The scanned event\<close>

datatype op_info = OpInfo (op_value: u8) (op_from: nat) (op_to: nat)

datatype event_type_info = EventTypeInfo (event_name: string) (name_from: nat) (name_to: nat)

datatype sequence_info = SequenceInfo (seq_value: u64) (seq_from: nat) (seq_to: nat)

record gateway_event =
  ge_event_type :: "event_type_info option"
  ge_op :: op_info
  ge_sequence :: "sequence_info option"
  ge_guild_id :: "u64 option"
  ge_channel_id :: "u64 option"

section \<open>The scanner\<close>

definition find_event_type :: "string \<Rightarrow> event_type_info option" where
  "find_event_type input = do {
     at \<leftarrow> find_str input ''\"t\":'';
     let from = at + 4;
     rest \<leftarrow> str_from input from;
     skip \<leftarrow> first_non_ws rest;
     let start = skip + from + 1;
     if input ! (start - 1) \<noteq> CHR ''\"'' then None
     else do {
       value \<leftarrow> str_from input start;
       to \<leftarrow> find_char value [CHR ''\"''];
       name \<leftarrow> str_range input start (start + to);
       Some (EventTypeInfo name start (start + to))
     }
   }"

definition find_integer :: "string \<Rightarrow> string \<Rightarrow> ('n::len word \<times> nat \<times> nat) option" where
  "find_integer input key = do {
     at \<leftarrow> find_str input key;
     let from = at + length key;
     rest \<leftarrow> str_from input from;
     to \<leftarrow> find_char rest [CHR '','', CHR ''}''];
     clean \<leftarrow> str_range input from (from + to);
     n \<leftarrow> parse_uint clean;
     Some (n, from, from + to)
   }"

definition find_opcode :: "string \<Rightarrow> op_info option" where
  "find_opcode input = map_option (\<lambda>(n, a, b). OpInfo n a b) (find_integer input ''\"op\":'')"

definition find_sequence :: "string \<Rightarrow> sequence_info option" where
  "find_sequence input = map_option (\<lambda>(n, a, b). SequenceInfo n a b) (find_integer input ''\"s\":'')"

definition ends_scalar :: "string \<Rightarrow> bool" where
  "ends_scalar t \<longleftrightarrow> hd t = CHR '','' \<or> hd t = CHR ''}'' \<or> 0 < ws_len t"

definition find_data_field_u64 :: "string \<Rightarrow> string \<Rightarrow> u64 option" where
  "find_data_field_u64 input field = do {
     data_start \<leftarrow> find_str input ''\"d\":'';
     data_slice \<leftarrow> str_from input data_start;
     let key = ''\"'' @ field @ ''\"'';
     key_start \<leftarrow> find_str data_slice key;
     after_key \<leftarrow> str_from data_slice (key_start + length key);
     colon_pos \<leftarrow> find_char after_key [CHR '':''];
     after_colon \<leftarrow> str_from after_key (colon_pos + 1);
     ws_offset \<leftarrow> first_non_ws after_colon;
     val \<leftarrow> str_from after_colon ws_offset;
     if val = [] then None
     else if hd val = CHR ''\"'' then do {
       quoted \<leftarrow> str_from val 1;
       close \<leftarrow> find_char quoted [CHR ''\"''];
       inner \<leftarrow> str_range val 1 (close + 1);
       parse_uint inner
     }
     else if hd val = CHR ''n'' then None
     else do {
       let value_end = (case find_where ends_scalar val of None \<Rightarrow> length val | Some e \<Rightarrow> e);
       text \<leftarrow> str_range val 0 value_end;
       parse_uint text
     }
   }"

definition find_guild_id :: "string \<Rightarrow> event_type_info option \<Rightarrow> u64 option" where
  "find_guild_id input event_type =
     (case find_data_field_u64 input ''guild_id'' of
        Some guild_id \<Rightarrow> Some guild_id
      | None \<Rightarrow>
          (case event_type of
             None \<Rightarrow> None
           | Some info \<Rightarrow>
               if event_name info \<in> {''GUILD_CREATE'', ''GUILD_DELETE'', ''GUILD_UPDATE''}
               then find_data_field_u64 input ''id'' else None))"

definition find_channel_id :: "string \<Rightarrow> event_type_info option \<Rightarrow> u64 option" where
  "find_channel_id input event_type =
     (case find_data_field_u64 input ''channel_id'' of
        Some channel_id \<Rightarrow> Some channel_id
      | None \<Rightarrow>
          (case event_type of
             None \<Rightarrow> None
           | Some info \<Rightarrow>
               if event_name info \<in> {''CHANNEL_CREATE'', ''CHANNEL_UPDATE'', ''CHANNEL_DELETE'',
                   ''THREAD_CREATE'', ''THREAD_UPDATE'', ''THREAD_DELETE''}
               then find_data_field_u64 input ''id'' else None))"

definition from_json :: "string \<Rightarrow> gateway_event option" where
  "from_json input = do {
     opcode \<leftarrow> find_opcode input;
     let event_type = find_event_type input;
     Some \<lparr>ge_event_type = event_type,
           ge_op = opcode,
           ge_sequence = find_sequence input,
           ge_guild_id = find_guild_id input event_type,
           ge_channel_id = find_channel_id input event_type\<rparr>
   }"

section \<open>Integers: where they are and what they say\<close>

lemma is_char_boundary_le: "is_char_boundary s i \<Longrightarrow> i \<le> length s"
  by (auto simp: is_char_boundary_def)

lemma str_from_Some [simp]: "str_from s i = Some t \<longleftrightarrow> is_char_boundary s i \<and> t = drop i s"
  by (auto simp: str_from_def)

lemma str_range_Some [simp]:
  "str_range s a b = Some t \<longleftrightarrow>
     a \<le> b \<and> is_char_boundary s a \<and> is_char_boundary s b \<and> t = drop a (take b s)"
  by (auto simp: str_range_def)

lemma str_from_boundary [simp]: "is_char_boundary s i \<Longrightarrow> str_from s i = Some (drop i s)"
  by simp

lemma str_range_boundary [simp]:
  "a \<le> b \<Longrightarrow> is_char_boundary s a \<Longrightarrow> is_char_boundary s b \<Longrightarrow>
     str_range s a b = Some (drop a (take b s))"
  by simp

lemma replace_range_Ret [simp]:
  "replace_range s a b new = Ret t \<longleftrightarrow>
     a \<le> b \<and> is_char_boundary s a \<and> is_char_boundary s b \<and> t = take a s @ new @ drop b s"
  by (auto simp: replace_range_def)

lemma find_char_Some_iff:
  "find_char s cs = Some i \<longleftrightarrow>
     i < length s \<and> s ! i \<in> set cs \<and> (\<forall>j<i. s ! j \<notin> set cs)"
  by (auto simp: find_char_def find_where_Some_iff hd_drop_conv_nth)

text \<open>What a successful integer scan has found, in one rule.\<close>

lemma find_integerE:
  assumes "find_integer input key = Some (n, a, b)"
  obtains i where "find_str input key = Some i" and "a = i + length key" and "a \<le> b"
    and "b < length input" and "is_char_boundary input a" and "is_char_boundary input b"
    and "input ! b \<in> {CHR '','', CHR ''}''}"
    and "\<forall>j. a \<le> j \<and> j < b \<longrightarrow> input ! j \<notin> {CHR '','', CHR ''}''}"
    and "parse_uint (drop a (take b input)) = Some n"
proof -
  from assms obtain i to where i: "find_str input key = Some i" and a: "a = i + length key"
    and b: "b = a + to" and bounds: "is_char_boundary input a" "is_char_boundary input b"
    and to: "find_char (drop a input) [CHR '','', CHR ''}''] = Some to"
    and n: "parse_uint (drop a (take b input)) = Some n"
    by (auto simp: find_integer_def Let_def Option.bind_eq_Some_conv)
  have "a \<le> length input" using bounds(1) by (rule is_char_boundary_le)
  have sep: "\<forall>j. a \<le> j \<and> j < b \<longrightarrow> input ! j \<notin> {CHR '','', CHR ''}''}"
  proof (intro allI impI)
    fix j assume j: "a \<le> j \<and> j < b"
    then have "j - a < to" using b by linarith
    with to [unfolded find_char_Some_iff]
    have "drop a input ! (j - a) \<notin> set [CHR '','', CHR ''}'']" by blast
    then show "input ! j \<notin> {CHR '','', CHR ''}''}" using j \<open>a \<le> length input\<close> by simp
  qed
  have "b < length input" "input ! b \<in> {CHR '','', CHR ''}''}"
    using to b \<open>a \<le> length input\<close> by (auto simp: find_char_Some_iff)
  with i a b bounds n sep show thesis by (intro that) simp_all
qed

lemma find_sequenceE:
  assumes "find_sequence input = Some (SequenceInfo n a b)"
  obtains "find_integer input ''\"s\":'' = Some (n, a, b)"
  using assms by (auto simp: find_sequence_def)

lemma find_integerI:
  assumes "find_str input key = Some i" and "a = i + length key" and "a \<le> b"
    and "b < length input" and "is_char_boundary input a" and "is_char_boundary input b"
    and "input ! b \<in> {CHR '','', CHR ''}''}"
    and "\<forall>j. a \<le> j \<and> j < b \<longrightarrow> input ! j \<notin> {CHR '','', CHR ''}''}"
    and "parse_uint (drop a (take b input)) = Some n"
  shows "find_integer input key = Some (n, a, b)"
proof -
  have "find_char (drop a input) [CHR '','', CHR ''}''] = Some (b - a)"
    using assms by (auto simp: find_char_Some_iff)
  with assms show ?thesis
    by (auto simp: find_integer_def Let_def Option.bind_eq_Some_conv)
qed

section \<open>Rewriting a number in place\<close>

text \<open>
  Replacing the bytes of a scanned number by another number gives a payload in which the scan
  finds the new number at the same place, and everything around it is untouched.
\<close>

lemma format_uint_bytes: "c \<in> set (format_uint w) \<Longrightarrow> 48 \<le> byte c \<and> byte c \<le> 57"
  by (simp add: format_uint_def digits_bytes)

lemma format_uint_nonempty [simp]: "format_uint w \<noteq> []"
  by (simp add: format_uint_def)

lemma byte_sep: "byte (CHR '','') = 44" "byte (CHR ''}'') = 125"
  by (simp_all add: byte_def)

lemma find_integer_replace:
  fixes w :: "'n::len word"
  assumes found: "find_integer input key = Some (n :: 'n word, a, b)" and "key \<noteq> []"
    and t: "t = take a input @ format_uint w @ drop b input"
  shows "find_integer t key = Some (w, a, a + length (format_uint w))"
proof -
  let ?new = "format_uint w" and ?b = "a + length (format_uint w)"
  from found obtain i where i: "find_str input key = Some i" "a = i + length key"
    and ab: "a \<le> b" "b < length input" and bounds: "is_char_boundary input b"
    and sep: "input ! b \<in> {CHR '','', CHR ''}''}" by (rule find_integerE)
  have at_a: "t ! j = ?new ! (j - a)" if "a \<le> j" "j < ?b" for j
    using that t ab by (auto simp: nth_append)
  have new_byte: "48 \<le> byte (t ! j) \<and> byte (t ! j) \<le> 57" if "a \<le> j" "j < ?b" for j
    using that at_a [OF that] format_uint_bytes [of "?new ! (j - a)" w] by simp
  have at_b: "t ! ?b = input ! b" "?b < length t" using t ab by (auto simp: nth_append)
  have "take (i + length key) t = take (i + length key) input" using t i ab by simp
  then have "find_str t key = Some i" using i(1) \<open>key \<noteq> []\<close> by (rule find_str_same_prefix [rotated 2])
  moreover have "is_char_boundary t a"
    using new_byte [of a] at_b by (auto simp: is_char_boundary_def is_cont_def)
  moreover have "is_char_boundary t ?b"
    using bounds ab at_b by (auto simp: is_char_boundary_def)
  moreover have "\<forall>j. a \<le> j \<and> j < ?b \<longrightarrow> t ! j \<notin> {CHR '','', CHR ''}''}"
    using new_byte by (fastforce simp: byte_sep)
  moreover have "drop a (take ?b t) = ?new" using t ab by simp
  ultimately show ?thesis
    using i(2) sep at_b by (intro find_integerI) simp_all
qed

text \<open>The scan asks for the number right behind the colon: a blank there makes it fail.\<close>

lemma find_integer_ws:
  assumes "find_str input key = Some i" and "input ! (i + length key) = CHR '' ''"
  shows "find_integer input key = (None :: ('n::len word \<times> nat \<times> nat) option)"
proof (rule ccontr)
  assume "find_integer input key \<noteq> (None :: ('n word \<times> nat \<times> nat) option)"
  then obtain n a b where f: "find_integer input key = Some (n :: 'n word, a, b)" by auto
  then have *: "a = i + length key" "a \<le> b" "b < length input"
    "input ! b \<in> {CHR '','', CHR ''}''}" "parse_uint (drop a (take b input)) = Some n"
    using assms(1) by (auto elim: find_integerE)
  then have "a < b" using assms(2) by (cases "a = b") auto
  then have "CHR '' '' \<in> set (drop a (take b input))"
    using * assms(2) by (auto simp: in_set_conv_nth intro!: exI [of _ 0])
  with *(5) show False by (auto dest: parse_uint_bytes simp: byte_def)
qed

section \<open>Ids\<close>

text \<open>
  Routing ids are the first textual occurrence of the key behind the first \<open>"d":\<close>. For a quoted
  id that is the whole story.
\<close>

lemma digit_not_ws: "48 \<le> byte c \<Longrightarrow> byte c \<le> 57 \<Longrightarrow> ws_len (c # cs) = 0"
  by (simp add: ascii_ws_def)

text \<open>\<open>mid\<close> is what stands between the key and the colon; nothing checks that it is blank.\<close>

lemma find_data_field_quoted:
  assumes d: "find_str input ''\"d\":'' = Some i"
    and key: "find_str (drop i input) (''\"'' @ field @ ''\"'') = Some j"
    and rest: "drop (j + length field + 2) (drop i input) = mid @ '':\"'' @ format_uint w @ ''\"'' @ tail"
    and mid: "\<forall>c\<in>set mid. byte c < 128 \<and> c \<noteq> CHR '':''"
  shows "find_data_field_u64 input field = Some w"
proof -
  let ?new = "format_uint w" and ?slice = "drop i input"
  let ?val = "''\"'' @ ?new @ ''\"'' @ tail"
  let ?after = "mid @ '':'' @ ?val"
  have quote: "CHR ''\"'' \<notin> set ?new" by (auto dest: format_uint_bytes simp: byte_def)
  have ascii: "\<not> is_cont (hd (mid @ [CHR '':'']))"
    using mid by (cases mid) (auto simp: is_cont_def byte_def)
  have ne: "drop (j + length field + 2) ?slice \<noteq> []" using rest by auto
  then have len: "j + length field + 2 < length ?slice" by simp
  then have "?slice ! (j + length field + 2) = hd (mid @ [CHR '':''])"
    using rest by (cases mid) (auto simp: hd_drop_conv_nth [symmetric] simp del: drop_drop)
  with len ascii have b2: "is_char_boundary ?slice (j + length field + 2)"
    by (simp add: is_char_boundary_def)
  have di: "input ! i = CHR ''\"''" "i < length input"
    using d by (auto simp: find_str_def find_where_Some_iff starts_with_def
        simp flip: hd_drop_conv_nth dest: arg_cong [of _ _ hd])
  then have b1: "is_char_boundary input i"
    by (simp add: is_char_boundary_def is_cont_def byte_def)
  have colon: "find_char ?after [CHR '':''] = Some (length mid)"
    using mid by (auto simp: find_char_Some_iff nth_append)
  have nows: "first_non_ws ?val = Some 0"
    by (subst first_non_ws.simps) (simp add: ascii_ws_def byte_def)
  have close: "find_char (?new @ ''\"'' @ tail) [CHR ''\"''] = Some (length ?new)"
    using quote by (auto simp: find_char_Some_iff nth_append in_set_conv_nth)
  have bb: "is_char_boundary ?val (Suc 0)" "is_char_boundary ?val (Suc (length ?new))"
    using format_uint_bytes [of "hd ?new" w]
    by (cases ?new; auto simp: is_char_boundary_def is_cont_def nth_append byte_def)+
  have b3: "is_char_boundary ?after (Suc (length mid))" "is_char_boundary ?val 0"
    by (simp_all add: is_char_boundary_def is_cont_def byte_def nth_append)
  show ?thesis
    using d key rest b1 b2 b3 colon nows close bb
    by (simp add: find_data_field_u64_def Let_def add.commute add.left_commute)
qed

end
