(* ===== verification/Proxy_State.thy ===== *)
theory Proxy_State
  imports Auth_Model Guild_Cache Deserializer
begin

text \<open>
  The data of \<open>src/state.rs\<close>: shards, sessions, voice owners and the global record \<open>Inner\<close>, with the
  broadcast messages of \<open>src/dispatch.rs\<close> these types mention. The operations on the record are in \<open>Sessions\<close>, \<open>Voice_Lock\<close> and
  \<open>Client_Activity\<close>; here are the lookups they share.
\<close>

section \<open>Messages\<close>

datatype audience = AudGuild | AudBotOnly | AudClient string

record broadcast_message =
  bm_payload :: string
  bm_sequence :: "sequence_info option"
  bm_guild_id :: "u64 option"
  bm_audience :: audience

record buffered_client_event =
  be_payload :: string
  be_sequence :: "sequence_info option"
  be_guild_id :: "u64 option"

section \<open>Shards, sessions, owners\<close>

text \<open>
  The READY state of a shard is the value of its \<open>watch\<close> channel. \<open>sh_events\<close> is what the shard
  has broadcast so far, oldest first; a subscriber sees what comes after it subscribed.
\<close>

record shard =
  sh_id :: u32
  sh_events :: "broadcast_message list"
  sh_ready :: "json_object option"
  sh_guilds :: guild_cache

record session =
  ss_shard_id :: u32
  ss_compress :: "bool option"
  ss_principal :: session_principal
  ss_authorized_guilds :: "u64 set option"
  ss_last_accessed :: instant

record voice_owner =
  vo_client_id :: string
  vo_disconnected_at :: "instant option"
  vo_wants_voice :: bool

text \<open>
  \<open>Inner\<close>. Every map is behind its own lock in the source. \<open>upstream\<close> is the log of the commands
  handed to the shards' \<open>MessageSender\<close>s, with the id of the shard.
\<close>

record inner =
  shards :: "shard list"
  shard_count :: u32
  sessions :: "(string, session) hmap"
  active_client_connections :: "(string, nat) hmap"
  offline_event_buffers :: "(string, buffered_client_event list) hmap"
  last_wake_attempts :: "(string, instant) hmap"
  client_command_windows :: "(string, instant \<times> u32) hmap"
  voice_owners :: "(u64, voice_owner) hmap"
  bot_user_id_cell :: u64
  upstream :: "(u32 \<times> string) list"

definition SESSION_TTL :: duration where "SESSION_TTL = secs (30 * 60)"
definition OFFLINE_EVENT_BUFFER_LIMIT :: nat where "OFFLINE_EVENT_BUFFER_LIMIT = 200"
definition VOICE_OWNER_GRACE :: duration where "VOICE_OWNER_GRACE = secs 60"

text \<open>\<open>Ready::is_ready\<close>, \<open>set_ready\<close> and \<open>set_not_ready\<close>.\<close>

definition is_ready :: "shard \<Rightarrow> bool" where "is_ready sh \<longleftrightarrow> sh_ready sh \<noteq> None"

definition set_ready :: "json_object \<Rightarrow> shard \<Rightarrow> shard" where
  "set_ready payload sh = sh\<lparr>sh_ready := Some payload\<rparr>"

definition set_not_ready :: "shard \<Rightarrow> shard" where "set_not_ready sh = sh\<lparr>sh_ready := None\<rparr>"

section \<open>Lookups\<close>

definition bot_user_id :: "inner \<Rightarrow> u64 option" where
  "bot_user_id st = (if bot_user_id_cell st = 0 then None else Some (bot_user_id_cell st))"

text \<open>The remainder by \<open>shard_count\<close> panics when that is 0.\<close>

definition shard_id_for_guild :: "inner \<Rightarrow> u64 \<Rightarrow> u32 outcome" where
  "shard_id_for_guild st guild =
     (if shard_count st = 0 then Panic
      else Ret (ucast (drop_bit 22 guild mod ucast (shard_count st))))"

definition shard_for_guild :: "inner \<Rightarrow> u64 \<Rightarrow> shard option outcome" where
  "shard_for_guild st guild =
     omap (\<lambda>shard_id. List.find (\<lambda>sh. sh_id sh = shard_id) (shards st)) (shard_id_for_guild st guild)"

definition resolve_guild_id_for_channel :: "inner \<Rightarrow> u64 \<Rightarrow> u64 option" where
  "resolve_guild_id_for_channel st channel =
     find_map (\<lambda>sh. cache_resolve_guild_id_for_channel (sh_guilds sh) channel) (shards st)"

definition send_upstream :: "u32 \<Rightarrow> string \<Rightarrow> inner \<Rightarrow> inner" where
  "send_upstream shard_id command st = st\<lparr>upstream := upstream st @ [(shard_id, command)]\<rparr>"

definition voice_leave_command :: "u64 \<Rightarrow> string" where
  "voice_leave_command guild =
     ''{\"op\":4,\"d\":{\"guild_id\":\"'' @ format_uint guild @
     ''\",\"channel_id\":null,\"self_mute\":false,\"self_deaf\":false}}''"

definition send_voice_leave :: "u64 \<Rightarrow> inner \<Rightarrow> inner outcome" where
  "send_voice_leave guild st =
     omap (\<lambda>found. case found of
         None \<Rightarrow> st
       | Some sh \<Rightarrow> send_upstream (sh_id sh) (voice_leave_command guild) st)
       (shard_for_guild st guild)"

section \<open>Lemmas\<close>

lemma shard_id_for_guild_Ret [simp]:
  "shard_count st \<noteq> 0 \<Longrightarrow>
     shard_id_for_guild st g = Ret (ucast (drop_bit 22 g mod ucast (shard_count st)))"
  by (simp add: shard_id_for_guild_def)

text \<open>The 32-bit cast loses nothing: the remainder is below a 32-bit number.\<close>

lemma shard_id_value:
  assumes "shard_id_for_guild st g = Ret i"
  shows "unat i = (unat g div 2 ^ 22) mod unat (shard_count st)" and "i < shard_count st"
proof -
  have n: "shard_count st \<noteq> 0" using assms by (auto simp: shard_id_for_guild_def split: if_splits)
  let ?n = "unat (shard_count st)"
  let ?r = "drop_bit 22 g mod (ucast (shard_count st) :: u64)"
  have n0: "0 < ?n" using n by (simp add: unat_gt_0)
  have lt: "?n < 2 ^ LENGTH(32)" by (rule unsigned_less)
  then have wide: "unat (ucast (shard_count st) :: u64) = ?n"
    by (simp add: unsigned_ucast_eq take_bit_nat_eq_self)
  have "unat ?r = (unat g div 2 ^ 22) mod ?n"
    by (simp add: unat_mod unat_div drop_bit_eq_div wide)
  moreover have "(unat g div 2 ^ 22) mod ?n < ?n" using n0 by simp
  ultimately have r: "unat (ucast ?r :: u32) = (unat g div 2 ^ 22) mod ?n"
    using lt by (simp add: unsigned_ucast_eq take_bit_nat_eq_self)
  have i: "i = ucast ?r" using assms n by simp
  show "unat i = (unat g div 2 ^ 22) mod ?n" using r i by simp
  with n0 show "i < shard_count st" by (simp add: word_less_nat_alt)
qed

lemma send_upstream_simps [simp]:
  "upstream (send_upstream i c st) = upstream st @ [(i, c)]"
  "shards (send_upstream i c st) = shards st"
  "shard_count (send_upstream i c st) = shard_count st"
  "sessions (send_upstream i c st) = sessions st"
  "active_client_connections (send_upstream i c st) = active_client_connections st"
  "offline_event_buffers (send_upstream i c st) = offline_event_buffers st"
  "last_wake_attempts (send_upstream i c st) = last_wake_attempts st"
  "client_command_windows (send_upstream i c st) = client_command_windows st"
  "voice_owners (send_upstream i c st) = voice_owners st"
  "bot_user_id_cell (send_upstream i c st) = bot_user_id_cell st"
  by (simp_all add: send_upstream_def)

text \<open>Every map of the state has each key once.\<close>

definition wf_inner :: "inner \<Rightarrow> bool" where
  "wf_inner st \<longleftrightarrow> hm_wf (sessions st) \<and> hm_wf (active_client_connections st) \<and>
     hm_wf (offline_event_buffers st) \<and> hm_wf (last_wake_attempts st) \<and>
     hm_wf (client_command_windows st) \<and> hm_wf (voice_owners st)"

lemma wf_innerI [wf_intros]:
  "\<lbrakk>hm_wf (sessions st); hm_wf (active_client_connections st); hm_wf (offline_event_buffers st);
    hm_wf (last_wake_attempts st); hm_wf (client_command_windows st); hm_wf (voice_owners st)\<rbrakk>
   \<Longrightarrow> wf_inner st"
  by (simp add: wf_inner_def)

lemma wf_innerD:
  assumes "wf_inner st"
  shows "hm_wf (sessions st)" "hm_wf (active_client_connections st)"
    "hm_wf (offline_event_buffers st)" "hm_wf (last_wake_attempts st)"
    "hm_wf (client_command_windows st)" "hm_wf (voice_owners st)"
  using assms by (simp_all add: wf_inner_def)

lemma wf_send_upstream [simp, wf_intros]: "wf_inner st \<Longrightarrow> wf_inner (send_upstream i c st)"
  by (simp add: wf_inner_def)

end
