(* ===== verification/Client_Activity.thy ===== *)
theory Client_Activity
  imports Proxy_State
begin

text \<open>
  The per-client bookkeeping of \<open>src/state.rs\<close>: live connections, the buffer of events for
  disconnected clients, the wake cooldown, the command budget and the removal of unknown clients.
  Two contracts are locales: the bounded buffer and the fixed-window limiter.
\<close>

section \<open>Operations\<close>

definition connection_count :: "inner \<Rightarrow> string \<Rightarrow> nat" where
  "connection_count st client =
     (case hm_get (active_client_connections st) client of None \<Rightarrow> 0 | Some n \<Rightarrow> n)"

definition is_client_connected :: "inner \<Rightarrow> string \<Rightarrow> bool" where
  "is_client_connected st client \<longleftrightarrow> 0 < connection_count st client"

definition offline_events :: "inner \<Rightarrow> string \<Rightarrow> buffered_client_event list" where
  "offline_events st client =
     (case hm_get (offline_event_buffers st) client of None \<Rightarrow> [] | Some deque \<Rightarrow> deque)"

text \<open>\<open>pop_front\<close> when the deque is full, then \<open>push_back\<close>.\<close>

definition push_offline_event_for_client :: "string \<Rightarrow> buffered_client_event \<Rightarrow> inner \<Rightarrow> inner" where
  "push_offline_event_for_client client event st =
     (let entry = offline_events st client;
          entry' = (if OFFLINE_EVENT_BUFFER_LIMIT \<le> length entry then tl entry else entry)
      in st\<lparr>offline_event_buffers :=
             hm_insert client (entry' @ [event]) (offline_event_buffers st)\<rparr>)"

definition drain_offline_events_for_client ::
  "string \<Rightarrow> inner \<Rightarrow> buffered_client_event list \<times> inner" where
  "drain_offline_events_for_client client st =
     (offline_events st client,
      st\<lparr>offline_event_buffers := hm_remove client (offline_event_buffers st)\<rparr>)"

definition should_wake_client :: "instant \<Rightarrow> string \<Rightarrow> duration \<Rightarrow> inner \<Rightarrow> bool \<times> inner" where
  "should_wake_client now client cooldown st =
     (case hm_get (last_wake_attempts st) client of
        Some previous \<Rightarrow>
          if duration_since now previous < cooldown then (False, st)
          else (True, st\<lparr>last_wake_attempts := hm_insert client now (last_wake_attempts st)\<rparr>)
      | None \<Rightarrow> (True, st\<lparr>last_wake_attempts := hm_insert client now (last_wake_attempts st)\<rparr>))"

definition allow_client_command :: "instant \<Rightarrow> string \<Rightarrow> u32 \<Rightarrow> duration \<Rightarrow> inner \<Rightarrow> bool \<times> inner"
  where
  "allow_client_command now client limit window st =
     (let entry = (case hm_get (client_command_windows st) client of None \<Rightarrow> (now, 0) | Some e \<Rightarrow> e);
          entry = (if window \<le> duration_since now (fst entry) then (now, 0) else entry);
          put = (\<lambda>e. st\<lparr>client_command_windows := hm_insert client e (client_command_windows st)\<rparr>)
      in if limit \<le> snd entry then (False, put entry)
         else (True, put (fst entry, snd entry + 1)))"

definition prune_stale_client_state :: "string set \<Rightarrow> inner \<Rightarrow> inner" where
  "prune_stale_client_state valid st =
     st\<lparr>offline_event_buffers := hm_retain (\<lambda>c _. c \<in> valid) (offline_event_buffers st),
        last_wake_attempts := hm_retain (\<lambda>c _. c \<in> valid) (last_wake_attempts st),
        client_command_windows := hm_retain (\<lambda>c _. c \<in> valid) (client_command_windows st)\<rparr>"

section \<open>Well-formedness\<close>

lemma push_offline_wf [simp, wf_intros]:
  "wf_inner st \<Longrightarrow> wf_inner (push_offline_event_for_client c e st)"
  by (simp add: push_offline_event_for_client_def Let_def wf_inner_def)

lemma drain_offline_wf [simp, wf_intros]:
  "wf_inner st \<Longrightarrow> wf_inner (snd (drain_offline_events_for_client c st))"
  by (simp add: drain_offline_events_for_client_def wf_inner_def)

lemma should_wake_wf [simp, wf_intros]:
  "wf_inner st \<Longrightarrow> wf_inner (snd (should_wake_client now c d st))"
  by (auto simp: should_wake_client_def wf_inner_def split: option.splits)

lemma allow_command_wf [simp, wf_intros]:
  "wf_inner st \<Longrightarrow> wf_inner (snd (allow_client_command now c l w st))"
  by (auto simp: allow_client_command_def Let_def wf_inner_def)

lemma prune_stale_wf [simp, wf_intros]: "wf_inner st \<Longrightarrow> wf_inner (prune_stale_client_state valid st)"
  by (simp add: prune_stale_client_state_def wf_inner_def)

section \<open>The offline buffer is a bounded queue\<close>

locale bounded_buffer =
  fixes content :: "'s \<Rightarrow> 'e list"
    and push :: "'e \<Rightarrow> 's \<Rightarrow> 's"
    and drain :: "'s \<Rightarrow> 'e list \<times> 's"
    and limit :: nat
  assumes limit_pos: "0 < limit"
    and content_push: "content (push e st) =
      (if limit \<le> length (content st) then tl (content st) else content st) @ [e]"
    and drain_result: "fst (drain st) = content st"
    and drain_empties: "content (snd (drain st)) = []"
begin

lemma push_bounded: "length (content st) \<le> limit \<Longrightarrow> length (content (push e st)) \<le> limit"
  using limit_pos by (auto simp: content_push)

lemma fold_push_bounded:
  "length (content st) \<le> limit \<Longrightarrow> length (content (fold push es st)) \<le> limit"
  by (induction es arbitrary: st) (auto simp: push_bounded)

text \<open>The content is always the most recent events, in order.\<close>

lemma push_suffix:
  assumes "content st = drop (length xs - limit) xs"
  shows "content (push e st) = drop (length (xs @ [e]) - limit) (xs @ [e])"
proof (cases "limit \<le> length (content st)")
  case True
  then have "limit \<le> length xs" using assms by auto
  then have "tl (drop (length xs - limit) xs) = drop (Suc (length xs) - limit) xs"
    using Suc_diff_le by (metis drop_Suc tl_drop)
  with True assms \<open>limit \<le> length xs\<close> show ?thesis
    using limit_pos by (simp add: content_push)
next
  case False
  then have "length xs < limit" using assms by (auto simp: not_le)
  with False assms show ?thesis by (simp add: content_push)
qed

lemma fold_push_suffix:
  assumes "content st = drop (length xs - limit) xs"
  shows "content (fold push es st) = drop (length (xs @ es) - limit) (xs @ es)"
  using assms
proof (induction es arbitrary: st xs)
  case Nil
  then show ?case by simp
next
  case (Cons e es)
  have "content (push e st) = drop (length (xs @ [e]) - limit) (xs @ [e])"
    by (rule push_suffix [OF Cons.prems])
  from Cons.IH [OF this] show ?case by simp
qed

lemma drain_after_pushes:
  assumes "content st = []"
  shows "fst (drain (fold push es st)) = drop (length es - limit) es"
  using fold_push_suffix [of st "[]" es] assms by (simp add: drain_result)

end

lemma offline_events_push [simp]:
  "offline_events (push_offline_event_for_client c e st) c' =
     (if c' = c
      then (if OFFLINE_EVENT_BUFFER_LIMIT \<le> length (offline_events st c)
            then tl (offline_events st c) else offline_events st c) @ [e]
      else offline_events st c')"
  by (simp add: push_offline_event_for_client_def Let_def offline_events_def)

lemma offline_events_drain [simp]:
  "offline_events (snd (drain_offline_events_for_client c st)) c' =
     (if c' = c then [] else offline_events st c')"
  by (simp add: drain_offline_events_for_client_def offline_events_def)

interpretation buf: bounded_buffer "\<lambda>st. offline_events st c" "push_offline_event_for_client c"
  "drain_offline_events_for_client c" OFFLINE_EVENT_BUFFER_LIMIT for c
proof (unfold_locales, goal_cases)
  case 1 show ?case by (simp add: OFFLINE_EVENT_BUFFER_LIMIT_def)
next
  case 2 show ?case by simp
next
  case 3 show ?case by (simp add: drain_offline_events_for_client_def)
next
  case 4 show ?case by simp
qed

section \<open>The command budget is a fixed window\<close>

text \<open>How many of a sequence of calls, given by their times, are allowed.\<close>

fun granted :: "(instant \<Rightarrow> 's \<Rightarrow> bool \<times> 's) \<Rightarrow> instant list \<Rightarrow> 's \<Rightarrow> nat" where
  "granted allow [] st = 0"
| "granted allow (t # ts) st =
     (if fst (allow t st) then 1 else 0) + granted allow ts (snd (allow t st))"

definition after_calls :: "(instant \<Rightarrow> 's \<Rightarrow> bool \<times> 's) \<Rightarrow> instant list \<Rightarrow> 's \<Rightarrow> 's" where
  "after_calls allow ts st = fold (\<lambda>t. snd \<circ> allow t) ts st"

lemma granted_append:
  "granted allow (us @ vs) st = granted allow us st + granted allow vs (after_calls allow us st)"
  by (induction us arbitrary: st) (auto simp: after_calls_def)

locale window_limiter =
  fixes allow :: "instant \<Rightarrow> 's \<Rightarrow> bool \<times> 's"
    and entry :: "'s \<Rightarrow> (instant \<times> nat) option"
    and limit :: nat
    and window :: duration
  assumes window_pos: "0 < window"
    and allow_open: "\<lbrakk>entry st = Some (start, n); now - start < window\<rbrakk> \<Longrightarrow>
      fst (allow now st) = (n < limit) \<and>
      entry (snd (allow now st)) = Some (start, if n < limit then Suc n else n)"
    and allow_reset: "(\<forall>start n. entry st = Some (start, n) \<longrightarrow> window \<le> now - start) \<Longrightarrow>
      fst (allow now st) = (0 < limit) \<and>
      entry (snd (allow now st)) = Some (now, if 0 < limit then 1 else 0)"
begin

text \<open>Within one window the budget is exactly what is left of it.\<close>

lemma granted_open:
  assumes "entry st = Some (start, n)" and "n \<le> limit"
    and "\<forall>t\<in>set ts. start \<le> t \<and> t < start + window"
  shows "granted allow ts st = min (limit - n) (length ts)"
  using assms
proof (induction ts arbitrary: st n)
  case Nil
  then show ?case by simp
next
  case (Cons t ts)
  then have "t - start < window" by auto
  note step = allow_open [OF Cons.prems(1) this]
  let ?n = "if n < limit then Suc n else n"
  have "granted allow ts (snd (allow t st)) = min (limit - ?n) (length ts)"
    using step Cons.prems by (intro Cons.IH) auto
  with step show ?case using Cons.prems(2) by auto
qed

lemma entry_open:
  assumes "entry st = Some (start, n)" and "n \<le> limit"
    and "\<forall>t\<in>set ts. start \<le> t \<and> t < start + window"
  shows "\<exists>m\<le>limit. entry (after_calls allow ts st) = Some (start, m)"
  using assms
proof (induction ts arbitrary: st n)
  case Nil
  then show ?case by (simp add: after_calls_def)
next
  case (Cons t ts)
  then have "t - start < window" by auto
  note step = allow_open [OF Cons.prems(1) this]
  have "\<exists>m\<le>limit. entry (after_calls allow ts (snd (allow t st))) = Some (start, m)"
    using step Cons.prems by (intro Cons.IH [of _ "if n < limit then Suc n else n"]) auto
  then show ?case by (simp add: after_calls_def)
qed

text \<open>A call outside the window of the entry starts a fresh one.\<close>

lemma granted_reset:
  assumes "\<forall>start n. entry st = Some (start, n) \<longrightarrow> window \<le> t - start"
    and "\<forall>u\<in>set ts. t \<le> u \<and> u < t + window"
  shows "granted allow (t # ts) st = min limit (Suc (length ts))"
proof -
  note step = allow_reset [OF assms(1)]
  then have "granted allow ts (snd (allow t st)) = min (limit - (if 0 < limit then 1 else 0)) (length ts)"
    using assms(2) by (intro granted_open) auto
  with step show ?thesis by auto
qed

text \<open>
  Over any stretch of time no longer than the window at most one reset happens, so at most twice
  the limit passes.
\<close>

lemma granted_stretch:
  assumes sorted: "sorted ts" and stretch: "\<forall>t\<in>set ts. t0 \<le> t \<and> t < t0 + window"
    and old: "entry st = Some (start, n)" "n \<le> limit" "start \<le> t0"
  shows "granted allow ts st \<le> 2 * limit"
proof -
  let ?us = "takeWhile (\<lambda>u. u < start + window) ts"
    and ?vs = "dropWhile (\<lambda>u. u < start + window) ts"
  have us: "\<forall>u\<in>set ?us. start \<le> u \<and> u < start + window"
    using stretch old(3) by (fastforce dest: set_takeWhileD)
  then have first: "granted allow ?us st \<le> limit"
    using granted_open [OF old(1,2)] by simp
  obtain m where m: "m \<le> limit" "entry (after_calls allow ?us st) = Some (start, m)"
    using entry_open [OF old(1,2) us] by blast
  have second: "granted allow ?vs (after_calls allow ?us st) \<le> limit"
  proof (cases ?vs)
    case Nil
    show ?thesis unfolding Nil by simp
  next
    case (Cons v vs)
    then have v: "start + window \<le> v" by (metis hd_dropWhile list.discI list.sel(1) not_less)
    have srt: "sorted (v # vs)" using sorted Cons by (metis sorted_dropWhile)
    have sub: "set (v # vs) \<subseteq> set ts" using Cons by (metis set_dropWhileD subsetI)
    have vs: "\<forall>u\<in>set vs. v \<le> u \<and> u < v + window"
    proof
      fix u assume u: "u \<in> set vs"
      have "u < t0 + window" "t0 \<le> v" using stretch sub u by (simp_all add: subset_iff)
      moreover have "v \<le> u" using srt u by simp
      ultimately show "v \<le> u \<and> u < v + window" by linarith
    qed
    have "granted allow (v # vs) (after_calls allow ?us st) = min limit (Suc (length vs))"
      using v m(2) by (intro granted_reset [OF _ vs]) auto
    then show ?thesis unfolding Cons by simp
  qed
  have "granted allow ts st = granted allow ?us st + granted allow ?vs (after_calls allow ?us st)"
    using granted_append [of allow ?us ?vs st] by simp
  with first second show ?thesis by linarith
qed

end

text \<open>The window entry of a client, with its counter read as a number.\<close>

definition window_entry :: "inner \<Rightarrow> string \<Rightarrow> (instant \<times> nat) option" where
  "window_entry st client =
     map_option (\<lambda>(start, n). (start, unat n)) (hm_get (client_command_windows st) client)"

lemma window_entry_None: "window_entry st c = None \<longleftrightarrow> hm_get (client_command_windows st) c = None"
  by (simp add: window_entry_def)

lemma window_entry_Some:
  "window_entry st c = Some (s, n) \<longleftrightarrow>
     (\<exists>w. hm_get (client_command_windows st) c = Some (s, w) \<and> n = unat w)"
  by (auto simp: window_entry_def)

definition CLIENT_COMMAND_LIMIT :: u32 where "CLIENT_COMMAND_LIMIT = 20"
definition CLIENT_COMMAND_WINDOW :: duration where "CLIENT_COMMAND_WINDOW = secs 60"

interpretation lim: window_limiter
  "\<lambda>now. allow_client_command now c CLIENT_COMMAND_LIMIT CLIENT_COMMAND_WINDOW"
  "\<lambda>st. window_entry st c" 20 CLIENT_COMMAND_WINDOW for c
proof (unfold_locales, goal_cases)
  case 1 show ?case by (simp add: CLIENT_COMMAND_WINDOW_def secs_def)
next
  case (2 st start n now)
  then obtain w where w: "hm_get (client_command_windows st) c = Some (start, w)" "n = unat w"
    by (auto simp: window_entry_Some)
  have "CLIENT_COMMAND_LIMIT \<le> w \<longleftrightarrow> \<not> n < 20"
    using w(2) by (simp add: CLIENT_COMMAND_LIMIT_def word_le_nat_alt not_less)
  moreover have "n < 20 \<Longrightarrow> unat (w + 1) = Suc n"
    using w(2) unat_plus_one [of w 20] by (simp add: word_less_nat_alt)
  ultimately show ?case using w 2(2)
    by (auto simp: allow_client_command_def Let_def duration_since_def window_entry_def not_le)
next
  case (3 st now)
  then show ?case
    by (cases "hm_get (client_command_windows st) c")
      (auto simp: allow_client_command_def Let_def duration_since_def window_entry_def
        CLIENT_COMMAND_LIMIT_def CLIENT_COMMAND_WINDOW_def secs_def)
qed

text \<open>The counter stays within the limit, so its increment never wraps.\<close>

lemma allow_command_counter:
  assumes "window_entry st c = None \<or> (\<exists>s n. window_entry st c = Some (s, n) \<and> n \<le> unat limit)"
  shows "\<exists>s n. window_entry (snd (allow_client_command now c limit window st)) c = Some (s, n)
    \<and> n \<le> unat limit"
proof -
  have bump: "w < limit \<Longrightarrow> unat (w + 1) \<le> unat limit" for w :: u32
    using unat_plus_one [of w limit] by (simp add: word_less_nat_alt)
  show ?thesis
    using assms bump
    by (auto simp: allow_client_command_def Let_def window_entry_def not_le word_le_nat_alt
        word_less_nat_alt split: option.splits if_splits)
qed

section \<open>Wake cooldown and pruning\<close>

lemma should_wake_cooldown:
  assumes "fst (should_wake_client t c cooldown st)"
    and "t \<le> t'" and "t' < t + cooldown"
  shows "\<not> fst (should_wake_client t' c cooldown (snd (should_wake_client t c cooldown st)))"
  using assms
  by (auto simp: should_wake_client_def duration_since_def split: option.splits if_splits)

lemma prune_stale_get:
  assumes "wf_inner st"
  shows "offline_events (prune_stale_client_state valid st) c =
      (if c \<in> valid then offline_events st c else [])"
    and "hm_get (last_wake_attempts (prune_stale_client_state valid st)) c =
      (if c \<in> valid then hm_get (last_wake_attempts st) c else None)"
    and "window_entry (prune_stale_client_state valid st) c =
      (if c \<in> valid then window_entry st c else None)"
  using wf_innerD [OF assms]
  by (auto simp: prune_stale_client_state_def offline_events_def window_entry_def hm.get_retain
      split: option.splits)

end
