(* ===== verification/Voice_Lock.thy ===== *)
theory Voice_Lock
  imports Client_Activity
begin

text \<open>
  The voice owner lock of \<open>src/state.rs\<close>: at most one multi-tenant client holds the bot's voice
  connection of a guild. Connecting and disconnecting a client are here too, because they start
  and stop the owner's grace period.
\<close>

section \<open>Operations\<close>

datatype voice_decision = Allow | Deny

definition decide_voice_command :: "voice_owner option \<Rightarrow> string \<Rightarrow> bool \<Rightarrow> voice_decision" where
  "decide_voice_command owner client bot_in_voice =
     (case owner of
        None \<Rightarrow> Allow
      | Some ow \<Rightarrow>
          if vo_client_id ow = client then Allow
          else if \<not> vo_wants_voice ow \<and> \<not> bot_in_voice then Allow
          else Deny)"

definition set_voice_owner_disconnected :: "string \<Rightarrow> instant option \<Rightarrow> inner \<Rightarrow> inner" where
  "set_voice_owner_disconnected client at st =
     st\<lparr>voice_owners := hm_map_values
         (\<lambda>_ ow. if vo_client_id ow = client then ow\<lparr>vo_disconnected_at := at\<rparr> else ow)
         (voice_owners st)\<rparr>"

text \<open>
  \<open>mark_client_connected\<close> and \<open>mark_client_disconnected\<close> release the connection counters before
  they touch the owners: each half is a critical section of its own.
\<close>

definition count_connection :: "string \<Rightarrow> inner \<Rightarrow> inner" where
  "count_connection client st =
     st\<lparr>active_client_connections :=
         hm_insert client (connection_count st client + 1) (active_client_connections st)\<rparr>"

definition uncount_connection :: "string \<Rightarrow> inner \<Rightarrow> bool \<times> inner" where
  "uncount_connection client st =
     (let current = connection_count st client in
      if current \<le> 1
      then (True, st\<lparr>active_client_connections := hm_remove client (active_client_connections st)\<rparr>)
      else (False, st\<lparr>active_client_connections :=
          hm_insert client (current - 1) (active_client_connections st)\<rparr>))"

definition mark_client_connected :: "string \<Rightarrow> inner \<Rightarrow> inner" where
  "mark_client_connected client st =
     set_voice_owner_disconnected client None (count_connection client st)"

definition mark_client_disconnected :: "instant \<Rightarrow> string \<Rightarrow> inner \<Rightarrow> inner" where
  "mark_client_disconnected now client st =
     (case uncount_connection client st of
        (True, st') \<Rightarrow> set_voice_owner_disconnected client (Some now) st'
      | (False, st') \<Rightarrow> st')"

definition voice_owner :: "inner \<Rightarrow> u64 \<Rightarrow> string option" where
  "voice_owner st guild = map_option vo_client_id (hm_get (voice_owners st) guild)"

text \<open>Both lookups are made before either is tested, so the shard lookup may panic.\<close>

definition bot_in_voice :: "config \<Rightarrow> inner \<Rightarrow> u64 \<Rightarrow> bool outcome" where
  "bot_in_voice cfg st guild =
     omap (\<lambda>found. case (bot_user_id st, found) of
         (Some user, Some sh) \<Rightarrow>
           \<not> cc_voice_states (cfg_cache cfg) \<or> has_voice_state (sh_guilds sh) guild user
       | _ \<Rightarrow> True)
       (shard_for_guild st guild)"

definition claim_voice ::
  "config \<Rightarrow> u64 \<Rightarrow> string \<Rightarrow> bool \<Rightarrow> inner \<Rightarrow> (voice_decision \<times> inner) outcome" where
  "claim_voice cfg guild client joining st =
     omap (\<lambda>in_voice.
       let decision = decide_voice_command (hm_get (voice_owners st) guild) client in_voice in
       if decision = Allow
       then (decision,
         if joining
         then st\<lparr>voice_owners := hm_insert guild
                  \<lparr>vo_client_id = client, vo_disconnected_at = None, vo_wants_voice = True\<rparr>
                  (voice_owners st)\<rparr>
         else (case hm_get (voice_owners st) guild of
                 Some ow \<Rightarrow>
                   st\<lparr>voice_owners :=
                       hm_insert guild (ow\<lparr>vo_wants_voice := False\<rparr>) (voice_owners st)\<rparr>
               | None \<Rightarrow> st))
       else (decision, st))
       (bot_in_voice cfg st guild)"

text \<open>The shard of a guild is only computed for the client's own calls.\<close>

definition leaves_on_shard :: "inner \<Rightarrow> string \<Rightarrow> u32 \<Rightarrow> u64 \<Rightarrow> voice_owner \<Rightarrow> bool outcome" where
  "leaves_on_shard st client shard_id guild ow =
     (if vo_client_id ow = client \<and> vo_wants_voice ow
      then omap (\<lambda>i. i = shard_id) (shard_id_for_guild st guild)
      else Ret False)"

definition leave_voice_for_client :: "string \<Rightarrow> u32 \<Rightarrow> inner \<Rightarrow> (u64 list \<times> inner) outcome" where
  "leave_voice_for_client client shard_id st =
     omap (\<lambda>visited.
         (map fst (filter (\<lambda>(g, ow, leave). leave) visited),
          st\<lparr>voice_owners :=
              map (\<lambda>(g, ow, leave). (g, if leave then ow\<lparr>vo_wants_voice := False\<rparr> else ow)) visited\<rparr>))
       (traverse (\<lambda>(g, ow). omap (\<lambda>leave. (g, ow, leave)) (leaves_on_shard st client shard_id g ow))
         (voice_owners st))"

definition on_bot_voice_leave :: "u64 \<Rightarrow> inner \<Rightarrow> inner" where
  "on_bot_voice_leave guild st =
     (case hm_get (voice_owners st) guild of
        Some ow \<Rightarrow>
          if \<not> vo_wants_voice ow then st\<lparr>voice_owners := hm_remove guild (voice_owners st)\<rparr> else st
      | None \<Rightarrow> st)"

type_synonym authorized = "(string, u64 set) hmap"

definition owner_expired :: "instant \<Rightarrow> voice_owner \<Rightarrow> bool" where
  "owner_expired now ow \<longleftrightarrow>
     (case vo_disconnected_at ow of None \<Rightarrow> False | Some at \<Rightarrow> VOICE_OWNER_GRACE \<le> duration_since now at)"

definition owner_revoked :: "authorized \<Rightarrow> u64 \<Rightarrow> voice_owner \<Rightarrow> bool" where
  "owner_revoked authorized guild ow \<longleftrightarrow>
     \<not> (case hm_get authorized (vo_client_id ow) of None \<Rightarrow> False | Some guilds \<Rightarrow> guild \<in> guilds)"

text \<open>
  \<open>take_stale_voice_owners\<close> reads the bot's voice states under the read lock, then changes the
  owners under the write lock; other threads may run in between, so the halves are separate.
\<close>

definition voice_snapshot :: "config \<Rightarrow> inner \<Rightarrow> (u64, bool) hmap outcome" where
  "voice_snapshot cfg st =
     traverse (\<lambda>g. omap (\<lambda>b. (g, b)) (bot_in_voice cfg st g)) (hm_keys (voice_owners st))"

definition owner_stale :: "instant \<Rightarrow> authorized \<Rightarrow> u64 \<Rightarrow> voice_owner \<Rightarrow> bool" where
  "owner_stale now authorized guild ow \<longleftrightarrow>
     vo_wants_voice ow \<and> (owner_expired now ow \<or> owner_revoked authorized guild ow)"

definition sweep_voice_owners ::
  "instant \<Rightarrow> authorized \<Rightarrow> (u64, bool) hmap \<Rightarrow> inner \<Rightarrow> u64 list \<times> inner" where
  "sweep_voice_owners now authorized in_voice st =
     (let owners = hm_retain (\<lambda>g ow. vo_wants_voice ow \<or> hm_get in_voice g \<noteq> Some False) (voice_owners st)
      in (map fst (filter (\<lambda>(g, ow). owner_stale now authorized g ow) owners),
          st\<lparr>voice_owners := hm_map_values
              (\<lambda>g ow. if owner_stale now authorized g ow then ow\<lparr>vo_wants_voice := False\<rparr> else ow)
              owners\<rparr>))"

definition take_stale_voice_owners ::
  "config \<Rightarrow> instant \<Rightarrow> authorized \<Rightarrow> inner \<Rightarrow> (u64 list \<times> inner) outcome" where
  "take_stale_voice_owners cfg now authorized st =
     omap (\<lambda>in_voice. sweep_voice_owners now authorized in_voice st) (voice_snapshot cfg st)"

section \<open>One lemma per operation: what happens to the owner of a guild\<close>

lemma uncount_connection_owners [simp]:
  "voice_owners (snd (uncount_connection c st)) = voice_owners st"
  by (simp add: uncount_connection_def Let_def)

lemma count_connection_owners [simp]: "voice_owners (count_connection c st) = voice_owners st"
  by (simp add: count_connection_def)

lemma set_disconnected_get [simp]:
  "hm_get (voice_owners (set_voice_owner_disconnected c at st)) g =
     map_option (\<lambda>ow. if vo_client_id ow = c then ow\<lparr>vo_disconnected_at := at\<rparr> else ow)
       (hm_get (voice_owners st) g)"
  by (simp add: set_voice_owner_disconnected_def)

lemma mark_connected_get:
  "hm_get (voice_owners (mark_client_connected c st)) g =
     map_option (\<lambda>ow. if vo_client_id ow = c then ow\<lparr>vo_disconnected_at := None\<rparr> else ow)
       (hm_get (voice_owners st) g)"
  by (simp add: mark_client_connected_def)

lemma mark_disconnected_get:
  "hm_get (voice_owners (mark_client_disconnected now c st)) g =
     map_option (\<lambda>ow. if vo_client_id ow = c \<and> connection_count st c \<le> 1
         then ow\<lparr>vo_disconnected_at := Some now\<rparr> else ow)
       (hm_get (voice_owners st) g)"
  by (auto simp: mark_client_disconnected_def uncount_connection_def Let_def
      set_voice_owner_disconnected_def option.map_ident split: option.splits cong: option.map_cong)

lemma on_bot_leave_get:
  "hm_get (voice_owners (on_bot_voice_leave g st)) g' =
     (if g' = g \<and> (\<exists>ow. hm_get (voice_owners st) g = Some ow \<and> \<not> vo_wants_voice ow)
      then None else hm_get (voice_owners st) g')"
  by (auto simp: on_bot_voice_leave_def split: option.splits)

lemma sweep_get:
  assumes "hm_wf (voice_owners st)"
  shows "hm_get (voice_owners (snd (sweep_voice_owners now auth iv st))) g =
     (case hm_get (voice_owners st) g of
        None \<Rightarrow> None
      | Some ow \<Rightarrow>
          if vo_wants_voice ow \<or> hm_get iv g \<noteq> Some False
          then Some (if owner_stale now auth g ow then ow\<lparr>vo_wants_voice := False\<rparr> else ow)
          else None)"
  using assms by (simp add: sweep_voice_owners_def Let_def hm.get_retain split: option.split)

lemma sweep_guilds:
  assumes "hm_wf (voice_owners st)"
  shows "g \<in> set (fst (sweep_voice_owners now auth iv st)) \<longleftrightarrow>
    (\<exists>ow. hm_get (voice_owners st) g = Some ow \<and> owner_stale now auth g ow)"
  using assms
  by (force simp: sweep_voice_owners_def Let_def hm_retain_def owner_stale_def hm_mem_iff)

text \<open>With shards there is no panic, and the loop over the owners is a plain update.\<close>

lemma shard_for_guild_total: "shard_count st \<noteq> 0 \<Longrightarrow> \<exists>found. shard_for_guild st g = Ret found"
  by (simp add: shard_for_guild_def)

lemma bot_in_voice_total: "shard_count st \<noteq> 0 \<Longrightarrow> \<exists>b. bot_in_voice cfg st g = Ret b"
  using shard_for_guild_total [of st g] by (auto simp: bot_in_voice_def)

definition leaves_now :: "inner \<Rightarrow> string \<Rightarrow> u32 \<Rightarrow> u64 \<Rightarrow> voice_owner \<Rightarrow> bool" where
  "leaves_now st client shard_id guild ow \<longleftrightarrow>
     vo_client_id ow = client \<and> vo_wants_voice ow \<and> shard_id_for_guild st guild = Ret shard_id"

lemma traverse_RetD:
  "traverse f xs = Ret ys \<Longrightarrow> ys = map (\<lambda>x. case f x of Ret y \<Rightarrow> y) xs \<and> (\<forall>x\<in>set xs. \<exists>y. f x = Ret y)"
  by (induction xs arbitrary: ys) auto

lemma leave_voice_Ret:
  assumes "leave_voice_for_client c sid st = Ret (gs, st')"
  shows "st' = st\<lparr>voice_owners := hm_map_values
      (\<lambda>g ow. if leaves_now st c sid g ow then ow\<lparr>vo_wants_voice := False\<rparr> else ow) (voice_owners st)\<rparr>"
    and "gs = map fst (filter (\<lambda>(g, ow). leaves_now st c sid g ow) (voice_owners st))"
proof -
  let ?f = "\<lambda>(g, ow). omap (\<lambda>leave. (g, ow, leave)) (leaves_on_shard st c sid g ow)"
  obtain vs where vs: "traverse ?f (voice_owners st) = Ret vs"
    and gs: "gs = map fst (filter (\<lambda>(g, ow, leave). leave) vs)"
    and st': "st' = st\<lparr>voice_owners :=
        map (\<lambda>(g, ow, leave). (g, if leave then ow\<lparr>vo_wants_voice := False\<rparr> else ow)) vs\<rparr>"
    using assms by (auto simp: leave_voice_for_client_def)
  have each: "(case ?f (g, ow) of Ret y \<Rightarrow> y) = (g, ow, leaves_now st c sid g ow)"
    if "(g, ow) \<in> set (voice_owners st)" for g ow
    using traverse_RetD [OF vs] that
    by (fastforce simp: leaves_on_shard_def leaves_now_def split: if_splits)
  have "vs = map (\<lambda>x. case ?f x of Ret y \<Rightarrow> y) (voice_owners st)"
    using traverse_RetD [OF vs] by blast
  also have "\<dots> = map (\<lambda>(g, ow). (g, ow, leaves_now st c sid g ow)) (voice_owners st)"
    using each by (auto intro!: map_cong)
  finally have vs': "vs = map (\<lambda>(g, ow). (g, ow, leaves_now st c sid g ow)) (voice_owners st)" .
  show "st' = st\<lparr>voice_owners := hm_map_values
      (\<lambda>g ow. if leaves_now st c sid g ow then ow\<lparr>vo_wants_voice := False\<rparr> else ow) (voice_owners st)\<rparr>"
    by (simp add: st' vs' hm_map_values_def comp_def case_prod_beta)
  show "gs = map fst (filter (\<lambda>(g, ow). leaves_now st c sid g ow) (voice_owners st))"
    by (simp add: gs vs' filter_map comp_def case_prod_unfold)
qed

lemma leave_voice_get:
  assumes "leave_voice_for_client c sid st = Ret (gs, st')"
  shows "hm_get (voice_owners st') g =
    map_option (\<lambda>ow. if leaves_now st c sid g ow then ow\<lparr>vo_wants_voice := False\<rparr> else ow)
      (hm_get (voice_owners st) g)"
  by (simp add: leave_voice_Ret(1) [OF assms])

lemma leave_voice_guilds:
  assumes "leave_voice_for_client c sid st = Ret (gs, st')" and "hm_wf (voice_owners st)"
  shows "g \<in> set gs \<longleftrightarrow> (\<exists>ow. hm_get (voice_owners st) g = Some ow \<and> leaves_now st c sid g ow)"
  using leave_voice_Ret(2) [OF assms(1)] assms(2) by (force simp: hm_mem_iff)

lemma leave_voice_total:
  assumes "shard_count st \<noteq> 0"
  shows "\<exists>gs st'. leave_voice_for_client c sid st = Ret (gs, st')"
proof -
  have "traverse (\<lambda>(g, ow). omap (\<lambda>leave. (g, ow, leave)) (leaves_on_shard st c sid g ow)) (voice_owners st)
    = Ret (map (\<lambda>(g, ow). (g, ow, leaves_now st c sid g ow)) (voice_owners st))"
    using assms by (intro traverse_Ret) (auto simp: leaves_on_shard_def leaves_now_def)
  then show ?thesis by (simp add: leave_voice_for_client_def)
qed

lemma claim_voice_cases:
  assumes "claim_voice cfg g c joining st = Ret (d, st')"
  obtains b where "bot_in_voice cfg st g = Ret b"
    and "d = decide_voice_command (hm_get (voice_owners st) g) c b"
    and "st' = (if d = Deny then st
       else if joining then st\<lparr>voice_owners := hm_insert g
                \<lparr>vo_client_id = c, vo_disconnected_at = None, vo_wants_voice = True\<rparr> (voice_owners st)\<rparr>
       else (case hm_get (voice_owners st) g of
                 Some ow \<Rightarrow> st\<lparr>voice_owners := hm_insert g (ow\<lparr>vo_wants_voice := False\<rparr>) (voice_owners st)\<rparr>
               | None \<Rightarrow> st))"
proof -
  from assms obtain b where b: "bot_in_voice cfg st g = Ret b"
    by (auto simp: claim_voice_def)
  show thesis
    by (rule that [OF b]; cases "decide_voice_command (hm_get (voice_owners st) g) c b")
      (use assms b in \<open>simp_all add: claim_voice_def Let_def split: if_splits option.splits\<close>)
qed

section \<open>Well-formedness\<close>

lemma set_disconnected_wf [simp, wf_intros]:
  "wf_inner st \<Longrightarrow> wf_inner (set_voice_owner_disconnected c at st)"
  by (simp add: set_voice_owner_disconnected_def wf_inner_def)

lemma mark_connected_wf [simp, wf_intros]: "wf_inner st \<Longrightarrow> wf_inner (mark_client_connected c st)"
  by (simp add: mark_client_connected_def count_connection_def wf_inner_def
      set_voice_owner_disconnected_def)

lemma mark_disconnected_wf [simp, wf_intros]:
  "wf_inner st \<Longrightarrow> wf_inner (mark_client_disconnected now c st)"
  by (simp add: mark_client_disconnected_def uncount_connection_def Let_def wf_inner_def
      set_voice_owner_disconnected_def)

lemma claim_voice_wf:
  "claim_voice cfg g c joining st = Ret (d, st') \<Longrightarrow> wf_inner st \<Longrightarrow> wf_inner st'"
  by (elim claim_voice_cases) (auto simp: wf_inner_def split: option.splits)

lemma leave_voice_wf:
  "leave_voice_for_client c sid st = Ret (gs, st') \<Longrightarrow> wf_inner st \<Longrightarrow> wf_inner st'"
  by (drule leave_voice_Ret(1)) (simp add: wf_inner_def)

lemma on_bot_leave_wf [simp, wf_intros]: "wf_inner st \<Longrightarrow> wf_inner (on_bot_voice_leave g st)"
  by (auto simp: on_bot_voice_leave_def wf_inner_def split: option.splits)

lemma sweep_wf [simp, wf_intros]: "wf_inner st \<Longrightarrow> wf_inner (snd (sweep_voice_owners now auth iv st))"
  by (simp add: sweep_voice_owners_def Let_def wf_inner_def)

end
