(* ===== verification/Wake_Model.thy ===== *)
theory Wake_Model
  imports Client_Activity
begin

text \<open>
  \<open>src/wake.rs\<close>: the request that wakes a client, the poll for scheduled wakes and the typing
  indicator that runs while a client is being woken. Sending the request is input and output and
  is represented by the \<open>effect\<close> it has.
\<close>

section \<open>Wake requests\<close>

definition TYPING_PULSE :: duration where "TYPING_PULSE = secs 7"
definition TYPING_MAX :: duration where "TYPING_MAX = secs 35"
definition TASK_WAKE_LEAD :: duration where "TASK_WAKE_LEAD = secs 30"
definition WAKE_COOLDOWN :: duration where "WAKE_COOLDOWN = secs 10"

text \<open>A spawned task: a wake request (client, URL, token) or a typing loop (client, channel).\<close>

datatype effect = WakeClient string string string | WakeTyping string u64

record http_request =
  hr_endpoint :: string
  hr_authorization :: string

definition wake_client :: "string \<Rightarrow> string \<Rightarrow> http_request" where
  "wake_client reachable_url token =
     \<lparr>hr_endpoint = trim_end_matches (CHR ''/'') reachable_url @ ''/kimaki/wake'',
      hr_authorization = ''Bearer '' @ token\<rparr>"

definition wake_token :: "string \<Rightarrow> client_config \<Rightarrow> string" where
  "wake_token client_id config = client_id @ '':'' @ cl_secret config"

definition should_show_wake_typing :: "string \<Rightarrow> bool" where
  "should_show_wake_typing event \<longleftrightarrow> event = ''MESSAGE_CREATE''"

section \<open>Scheduled wakes\<close>

definition due_at :: "instant \<Rightarrow> instant" where
  "due_at next_wake_at =
     (if TASK_WAKE_LEAD \<le> next_wake_at then next_wake_at - TASK_WAKE_LEAD else next_wake_at)"

text \<open>
  The closure of the \<open>filter_map\<close> in one poll: \<open>wall\<close> is the \<open>SystemTime\<close>, \<open>now\<close> the \<open>Instant\<close> of
  the cooldown.
\<close>

definition scheduled_wake ::
  "instant \<Rightarrow> instant \<Rightarrow> string \<Rightarrow> client_config \<Rightarrow> inner \<Rightarrow> effect option \<times> inner" where
  "scheduled_wake wall now client_id config st =
     (case cl_next_wake_at config of
        None \<Rightarrow> (None, st)
      | Some next_wake_at \<Rightarrow>
          if wall < due_at next_wake_at then (None, st)
          else if is_client_connected st client_id then (None, st)
          else
            (case should_wake_client now client_id (secs 10) st of
               (False, st') \<Rightarrow> (None, st')
             | (True, st') \<Rightarrow>
                 (map_option (\<lambda>url. WakeClient client_id url (wake_token client_id config))
                    (cl_reachable_url config), st')))"

text \<open>A \<open>filter_map\<close> over the clients whose closure changes the state.\<close>

fun collect_effects ::
  "(string \<Rightarrow> client_config \<Rightarrow> inner \<Rightarrow> effect option \<times> inner) \<Rightarrow> clients \<Rightarrow> inner \<Rightarrow> effect list \<times> inner"
  where
  "collect_effects f [] st = ([], st)"
| "collect_effects f ((client_id, config) # rest) st =
     (case f client_id config st of (e, st') \<Rightarrow>
      case collect_effects f rest st' of (es, st'') \<Rightarrow>
        (case e of None \<Rightarrow> es | Some x \<Rightarrow> x # es, st''))"

definition scheduled_wakes_tick :: "instant \<Rightarrow> instant \<Rightarrow> registry \<Rightarrow> inner \<Rightarrow> effect list \<times> inner" where
  "scheduled_wakes_tick wall now r st =
     (case rg_clients r of
        None \<Rightarrow> ([], st)
      | Some clients \<Rightarrow> collect_effects (scheduled_wake wall now) clients st)"

section \<open>The typing loop\<close>

text \<open>\<open>Id::new\<close> panics on 0; an error of the request is only logged.\<close>

definition pulse_typing :: "u64 \<Rightarrow> unit outcome" where
  "pulse_typing channel_id = (if channel_id = 0 then Panic else Ret ())"

text \<open>
  One round: stop when the client is connected or the time is up, else send a pulse and sleep.
  \<open>connected t\<close> is the answer of \<open>is_client_connected\<close> at time \<open>t\<close> after the start, \<open>took t\<close> the
  time the request sent at \<open>t\<close> takes (and by how much the sleep is late). The result is the times
  of the pulses.
\<close>

function wake_typing ::
  "(duration \<Rightarrow> bool) \<Rightarrow> (duration \<Rightarrow> duration) \<Rightarrow> u64 \<Rightarrow> duration \<Rightarrow> duration list outcome" where
  "wake_typing connected took channel_id elapsed =
     (if connected elapsed then Ret []
      else if TYPING_MAX \<le> elapsed then Ret []
      else obind (pulse_typing channel_id) (\<lambda>_.
        omap ((#) elapsed)
          (wake_typing connected took channel_id (elapsed + took elapsed + TYPING_PULSE))))"
  by pat_completeness auto
termination
  by (relation "measure (\<lambda>(connected, took, channel_id, elapsed). TYPING_MAX - elapsed)")
    (auto simp: TYPING_PULSE_def TYPING_MAX_def secs_def)

declare wake_typing.simps [simp del]

section \<open>Lemmas\<close>

lemma collect_effects_wf:
  assumes "\<And>c cfg st. wf_inner st \<Longrightarrow> wf_inner (snd (f c cfg st))" and "wf_inner st"
  shows "wf_inner (snd (collect_effects f clients st))"
  using assms(2)
proof (induction clients arbitrary: st)
  case Nil
  then show ?case by simp
next
  case (Cons kv clients)
  obtain c cfg where kv: "kv = (c, cfg)" by (cases kv)
  have "wf_inner (snd (f c cfg st))" by (rule assms(1) [OF Cons.prems])
  from Cons.IH [OF this] show ?case by (auto simp: kv split: prod.splits)
qed

text \<open>
  When the closure reads and writes only what belongs to its own client, the result for a client is
  that of the closure on the initial state.
\<close>

lemma collect_effects_mem:
  assumes own: "\<And>c cfg c' cfg' st. c' \<noteq> c \<Longrightarrow> fst (f c' cfg' (snd (f c cfg st))) = fst (f c' cfg' st)"
    and "hm_wf clients"
  shows "e \<in> set (fst (collect_effects f clients st)) \<longleftrightarrow>
    (\<exists>c cfg. hm_get clients c = Some cfg \<and> fst (f c cfg st) = Some e)"
  using assms(2)
proof (induction clients arbitrary: st)
  case Nil
  then show ?case by simp
next
  case (Cons kv clients)
  obtain c cfg where kv: "kv = (c, cfg)" by (cases kv)
  with Cons.prems have wf: "hm_wf clients" and "c \<notin> set (map fst clients)" by (auto simp: hm_wf_def)
  then have new: "hm_get clients c = None" by (simp add: hm_get_def map_of_eq_None_iff)
  have keep: "fst (f c' cfg' (snd (f c cfg st))) = fst (f c' cfg' st)"
    if "hm_get clients c' = Some cfg'" for c' cfg'
    using that new by (intro own) auto
  have get: "hm_get (kv # clients) c' = (if c' = c then Some cfg else hm_get clients c')" for c'
    by (simp add: kv hm_get_def)
  have "e \<in> set (fst (collect_effects f (kv # clients) st)) \<longleftrightarrow>
      fst (f c cfg st) = Some e \<or> e \<in> set (fst (collect_effects f clients (snd (f c cfg st))))"
    by (auto simp: kv split: prod.splits option.splits)
  also have "\<dots> \<longleftrightarrow> fst (f c cfg st) = Some e \<or>
      (\<exists>c' cfg'. hm_get clients c' = Some cfg' \<and> fst (f c' cfg' st) = Some e)"
    unfolding Cons.IH [OF wf] using keep by auto
  also have "\<dots> \<longleftrightarrow> (\<exists>c' cfg'. hm_get (kv # clients) c' = Some cfg' \<and> fst (f c' cfg' st) = Some e)"
    unfolding get using new by (metis option.distinct(1) option.inject)
  finally show ?case .
qed

text \<open>The same for a part \<open>V\<close> of the state that is kept per client; \<open>K\<close> is what the loop only reads.\<close>

lemma collect_effects_view:
  assumes reads: "\<And>c cfg st. K (snd (f c cfg st)) = K st"
    and writes: "\<And>c cfg st c'. V (snd (f c cfg st)) c' =
      (if c' = c then g c cfg (K st) (V st c) else V st c')"
    and "hm_wf clients"
  shows "V (snd (collect_effects f clients st)) c =
    (case hm_get clients c of None \<Rightarrow> V st c | Some cfg \<Rightarrow> g c cfg (K st) (V st c))"
  using assms(3)
proof (induction clients arbitrary: st)
  case Nil
  then show ?case by simp
next
  case (Cons kv clients)
  obtain d cfg where kv: "kv = (d, cfg)" by (cases kv)
  with Cons.prems have wf: "hm_wf clients" and "d \<notin> set (map fst clients)" by (auto simp: hm_wf_def)
  then have new: "hm_get clients d = None" by (simp add: hm_get_def map_of_eq_None_iff)
  have get: "hm_get (kv # clients) c' = (if c' = d then Some cfg else hm_get clients c')" for c'
    by (simp add: kv hm_get_def)
  have "snd (collect_effects f (kv # clients) st) = snd (collect_effects f clients (snd (f d cfg st)))"
    by (simp add: kv split: prod.split option.split)
  then show ?case
    using Cons.IH [OF wf, of "snd (f d cfg st)"] new
    by (auto simp: get writes reads split: option.splits)
qed

lemma collect_effects_same:
  assumes "\<And>c cfg st. K (snd (f c cfg st)) = K st"
  shows "K (snd (collect_effects f clients st)) = K st"
proof (induction clients arbitrary: st)
  case Nil
  then show ?case by simp
next
  case (Cons kv clients)
  obtain d cfg where kv: "kv = (d, cfg)" by (cases kv)
  have "snd (collect_effects f (kv # clients) st) = snd (collect_effects f clients (snd (f d cfg st)))"
    by (simp add: kv split: prod.split option.split)
  with Cons.IH [of "snd (f d cfg st)"] assms show ?case by simp
qed

lemma should_wake_connected [simp]:
  "is_client_connected (snd (should_wake_client now c d st)) = is_client_connected st"
  by (rule ext) (auto simp: should_wake_client_def is_client_connected_def connection_count_def
      split: option.splits)

lemma should_wake_other:
  "c' \<noteq> c \<Longrightarrow> fst (should_wake_client now c' d' (snd (should_wake_client now c d st))) =
     fst (should_wake_client now c' d' st)"
  by (auto simp: should_wake_client_def split: option.splits)

lemma scheduled_wake_wf: "wf_inner st \<Longrightarrow> wf_inner (snd (scheduled_wake wall now c cfg st))"
  using should_wake_wf [of st now c "secs 10"]
  by (cases "should_wake_client now c (secs 10) st")
    (auto simp: scheduled_wake_def split: option.splits bool.splits)

lemma scheduled_wake_fst:
  "fst (scheduled_wake wall now c cfg st) = Some e \<longleftrightarrow>
     (\<exists>t url. cl_next_wake_at cfg = Some t \<and> due_at t \<le> wall \<and> \<not> is_client_connected st c \<and>
        fst (should_wake_client now c (secs 10) st) \<and> cl_reachable_url cfg = Some url \<and>
        e = WakeClient c url (wake_token c cfg))"
  by (auto simp: scheduled_wake_def split: option.splits prod.splits bool.splits)

lemma scheduled_wake_snd:
  "snd (scheduled_wake wall now c cfg st) = st \<or>
   snd (scheduled_wake wall now c cfg st) = snd (should_wake_client now c (secs 10) st)"
  by (auto simp: scheduled_wake_def split: option.splits prod.splits bool.splits)

lemma scheduled_wake_own:
  assumes "c' \<noteq> c"
  shows "fst (scheduled_wake wall now c' cfg' (snd (scheduled_wake wall now c cfg st))) =
    fst (scheduled_wake wall now c' cfg' st)"
  using scheduled_wake_snd [of wall now c cfg st]
proof
  assume "snd (scheduled_wake wall now c cfg st) = snd (should_wake_client now c (secs 10) st)"
  moreover have "fst (scheduled_wake wall now c' cfg' (snd (should_wake_client now c (secs 10) st))) = Some e
      \<longleftrightarrow> fst (scheduled_wake wall now c' cfg' st) = Some e" for e
    by (simp add: scheduled_wake_fst should_wake_other [OF assms])
  ultimately show ?thesis by (metis option.exhaust)
qed simp

text \<open>The loop pulses while the client is away, at least \<open>TYPING_PULSE\<close> apart, up to \<open>TYPING_MAX\<close>.\<close>

lemma wake_typing_pulses:
  assumes "channel_id \<noteq> 0"
  shows "\<exists>ts. wake_typing connected took channel_id e = Ret ts \<and>
    (\<forall>t\<in>set ts. e \<le> t \<and> t < TYPING_MAX \<and> \<not> connected t) \<and>
    sorted_wrt (\<lambda>t u. t + TYPING_PULSE \<le> u) ts \<and>
    (ts = [] \<or> e + length ts * TYPING_PULSE < TYPING_MAX + TYPING_PULSE)"
  using assms
proof (induction connected took channel_id e rule: wake_typing.induct)
  case (1 connected took channel_id e)
  show ?case
  proof (cases "connected e \<or> TYPING_MAX \<le> e")
    case True
    then show ?thesis by (subst wake_typing.simps) auto
  next
    case False
    let ?e = "e + took e + TYPING_PULSE"
    have p: "pulse_typing channel_id = Ret ()" using 1(2) by (simp add: pulse_typing_def)
    from 1(1) [OF _ _ 1(2)] False obtain ts where
      ts: "wake_typing connected took channel_id ?e = Ret ts"
      "\<forall>t\<in>set ts. ?e \<le> t \<and> t < TYPING_MAX \<and> \<not> connected t"
      "sorted_wrt (\<lambda>t u. t + TYPING_PULSE \<le> u) ts"
      "ts = [] \<or> ?e + length ts * TYPING_PULSE < TYPING_MAX + TYPING_PULSE" by auto
    have "wake_typing connected took channel_id e = Ret (e # ts)"
      using False p ts(1) by (subst wake_typing.simps) simp
    then show ?thesis using ts(2-4) False by (auto intro!: exI [of _ "e # ts"])
  qed
qed

end
