(* ===== verification/Dispatch_Model.thy ===== *)
theory Dispatch_Model
  imports Voice_Lock Wake_Model
begin

text \<open>
  \<open>src/dispatch.rs\<close>: what the proxy does with one message from Discord. A dispatch event is
  broadcast with its routing ids and its audience, buffered for the disconnected clients that may
  see it, and fed into the guild cache, the READY state and the voice owner lock.
\<close>

section \<open>The audience of an event\<close>

definition audience_for :: "registry \<Rightarrow> inner \<Rightarrow> string \<Rightarrow> u64 option \<Rightarrow> audience" where
  "audience_for r st event guild_id =
     (if event \<noteq> ''VOICE_SERVER_UPDATE'' then AudGuild
      else (case guild_id of
          None \<Rightarrow> AudBotOnly
        | Some guild \<Rightarrow>
            (case voice_owner st guild of
               Some client_id \<Rightarrow>
                 if client_has_guild r client_id guild then AudClient client_id else AudBotOnly
             | None \<Rightarrow> AudBotOnly)))"

text \<open>Audiences are ordered by how many multi-tenant clients they admit.\<close>

instantiation audience :: order
begin

definition less_eq_audience :: "audience \<Rightarrow> audience \<Rightarrow> bool" where
  "less_eq_audience a b \<longleftrightarrow> a = b \<or> a = AudBotOnly \<or> b = AudGuild"

definition less_audience :: "audience \<Rightarrow> audience \<Rightarrow> bool" where
  "less_audience a b \<longleftrightarrow> a \<le> b \<and> a \<noteq> b"

instance
  by standard (auto simp: less_eq_audience_def less_audience_def)

end

text \<open>The test of \<open>forward_shard\<close>: may a tenant session of this client receive the message?\<close>

definition audience_admits :: "audience \<Rightarrow> string option \<Rightarrow> bool" where
  "audience_admits a own_client_id =
     (case a of AudGuild \<Rightarrow> True | AudBotOnly \<Rightarrow> False | AudClient ow \<Rightarrow> own_client_id = Some ow)"

lemma audience_admits_mono: "a \<le> b \<Longrightarrow> audience_admits a c \<Longrightarrow> audience_admits b c"
  by (auto simp: less_eq_audience_def audience_admits_def)

lemma audience_admits_simps [simp]:
  "audience_admits AudGuild c" "\<not> audience_admits AudBotOnly c"
  "audience_admits (AudClient ow) c \<longleftrightarrow> c = Some ow"
  by (simp_all add: audience_admits_def)

section \<open>Voice states of the bot\<close>

definition track_bot_voice_state :: "json_lib \<Rightarrow> string \<Rightarrow> u64 option \<Rightarrow> inner \<Rightarrow> inner" where
  "track_bot_voice_state J payload guild_id st =
     (case (guild_id, bot_user_id st) of
        (Some guild, Some user) \<Rightarrow>
          (case parse_voice_state_event J payload of
             None \<Rightarrow> st
           | Some event \<Rightarrow>
               if vse_channel_id event = None \<and> parse_uint (vse_user_id event) = Some user
               then on_bot_voice_leave guild st else st)
      | _ \<Rightarrow> st)"

section \<open>Buffering for disconnected clients\<close>

definition should_buffer_event :: "string \<Rightarrow> bool" where
  "should_buffer_event event \<longleftrightarrow>
     event \<in> {''MESSAGE_CREATE'', ''MESSAGE_UPDATE'', ''MESSAGE_DELETE'',
       ''THREAD_CREATE'', ''THREAD_UPDATE'', ''THREAD_DELETE''}"

text \<open>The closure of the \<open>filter_map\<close>: one client.\<close>

definition buffer_for_client ::
  "instant \<Rightarrow> string \<Rightarrow> sequence_info option \<Rightarrow> u64 \<Rightarrow> string \<Rightarrow> client_config \<Rightarrow> inner \<Rightarrow>
     effect option \<times> inner" where
  "buffer_for_client now payload sequence guild client_id config st =
     (if guild \<notin> cl_guilds config then (None, st)
      else if is_client_connected st client_id then (None, st)
      else
        let st' = push_offline_event_for_client client_id
              \<lparr>be_payload = payload, be_sequence = sequence, be_guild_id = Some guild\<rparr> st
        in (case should_wake_client now client_id WAKE_COOLDOWN st' of
              (False, st'') \<Rightarrow> (None, st'')
            | (True, st'') \<Rightarrow>
                (map_option (\<lambda>url. WakeClient client_id url (wake_token client_id config))
                   (cl_reachable_url config), st'')))"

definition buffer_event_for_disconnected_clients ::
  "instant \<Rightarrow> registry \<Rightarrow> string \<Rightarrow> sequence_info option \<Rightarrow> u64 option \<Rightarrow> inner \<Rightarrow>
     effect list \<times> inner" where
  "buffer_event_for_disconnected_clients now r payload sequence guild_id st =
     (case guild_id of
        None \<Rightarrow> ([], st)
      | Some guild \<Rightarrow>
          (case rg_clients r of
             None \<Rightarrow> ([], st)
           | Some clients \<Rightarrow>
               collect_effects (buffer_for_client now payload sequence guild) clients st))"

definition start_wake_typing_for_disconnected_clients ::
  "registry \<Rightarrow> u64 \<Rightarrow> u64 \<Rightarrow> inner \<Rightarrow> effect list" where
  "start_wake_typing_for_disconnected_clients r guild channel st =
     (case rg_clients r of
        None \<Rightarrow> []
      | Some clients \<Rightarrow>
          map (\<lambda>(client_id, config). WakeTyping client_id channel)
            (filter (\<lambda>(client_id, config).
               guild \<in> cl_guilds config \<and> \<not> is_client_connected st client_id \<and>
               cl_reachable_url config \<noteq> None) clients))"

section \<open>The event loop of a shard\<close>

text \<open>What \<open>shard.next()\<close> yields: a text, a close frame, an error, or the end of the stream.\<close>

datatype shard_message = MsgText string | MsgClose | MsgErr | MsgEnd

text \<open>
  twilight: \<open>parse\<close> with the event type flags gives an error, nothing (the event type is not in
  the flags), or an event; \<open>update\<close> feeds a dispatch event into the cache.
\<close>

datatype 'e twilight_event = TwDispatch 'e | TwInvalidateSession bool | TwOther

record 'e twilight =
  tw_parse :: "string \<Rightarrow> event_flag set \<Rightarrow> string + 'e twilight_event option"
  tw_update :: "'e \<Rightarrow> guild_cache \<Rightarrow> guild_cache"

datatype loop_flow = Continue | Stop

definition update_shard :: "nat \<Rightarrow> (shard \<Rightarrow> shard) \<Rightarrow> inner \<Rightarrow> inner" where
  "update_shard i f st = st\<lparr>shards := (shards st)[i := f (shards st ! i)]\<rparr>"

definition broadcast :: "broadcast_message \<Rightarrow> shard \<Rightarrow> shard" where
  "broadcast m sh = sh\<lparr>sh_events := sh_events sh @ [m]\<rparr>"

text \<open>\<open>arr.clear()\<close> if the guilds are an array.\<close>

definition clear_guilds :: "json_object \<Rightarrow> json_object" where
  "clear_guilds d =
     (case hm_get d ''guilds'' of Some (JArr _) \<Rightarrow> hm_insert ''guilds'' (JArr []) d | _ \<Rightarrow> d)"

text \<open>The READY branch. The \<open>unwrap\<close> panics if the payload is not a READY.\<close>

definition on_ready :: "json_lib \<Rightarrow> config \<Rightarrow> nat \<Rightarrow> string \<Rightarrow> inner \<Rightarrow> inner outcome" where
  "on_ready J cfg i payload st =
     (case parse_ready J payload of
        None \<Rightarrow> Panic
      | Some d \<Rightarrow>
          let d' = hm_insert ''resume_gateway_url'' (JStr (cfg_externally_accessible_url cfg))
                (clear_guilds d);
              st' = (case Option.bind (parse_ready_user J payload)
                         (\<lambda>user. parse_uint (ido_id (rui_user user))) of
                       None \<Rightarrow> st
                     | Some user_id \<Rightarrow> st\<lparr>bot_user_id_cell := user_id\<rparr>)
          in Ret (update_shard i (set_ready d') st'))"

text \<open>The branch that relays a dispatch event.\<close>

definition relay_event ::
  "json_lib \<Rightarrow> instant \<Rightarrow> registry \<Rightarrow> nat \<Rightarrow> string \<Rightarrow> string \<Rightarrow> gateway_event \<Rightarrow> inner \<Rightarrow>
     effect list \<times> inner" where
  "relay_event J now r i event payload e st =
     (let st1 = (if event = ''VOICE_STATE_UPDATE''
                 then track_bot_voice_state J payload (ge_guild_id e) st else st);
          st2 = update_shard i (broadcast
                  \<lparr>bm_payload = payload, bm_sequence = ge_sequence e, bm_guild_id = ge_guild_id e,
                   bm_audience = audience_for r st1 event (ge_guild_id e)\<rparr>) st1;
          (wakes, st3) =
            (if should_buffer_event event
             then buffer_event_for_disconnected_clients now r payload (ge_sequence e) (ge_guild_id e) st2
             else ([], st2));
          typing =
            (if should_show_wake_typing event
             then (case (ge_channel_id e, ge_guild_id e) of
                     (Some channel, Some guild) \<Rightarrow>
                       start_wake_typing_for_disconnected_clients r guild channel st3
                   | _ \<Rightarrow> [])
             else [])
      in (wakes @ typing, st3))"

text \<open>The event-name dispatch: the new \<open>is_ready\<close>, the spawned tasks, the new state.\<close>

definition handle_event ::
  "json_lib \<Rightarrow> config \<Rightarrow> instant \<Rightarrow> registry \<Rightarrow> nat \<Rightarrow> string \<Rightarrow> gateway_event \<Rightarrow> bool \<Rightarrow> inner \<Rightarrow>
     (bool \<times> effect list \<times> inner) outcome" where
  "handle_event J cfg now r i payload e ready st =
     (case ge_event_type e of
        None \<Rightarrow> Ret (ready, [], st)
      | Some info \<Rightarrow>
          if event_name info = ''READY'' then omap (\<lambda>st'. (True, [], st')) (on_ready J cfg i payload st)
          else if event_name info = ''RESUMED'' then Ret (True, [], st)
          else if op_value (ge_op e) = 0 \<and> ready
          then Ret (ready, relay_event J now r i (event_name info) payload e st)
          else Ret (ready, [], st))"

text \<open>The cache and READY bookkeeping at the end of a round.\<close>

definition apply_parsed :: "'e twilight \<Rightarrow> config \<Rightarrow> nat \<Rightarrow> string \<Rightarrow> bool \<Rightarrow> inner \<Rightarrow> bool \<times> inner" where
  "apply_parsed tw cfg i payload ready st =
     (case tw_parse tw payload (event_type_flags (cfg_cache cfg)) of
        Inr (Some (TwDispatch e)) \<Rightarrow>
          (ready, update_shard i (\<lambda>sh. sh\<lparr>sh_guilds := tw_update tw e (sh_guilds sh)\<rparr>) st)
      | Inr (Some (TwInvalidateSession can_resume)) \<Rightarrow>
          (False, if \<not> can_resume then update_shard i set_not_ready st else st)
      | _ \<Rightarrow> (ready, st))"

text \<open>One round of the loop of \<open>events\<close> for the shard at position \<open>i\<close>, without its metrics.\<close>

definition events ::
  "'e twilight \<Rightarrow> json_lib \<Rightarrow> config \<Rightarrow> instant \<Rightarrow> registry \<Rightarrow> bool \<Rightarrow> nat \<Rightarrow> shard_message \<Rightarrow>
     bool \<Rightarrow> inner \<Rightarrow> (loop_flow \<times> bool \<times> effect list \<times> inner) outcome" where
  "events tw J cfg now r shutdown i msg ready st =
     (case msg of
        MsgClose \<Rightarrow> Ret (if shutdown then Stop else Continue, ready, [], st)
      | MsgErr \<Rightarrow> Ret (Continue, ready, [], st)
      | MsgEnd \<Rightarrow> Ret (Stop, ready, [], st)
      | MsgText payload \<Rightarrow>
          (case from_json payload of
             None \<Rightarrow> Ret (Continue, ready, [], st)
           | Some e \<Rightarrow>
               omap (\<lambda>(ready', effects, st').
                   (case apply_parsed tw cfg i payload ready' st' of
                      (ready'', st'') \<Rightarrow> (Continue, ready'', effects, st'')))
                 (handle_event J cfg now r i payload e ready st)))"

section \<open>Lemmas: buffering\<close>

lemma push_offline_frame [simp]:
  "is_client_connected (push_offline_event_for_client c e st) = is_client_connected st"
  "shards (push_offline_event_for_client c e st) = shards st"
  "shard_count (push_offline_event_for_client c e st) = shard_count st"
  "voice_owners (push_offline_event_for_client c e st) = voice_owners st"
  "last_wake_attempts (push_offline_event_for_client c e st) = last_wake_attempts st"
  by (auto simp: push_offline_event_for_client_def Let_def is_client_connected_def connection_count_def)

lemma should_wake_frame [simp]:
  "offline_events (snd (should_wake_client now c d st)) = offline_events st"
  "shards (snd (should_wake_client now c d st)) = shards st"
  "shard_count (snd (should_wake_client now c d st)) = shard_count st"
  "voice_owners (snd (should_wake_client now c d st)) = voice_owners st"
  by (auto simp: should_wake_client_def offline_events_def fun_eq_iff split: option.splits)

lemma should_wake_push [simp]:
  "fst (should_wake_client now c d (push_offline_event_for_client c' e st)) =
     fst (should_wake_client now c d st)"
  by (auto simp: should_wake_client_def split: option.splits)

lemma buffer_for_client_snd:
  "snd (buffer_for_client now p s g c cfg st) =
     (if g \<in> cl_guilds cfg \<and> \<not> is_client_connected st c
      then snd (should_wake_client now c WAKE_COOLDOWN (push_offline_event_for_client c
             \<lparr>be_payload = p, be_sequence = s, be_guild_id = Some g\<rparr> st))
      else st)"
  by (auto simp: buffer_for_client_def Let_def split: prod.splits bool.splits)

lemma buffer_for_client_fst:
  "fst (buffer_for_client now p s g c cfg st) = Some e \<longleftrightarrow>
     g \<in> cl_guilds cfg \<and> \<not> is_client_connected st c \<and> fst (should_wake_client now c WAKE_COOLDOWN st) \<and>
     (\<exists>url. cl_reachable_url cfg = Some url \<and> e = WakeClient c url (wake_token c cfg))"
proof -
  let ?be = "\<lparr>be_payload = p, be_sequence = s, be_guild_id = Some g\<rparr>"
  obtain w st' where w: "should_wake_client now c WAKE_COOLDOWN (push_offline_event_for_client c ?be st) = (w, st')"
    by fastforce
  moreover have "fst (should_wake_client now c WAKE_COOLDOWN st) = w"
    using should_wake_push [of now c WAKE_COOLDOWN c ?be st] w by simp
  ultimately show ?thesis by (cases w) (auto simp: buffer_for_client_def Let_def)
qed

lemma buffer_for_client_wf:
  "wf_inner st \<Longrightarrow> wf_inner (snd (buffer_for_client now p s g c cfg st))"
  by (simp add: buffer_for_client_snd)

lemma buffer_for_client_connected:
  "is_client_connected (snd (buffer_for_client now p s g c cfg st)) = is_client_connected st"
  by (simp add: buffer_for_client_snd)

lemma buffer_for_client_offline:
  "offline_events (snd (buffer_for_client now p s g c cfg st)) c' =
     (if c' = c
      then (if g \<in> cl_guilds cfg \<and> \<not> is_client_connected st c
            then (if OFFLINE_EVENT_BUFFER_LIMIT \<le> length (offline_events st c)
                  then tl (offline_events st c) else offline_events st c)
              @ [\<lparr>be_payload = p, be_sequence = s, be_guild_id = Some g\<rparr>]
            else offline_events st c)
      else offline_events st c')"
  by (simp add: buffer_for_client_snd)

lemma buffer_for_client_own:
  assumes "c' \<noteq> c"
  shows "fst (buffer_for_client now p s g c' cfg' (snd (buffer_for_client now p s g c cfg st))) =
    fst (buffer_for_client now p s g c' cfg' st)"
proof -
  have "fst (should_wake_client now c' WAKE_COOLDOWN (snd (buffer_for_client now p s g c cfg st))) =
      fst (should_wake_client now c' WAKE_COOLDOWN st)"
    using assms by (simp add: buffer_for_client_snd should_wake_other)
  then have "fst (buffer_for_client now p s g c' cfg' (snd (buffer_for_client now p s g c cfg st))) = Some e
      \<longleftrightarrow> fst (buffer_for_client now p s g c' cfg' st) = Some e" for e
    by (simp add: buffer_for_client_fst buffer_for_client_connected)
  then show ?thesis by (metis option.exhaust)
qed

lemma buffer_frame:
  "shards (snd (buffer_event_for_disconnected_clients now r p s g st)) = shards st"
  "shard_count (snd (buffer_event_for_disconnected_clients now r p s g st)) = shard_count st"
  "voice_owners (snd (buffer_event_for_disconnected_clients now r p s g st)) = voice_owners st"
  "is_client_connected (snd (buffer_event_for_disconnected_clients now r p s g st)) = is_client_connected st"
  by (auto simp: buffer_event_for_disconnected_clients_def buffer_for_client_snd
      intro!: collect_effects_same split: option.splits)

lemma buffer_wf:
  "wf_inner st \<Longrightarrow> wf_inner (snd (buffer_event_for_disconnected_clients now r p s g st))"
  by (auto simp: buffer_event_for_disconnected_clients_def buffer_for_client_wf
      intro!: collect_effects_wf split: option.splits)

text \<open>Who gets the event into its buffer.\<close>

definition buffered_for :: "registry \<Rightarrow> inner \<Rightarrow> u64 option \<Rightarrow> string \<Rightarrow> bool" where
  "buffered_for r st guild_id c \<longleftrightarrow>
     (\<exists>g. guild_id = Some g \<and> client_has_guild r c g) \<and> \<not> is_client_connected st c"

lemma buffer_offline:
  assumes wf: "wf_registry r"
  shows "offline_events (snd (buffer_event_for_disconnected_clients now r p s guild_id st)) c =
    (if buffered_for r st guild_id c
     then (if OFFLINE_EVENT_BUFFER_LIMIT \<le> length (offline_events st c)
           then tl (offline_events st c) else offline_events st c)
       @ [\<lparr>be_payload = p, be_sequence = s, be_guild_id = guild_id\<rparr>]
     else offline_events st c)"
proof (cases guild_id)
  case None
  then show ?thesis by (simp add: buffer_event_for_disconnected_clients_def buffered_for_def)
next
  case (Some g)
  show ?thesis
  proof (cases "rg_clients r")
    case None
    with Some show ?thesis
      by (simp add: buffer_event_for_disconnected_clients_def buffered_for_def client_has_guild_def)
  next
    case (Some m)
    note cl = Some
    let ?be = "\<lparr>be_payload = p, be_sequence = s, be_guild_id = Some g\<rparr>"
    let ?upd = "\<lambda>c cfg conn evs. if g \<in> cl_guilds cfg \<and> \<not> conn c
        then (if OFFLINE_EVENT_BUFFER_LIMIT \<le> length evs then tl evs else evs) @ [?be] else evs"
    have "offline_events (snd (collect_effects (buffer_for_client now p s g) m st)) c =
        (case hm_get m c of None \<Rightarrow> offline_events st c
         | Some cfg \<Rightarrow> ?upd c cfg (is_client_connected st) (offline_events st c))"
    proof (rule collect_effects_view [where V = offline_events and K = is_client_connected and g = ?upd])
      show "hm_wf m" using assms cl by (rule wf_registryD)
    qed (simp_all add: buffer_for_client_connected buffer_for_client_offline)
    with \<open>guild_id = Some g\<close> cl show ?thesis
      by (auto simp: buffer_event_for_disconnected_clients_def buffered_for_def client_has_guild_def
          split: option.splits)
  qed
qed

section \<open>Lemmas: one round\<close>

lemma on_bot_leave_frame [simp]:
  "shards (on_bot_voice_leave g st) = shards st"
  "shard_count (on_bot_voice_leave g st) = shard_count st"
  "offline_events (on_bot_voice_leave g st) = offline_events st"
  "is_client_connected (on_bot_voice_leave g st) = is_client_connected st"
  by (auto simp: on_bot_voice_leave_def offline_events_def is_client_connected_def
      connection_count_def fun_eq_iff split: option.splits)

lemma track_frame [simp]:
  "shards (track_bot_voice_state J p g st) = shards st"
  "shard_count (track_bot_voice_state J p g st) = shard_count st"
  "offline_events (track_bot_voice_state J p g st) = offline_events st"
  "is_client_connected (track_bot_voice_state J p g st) = is_client_connected st"
  by (auto simp: track_bot_voice_state_def split: option.splits)

lemma track_wf [simp, wf_intros]: "wf_inner st \<Longrightarrow> wf_inner (track_bot_voice_state J p g st)"
  by (auto simp: track_bot_voice_state_def on_bot_voice_leave_def wf_inner_def split: option.splits)

lemma update_shard_frame [simp]:
  "offline_events (update_shard i f st) = offline_events st"
  "is_client_connected (update_shard i f st) = is_client_connected st"
  "voice_owners (update_shard i f st) = voice_owners st"
  "shard_count (update_shard i f st) = shard_count st"
  "wf_inner (update_shard i f st) = wf_inner st"
  "length (shards (update_shard i f st)) = length (shards st)"
  by (auto simp: update_shard_def offline_events_def is_client_connected_def connection_count_def
      wf_inner_def fun_eq_iff)

lemma update_shard_nth:
  "i < length (shards st) \<Longrightarrow>
     shards (update_shard i f st) ! j = (if j = i then f (shards st ! i) else shards st ! j)"
  by (simp add: update_shard_def)

text \<open>Is the message one that is relayed, and as what?\<close>

definition relayed :: "bool \<Rightarrow> shard_message \<Rightarrow> (string \<times> string \<times> gateway_event) option" where
  "relayed ready msg =
     (case msg of
        MsgText payload \<Rightarrow>
          (case from_json payload of
             None \<Rightarrow> None
           | Some e \<Rightarrow>
               (case ge_event_type e of
                  None \<Rightarrow> None
                | Some info \<Rightarrow>
                    if event_name info \<notin> {''READY'', ''RESUMED''} \<and> op_value (ge_op e) = 0 \<and> ready
                    then Some (event_name info, payload, e) else None))
      | _ \<Rightarrow> None)"

text \<open>The state after the voice bookkeeping of a relayed event, in which its audience is computed.\<close>

definition tracked :: "json_lib \<Rightarrow> string \<Rightarrow> string \<Rightarrow> gateway_event \<Rightarrow> inner \<Rightarrow> inner" where
  "tracked J event payload e st =
     (if event = ''VOICE_STATE_UPDATE''
      then track_bot_voice_state J payload (ge_guild_id e) st else st)"

definition relay_message ::
  "json_lib \<Rightarrow> registry \<Rightarrow> inner \<Rightarrow> string \<times> string \<times> gateway_event \<Rightarrow> broadcast_message" where
  "relay_message J r st = (\<lambda>(event, payload, e).
     \<lparr>bm_payload = payload, bm_sequence = ge_sequence e, bm_guild_id = ge_guild_id e,
      bm_audience = audience_for r (tracked J event payload e st) event (ge_guild_id e)\<rparr>)"

lemma tracked_frame [simp]:
  "shards (tracked J ev p e st) = shards st"
  "offline_events (tracked J ev p e st) = offline_events st"
  "is_client_connected (tracked J ev p e st) = is_client_connected st"
  by (simp_all add: tracked_def)

lemma relay_event_effects:
  assumes "i < length (shards st)" and "relay_event J now r i ev p e st = (effs, st')"
  shows "shards st' = (shards st)[i := broadcast (relay_message J r st (ev, p, e)) (shards st ! i)]"
    and "wf_registry r \<Longrightarrow> offline_events st' c =
      (if should_buffer_event ev \<and> buffered_for r st (ge_guild_id e) c
       then (if OFFLINE_EVENT_BUFFER_LIMIT \<le> length (offline_events st c)
             then tl (offline_events st c) else offline_events st c)
         @ [\<lparr>be_payload = p, be_sequence = ge_sequence e, be_guild_id = ge_guild_id e\<rparr>]
       else offline_events st c)"
proof -
  let ?st2 = "update_shard i (broadcast (relay_message J r st (ev, p, e))) (tracked J ev p e st)"
  have st': "st' = (if should_buffer_event ev
      then snd (buffer_event_for_disconnected_clients now r p (ge_sequence e) (ge_guild_id e) ?st2)
      else ?st2)"
    using assms(2) by (auto simp: relay_event_def Let_def tracked_def relay_message_def split: prod.splits)
  show "shards st' = (shards st)[i := broadcast (relay_message J r st (ev, p, e)) (shards st ! i)]"
    using assms(1) by (auto simp: st' buffer_frame update_shard_def)
  show "offline_events st' c =
      (if should_buffer_event ev \<and> buffered_for r st (ge_guild_id e) c
       then (if OFFLINE_EVENT_BUFFER_LIMIT \<le> length (offline_events st c)
             then tl (offline_events st c) else offline_events st c)
         @ [\<lparr>be_payload = p, be_sequence = ge_sequence e, be_guild_id = ge_guild_id e\<rparr>]
       else offline_events st c)" if "wf_registry r"
  proof -
    have "buffered_for r ?st2 = buffered_for r st" by (simp add: buffered_for_def fun_eq_iff)
    then show ?thesis using that by (simp add: st' buffer_offline)
  qed
qed

text \<open>The parts of a shard that \<open>apply_parsed\<close> does not touch.\<close>

lemma apply_parsed_effects:
  assumes "i < length (shards st)" and "apply_parsed tw cfg i p ready st = (ready', st')"
  shows "map sh_events (shards st') = map sh_events (shards st)"
    and "map sh_id (shards st') = map sh_id (shards st)"
    and "offline_events st' = offline_events st" and "voice_owners st' = voice_owners st"
    and "j \<noteq> i \<Longrightarrow> shards st' ! j = shards st ! j"
    and "ready' \<longrightarrow> ready"
  using assms
  by (auto simp: apply_parsed_def update_shard_nth set_not_ready_def
      intro!: nth_equalityI split: sum.splits option.splits twilight_event.splits if_splits)

lemma on_ready_effects:
  assumes "i < length (shards st)" and "on_ready J cfg i p st = Ret st'"
  shows "map sh_events (shards st') = map sh_events (shards st)"
    and "map sh_id (shards st') = map sh_id (shards st)"
    and "offline_events st' = offline_events st" and "voice_owners st' = voice_owners st"
    and "j \<noteq> i \<Longrightarrow> shards st' ! j = shards st ! j"
    and "is_ready (shards st' ! i)"
  using assms
  by (auto simp: on_ready_def Let_def update_shard_def set_ready_def is_ready_def offline_events_def
      fun_eq_iff nth_list_update map_update intro!: nth_equalityI split: option.splits)

lemma handle_event_cases:
  assumes "handle_event J cfg now r i p e ready st = Ret (ready', effs, st')" and "from_json p = Some e"
  obtains (ready) "on_ready J cfg i p st = Ret st'" and "relayed ready (MsgText p) = None"
    | (relay) ev where "relayed ready (MsgText p) = Some (ev, p, e)"
        and "relay_event J now r i ev p e st = (effs, st')"
    | (skip) "st' = st" and "relayed ready (MsgText p) = None"
  using assms
  by (auto simp: handle_event_def relayed_def split: option.splits if_splits)

text \<open>What one round adds to the broadcasts and to the buffers.\<close>

definition broadcast_of_round ::
  "json_lib \<Rightarrow> registry \<Rightarrow> inner \<Rightarrow> bool \<Rightarrow> shard_message \<Rightarrow> broadcast_message list" where
  "broadcast_of_round J r st ready msg =
     (case relayed ready msg of None \<Rightarrow> [] | Some x \<Rightarrow> [relay_message J r st x])"

definition buffer_of_round ::
  "registry \<Rightarrow> inner \<Rightarrow> bool \<Rightarrow> shard_message \<Rightarrow> string \<Rightarrow> buffered_client_event list" where
  "buffer_of_round r st ready msg c =
     (case relayed ready msg of
        None \<Rightarrow> offline_events st c
      | Some (event, payload, e) \<Rightarrow>
          if should_buffer_event event \<and> buffered_for r st (ge_guild_id e) c
          then (if OFFLINE_EVENT_BUFFER_LIMIT \<le> length (offline_events st c)
                then tl (offline_events st c) else offline_events st c)
            @ [\<lparr>be_payload = payload, be_sequence = ge_sequence e, be_guild_id = ge_guild_id e\<rparr>]
          else offline_events st c)"

lemma handle_event_effects:
  assumes i: "i < length (shards st)" and r: "wf_registry r" and e: "from_json p = Some e"
    and h: "handle_event J cfg now r i p e ready st = Ret (ready', effs, st')"
  shows "map sh_events (shards st') = (map sh_events (shards st))
      [i := sh_events (shards st ! i) @ broadcast_of_round J r st ready (MsgText p)]"
    and "offline_events st' c = buffer_of_round r st ready (MsgText p) c"
proof -
  have same: "(map sh_events (shards st))[i := sh_events (shards st ! i)] = map sh_events (shards st)"
    using i by (simp add: list_update_same_conv)
  have "map sh_events (shards st') = (map sh_events (shards st))
      [i := sh_events (shards st ! i) @ broadcast_of_round J r st ready (MsgText p)] \<and>
    offline_events st' c = buffer_of_round r st ready (MsgText p) c"
    using h e
  proof (cases rule: handle_event_cases)
    case ready
    then show ?thesis
      using on_ready_effects [OF i ready(1)] same
      by (simp add: broadcast_of_round_def buffer_of_round_def)
  next
    case (relay ev)
    then show ?thesis
      using relay_event_effects [OF i relay(2)] r i
      by (simp add: broadcast_of_round_def buffer_of_round_def map_update broadcast_def)
  next
    case skip
    then show ?thesis
      using same by (simp add: broadcast_of_round_def buffer_of_round_def)
  qed
  then show "map sh_events (shards st') = (map sh_events (shards st))
      [i := sh_events (shards st ! i) @ broadcast_of_round J r st ready (MsgText p)]"
    and "offline_events st' c = buffer_of_round r st ready (MsgText p) c" by blast+
qed

lemma round_effects:
  assumes i: "i < length (shards st)" and r: "wf_registry r"
    and round: "events tw J cfg now r shutdown i msg ready st = Ret (flow, ready', effs, st')"
  shows "map sh_events (shards st') = (map sh_events (shards st))
      [i := sh_events (shards st ! i) @ broadcast_of_round J r st ready msg]"
    and "offline_events st' c = buffer_of_round r st ready msg c"
proof -
  have same: "(map sh_events (shards st))[i := sh_events (shards st ! i)] = map sh_events (shards st)"
    using i by (simp add: list_update_same_conv)
  have "map sh_events (shards st') = (map sh_events (shards st))
      [i := sh_events (shards st ! i) @ broadcast_of_round J r st ready msg] \<and>
    offline_events st' c = buffer_of_round r st ready msg c"
  proof (cases "\<exists>p e. msg = MsgText p \<and> from_json p = Some e")
    case False
    then have "st' = st" "relayed ready msg = None"
      using round by (auto simp: events_def relayed_def split: shard_message.splits option.splits)
    then show ?thesis using same by (simp add: broadcast_of_round_def buffer_of_round_def)
  next
    case True
    then obtain p e where msg: "msg = MsgText p" and e: "from_json p = Some e" by blast
    with round obtain x where "handle_event J cfg now r i p e ready st = Ret x"
      by (auto simp: events_def)
    then obtain ready1 effs1 st1 where x: "handle_event J cfg now r i p e ready st = Ret (ready1, effs1, st1)"
      by (cases x) auto
    then have h: "handle_event J cfg now r i p e ready st = Ret (ready1, effs, st1)"
      and a: "apply_parsed tw cfg i p ready1 st1 = (ready', st')"
      using round msg e by (cases "apply_parsed tw cfg i p ready1 st1"; simp add: events_def)+
    note step = handle_event_effects [OF i r e h]
    from step(1) have "length (map sh_events (shards st1)) = length (map sh_events (shards st))" by simp
    then have "i < length (shards st1)" using i by simp
    from apply_parsed_effects [OF this a] step show ?thesis by (simp add: msg)
  qed
  then show "map sh_events (shards st') = (map sh_events (shards st))
      [i := sh_events (shards st ! i) @ broadcast_of_round J r st ready msg]"
    and "offline_events st' c = buffer_of_round r st ready msg c" by blast+
qed

lemma round_panic:
  "events tw J cfg now r shutdown i msg ready st = Panic \<longleftrightarrow>
     (\<exists>p e info. msg = MsgText p \<and> from_json p = Some e \<and> ge_event_type e = Some info \<and>
        event_name info = ''READY'' \<and> parse_ready J p = None)"
  "events tw J cfg now r shutdown i msg ready st \<noteq> Diverge"
proof -
  have on: "on_ready J cfg i p st = Panic \<longleftrightarrow> parse_ready J p = None" "on_ready J cfg i p st \<noteq> Diverge" for p
    by (auto simp: on_ready_def Let_def split: option.splits)
  have om: "omap f x = Panic \<longleftrightarrow> x = Panic" "omap f x = Diverge \<longleftrightarrow> x = Diverge"
    for f :: "'x \<Rightarrow> 'y" and x by (cases x; simp)+
  have h: "handle_event J cfg now r i p e ready st = Panic \<longleftrightarrow>
      (\<exists>info. ge_event_type e = Some info \<and> event_name info = ''READY'' \<and> parse_ready J p = None)"
    "handle_event J cfg now r i p e ready st \<noteq> Diverge" for p e
    by (auto simp: handle_event_def om on split: option.splits)
  show "events tw J cfg now r shutdown i msg ready st = Panic \<longleftrightarrow>
     (\<exists>p e info. msg = MsgText p \<and> from_json p = Some e \<and> ge_event_type e = Some info \<and>
        event_name info = ''READY'' \<and> parse_ready J p = None)"
    by (auto simp: events_def om h split: shard_message.splits option.splits)
  show "events tw J cfg now r shutdown i msg ready st \<noteq> Diverge"
    by (auto simp: events_def om h split: shard_message.splits option.splits)
qed

section \<open>The invariant of the stream\<close>

text \<open>
  Every broadcast and every buffered event carries the sequence info and the guild id that the
  scanner finds in its own payload.
\<close>

definition scanned :: "string \<Rightarrow> sequence_info option \<Rightarrow> u64 option \<Rightarrow> bool" where
  "scanned payload sequence guild_id \<longleftrightarrow>
     (\<exists>e. from_json payload = Some e \<and> sequence = ge_sequence e \<and> guild_id = ge_guild_id e)"

definition stream_ok :: "inner \<Rightarrow> bool" where
  "stream_ok st \<longleftrightarrow>
     (\<forall>evs\<in>set (map sh_events (shards st)). \<forall>m\<in>set evs.
        scanned (bm_payload m) (bm_sequence m) (bm_guild_id m)) \<and>
     (\<forall>c. \<forall>b\<in>set (offline_events st c). scanned (be_payload b) (be_sequence b) (be_guild_id b))"

lemma relayed_scanned:
  assumes "relayed ready msg = Some (ev, p, e)"
  shows "from_json p = Some e" and "msg = MsgText p"
  using assms by (auto simp: relayed_def split: shard_message.splits option.splits if_splits)

lemma stream_ok_round:
  assumes "stream_ok st" and i: "i < length (shards st)" and r: "wf_registry r"
    and round: "events tw J cfg now r shutdown i msg ready st = Ret (flow, ready', effs, st')"
  shows "stream_ok st'"
proof -
  have new: "scanned (bm_payload m) (bm_sequence m) (bm_guild_id m)"
    if "m \<in> set (broadcast_of_round J r st ready msg)" for m
    using that by (cases "relayed ready msg")
      (auto simp: broadcast_of_round_def relay_message_def scanned_def dest: relayed_scanned)
  have old: "scanned (bm_payload m) (bm_sequence m) (bm_guild_id m)"
    if "m \<in> set (sh_events (shards st ! i))" for m
    using assms(1) i that by (auto simp: stream_ok_def)
  have live: "\<forall>evs\<in>set (map sh_events (shards st')). \<forall>m\<in>set evs.
        scanned (bm_payload m) (bm_sequence m) (bm_guild_id m)"
  proof
    fix evs assume "evs \<in> set (map sh_events (shards st'))"
    then have "evs \<in> insert (sh_events (shards st ! i) @ broadcast_of_round J r st ready msg)
        (set (map sh_events (shards st)))"
      unfolding round_effects(1) [OF i r round] using set_update_subset_insert by fast
    then show "\<forall>m\<in>set evs. scanned (bm_payload m) (bm_sequence m) (bm_guild_id m)"
      using assms(1) new old by (auto simp: stream_ok_def)
  qed
  have buffered: "scanned (be_payload b) (be_sequence b) (be_guild_id b)"
    if "b \<in> set (offline_events st' c)" for b c
  proof -
    have "b \<in> set (buffer_of_round r st ready msg c)"
      using that round_effects(2) [OF i r round] by simp
    then have "b \<in> set (offline_events st c) \<or> scanned (be_payload b) (be_sequence b) (be_guild_id b)"
      by (cases "relayed ready msg")
        (auto simp: buffer_of_round_def scanned_def dest: relayed_scanned in_tlD split: if_splits)
    then show ?thesis using assms(1) by (auto simp: stream_ok_def)
  qed
  with live show ?thesis by (simp add: stream_ok_def)
qed

end
