(* ===== verification/Forwarder.thy ===== *)
theory Forwarder
  imports Dispatch_Model
begin

text \<open>
  What a connected client is sent: the task \<open>forward_shard\<close> of \<open>src/server.rs\<close>. The task is four steps between
  which other tasks run: the greeting, the replay of the offline buffer, the subscription, and one
  step per received broadcast.
\<close>

section \<open>The forwarding task\<close>

definition RESUMED :: string where
  "RESUMED = ''{\"t\":\"RESUMED\",\"s\":null,\"op\":0,\"d\":{}}''"

text \<open>The arguments of the task.\<close>

record forward_args =
  fw_session_id :: string
  fw_shard :: nat
  fw_send_guilds :: bool
  fw_authorized_guilds :: "u64 set option"
  fw_client_id :: "string option"

text \<open>Before the live loop: the messages written and the new \<open>seq\<close>.\<close>

definition greeting ::
  "json_lib \<Rightarrow> forward_args \<Rightarrow> json_object \<Rightarrow> guild_cache \<Rightarrow> usize \<Rightarrow> (string list \<times> usize) outcome"
  where
  "greeting J fw ready_payload gc seq =
     (if fw_send_guilds fw
      then
        (case get_ready_payload gc ready_payload seq (fw_authorized_guilds fw) of
           (d, seq') \<Rightarrow>
             let d' = hm_insert ''session_id'' (JStr (fw_session_id fw)) d;
                 ready = (case to_json_string J (dispatch_payload (JObj d') ''READY'' seq') of
                     Some serialized \<Rightarrow> [serialized] | None \<Rightarrow> [])
             in omap (\<lambda>(payloads, seq''). (ready @ payloads, seq''))
                  (get_guild_payloads J gc seq' (fw_authorized_guilds fw)))
      else Ret ([RESUMED], seq))"

definition is_live_guild :: "registry \<Rightarrow> u64 set \<Rightarrow> string option \<Rightarrow> u64 \<Rightarrow> bool" where
  "is_live_guild r snapshot client guild =
     (case client of None \<Rightarrow> guild \<in> snapshot | Some client_id \<Rightarrow> client_has_guild r client_id guild)"

definition overwrite_sequence ::
  "usize \<Rightarrow> string \<Rightarrow> sequence_info option \<Rightarrow> (string \<times> usize) outcome" where
  "overwrite_sequence seq payload sequence =
     (case sequence of
        None \<Rightarrow> Ret (payload, seq)
      | Some (SequenceInfo _ a b) \<Rightarrow>
          omap (\<lambda>text. (text, seq + 1)) (replace_range payload a b (format_uint (seq + 1))))"

text \<open>The \<open>continue\<close>s of the replay loop.\<close>

definition replays :: "registry \<Rightarrow> forward_args \<Rightarrow> buffered_client_event \<Rightarrow> bool" where
  "replays r fw event =
     (case fw_authorized_guilds fw of
        None \<Rightarrow> True
      | Some guilds \<Rightarrow>
          (case be_guild_id event of
             Some gid \<Rightarrow> is_live_guild r guilds (fw_client_id fw) gid
           | None \<Rightarrow> False))"

fun replay_events ::
  "registry \<Rightarrow> forward_args \<Rightarrow> buffered_client_event list \<Rightarrow> usize \<Rightarrow> (string list \<times> usize) outcome"
  where
  "replay_events r fw [] seq = Ret ([], seq)"
| "replay_events r fw (event # evs) seq =
     (if replays r fw event
      then obind (overwrite_sequence seq (be_payload event) (be_sequence event))
        (\<lambda>(text, seq'). omap (\<lambda>(texts, seq''). (text # texts, seq'')) (replay_events r fw evs seq'))
      else replay_events r fw evs seq)"

definition replay_offline ::
  "registry \<Rightarrow> forward_args \<Rightarrow> usize \<Rightarrow> inner \<Rightarrow> (string list \<times> usize \<times> inner) outcome" where
  "replay_offline r fw seq st =
     (case fw_client_id fw of
        None \<Rightarrow> Ret ([], seq, st)
      | Some client_id \<Rightarrow>
          (case drain_offline_events_for_client client_id st of
             (buffered, st') \<Rightarrow>
               omap (\<lambda>(texts, seq'). (texts, seq', st')) (replay_events r fw buffered seq)))"

text \<open>A receiver starts behind everything that has been broadcast.\<close>

definition subscribe :: "shard \<Rightarrow> nat" where
  "subscribe sh = length (sh_events sh)"

definition forwards :: "registry \<Rightarrow> forward_args \<Rightarrow> broadcast_message \<Rightarrow> bool" where
  "forwards r fw m =
     (case fw_authorized_guilds fw of
        None \<Rightarrow> True
      | Some guilds \<Rightarrow>
          audience_admits (bm_audience m) (fw_client_id fw) \<and>
          (case bm_guild_id m of
             Some gid \<Rightarrow> is_live_guild r guilds (fw_client_id fw) gid
           | None \<Rightarrow> False))"

text \<open>One \<open>recv\<close>: a message, or the news that some were dropped because the receiver lagged.\<close>

datatype received = Received broadcast_message | Lagged nat

definition forward_received ::
  "registry \<Rightarrow> forward_args \<Rightarrow> received \<Rightarrow> usize \<Rightarrow> (string list \<times> usize) outcome" where
  "forward_received r fw res seq =
     (case res of
        Received m \<Rightarrow>
          if forwards r fw m
          then omap (\<lambda>(text, seq'). ([text], seq')) (overwrite_sequence seq (bm_payload m) (bm_sequence m))
          else Ret ([], seq)
      | Lagged _ \<Rightarrow> Ret ([], seq))"

text \<open>The live loop over what was received, each with the registry of its moment.\<close>

fun forward_live ::
  "forward_args \<Rightarrow> (registry \<times> received) list \<Rightarrow> usize \<Rightarrow> (string list \<times> usize) outcome" where
  "forward_live fw [] seq = Ret ([], seq)"
| "forward_live fw ((r, res) # rest) seq =
     obind (forward_received r fw res seq)
       (\<lambda>(texts, seq'). omap (\<lambda>(more, seq''). (texts @ more, seq'')) (forward_live fw rest seq'))"

text \<open>
  The part of the task before the live loop, once the shard is READY: the messages, the sequence
  number, the position of the receiver and the state.
\<close>

definition forward_start ::
  "json_lib \<Rightarrow> registry \<Rightarrow> forward_args \<Rightarrow> usize \<Rightarrow> shard \<Rightarrow> json_object \<Rightarrow> inner \<Rightarrow>
     (string list \<times> usize \<times> nat \<times> inner) outcome" where
  "forward_start J r fw seq sh ready_payload st =
     obind (greeting J fw ready_payload (sh_guilds sh) seq) (\<lambda>(hello, seq1).
       obind (replay_offline r fw seq1 st) (\<lambda>(replayed, seq2, st').
         Ret (hello @ replayed, seq2, subscribe sh, st')))"

section \<open>Numbering: lemmas\<close>

text \<open>
  The sequence numbers of a list of texts, as the scanner of a client of the same build would read
  them: those with a number count up from \<open>seq\<close>, the others have none.
\<close>

fun numbered_from :: "usize \<Rightarrow> string list \<Rightarrow> bool" where
  "numbered_from seq [] \<longleftrightarrow> True"
| "numbered_from seq (t # ts) \<longleftrightarrow>
     (case find_sequence t of
        None \<Rightarrow> numbered_from seq ts
      | Some info \<Rightarrow> seq_value info = seq + 1 \<and> numbered_from (seq + 1) ts)"

fun last_number :: "usize \<Rightarrow> string list \<Rightarrow> usize" where
  "last_number seq [] = seq"
| "last_number seq (t # ts) =
     (case find_sequence t of None \<Rightarrow> last_number seq ts | Some info \<Rightarrow> last_number (seq + 1) ts)"

lemma numbered_append:
  "numbered_from seq (xs @ ys) \<longleftrightarrow> numbered_from seq xs \<and> numbered_from (last_number seq xs) ys"
  by (induction xs arbitrary: seq) (auto split: option.splits)

lemma last_number_append: "last_number seq (xs @ ys) = last_number (last_number seq xs) ys"
  by (induction xs arbitrary: seq) (auto split: option.splits)

text \<open>Two texts that differ at most in their sequence number.\<close>

definition same_but_sequence :: "string \<Rightarrow> string \<Rightarrow> bool" where
  "same_but_sequence p t \<longleftrightarrow>
     (case find_sequence p of
        None \<Rightarrow> t = p
      | Some (SequenceInfo _ a b) \<Rightarrow> (\<exists>n :: usize. t = take a p @ format_uint n @ drop b p))"

lemma overwrite_scanned:
  assumes "sequence = find_sequence payload"
  shows "\<exists>text. overwrite_sequence seq payload sequence = Ret (text, last_number seq [text]) \<and>
    numbered_from seq [text] \<and> same_but_sequence payload text"
proof (cases sequence)
  case None
  then show ?thesis using assms by (simp add: overwrite_sequence_def same_but_sequence_def)
next
  case (Some info)
  obtain n a b where info: "info = SequenceInfo n a b" by (cases info)
  let ?t = "take a payload @ format_uint (seq + 1) @ drop b payload"
  have "find_sequence payload = Some (SequenceInfo n a b)" using assms Some info by simp
  then have f: "find_integer payload ''\"s\":'' = Some (n, a, b)" by (rule find_sequenceE)
  then have "a \<le> b" "is_char_boundary payload a" "is_char_boundary payload b"
    by (auto elim: find_integerE)
  then have rr: "replace_range payload a b (format_uint (seq + 1)) = Ret ?t" by simp
  have fs: "find_sequence ?t = Some (SequenceInfo (seq + 1) a (a + length (format_uint (seq + 1))))"
    using find_integer_replace [OF f _ refl, of "seq + 1"] by (simp add: find_sequence_def)
  have "overwrite_sequence seq payload sequence = Ret (?t, last_number seq [?t])"
    by (simp add: overwrite_sequence_def Some info rr fs)
  moreover have "numbered_from seq [?t]" by (simp add: fs)
  moreover have "same_but_sequence payload ?t"
    unfolding same_but_sequence_def assms [symmetric] Some info by auto
  ultimately show ?thesis by blast
qed

lemma scanned_sequence: "scanned p s g \<Longrightarrow> s = find_sequence p"
  by (auto simp: scanned_def from_json_def Let_def Option.bind_eq_Some_conv)

lemma replay_events_numbered:
  assumes "\<forall>b\<in>set evs. scanned (be_payload b) (be_sequence b) (be_guild_id b)"
  shows "\<exists>texts. replay_events r fw evs seq = Ret (texts, last_number seq texts) \<and>
    numbered_from seq texts \<and>
    list_all2 (\<lambda>b t. same_but_sequence (be_payload b) t) (filter (replays r fw) evs) texts"
  using assms
proof (induction evs arbitrary: seq)
  case Nil
  then show ?case by simp
next
  case (Cons b evs)
  show ?case
  proof (cases "replays r fw b")
    case False
    with Cons show ?thesis by simp
  next
    case True
    have "be_sequence b = find_sequence (be_payload b)" using Cons.prems by (auto intro: scanned_sequence)
    from overwrite_scanned [OF this, of seq] obtain t
      where t: "overwrite_sequence seq (be_payload b) (be_sequence b) = Ret (t, last_number seq [t])"
        "numbered_from seq [t]" "same_but_sequence (be_payload b) t" by blast
    from Cons.IH [of "last_number seq [t]"] Cons.prems obtain ts
      where "replay_events r fw evs (last_number seq [t]) = Ret (ts, last_number (last_number seq [t]) ts)"
        "numbered_from (last_number seq [t]) ts"
        "list_all2 (\<lambda>b t. same_but_sequence (be_payload b) t) (filter (replays r fw) evs) ts" by auto
    with t True show ?thesis
      using numbered_append [of seq "[t]" ts] last_number_append [of seq "[t]" ts]
      by (intro exI [of _ "t # ts"]) (simp del: numbered_from.simps last_number.simps)
  qed
qed

text \<open>What the live loop lets through.\<close>

fun passing :: "forward_args \<Rightarrow> (registry \<times> received) list \<Rightarrow> broadcast_message list" where
  "passing fw [] = []"
| "passing fw ((r, res) # rest) =
     (case res of
        Received m \<Rightarrow> if forwards r fw m then m # passing fw rest else passing fw rest
      | Lagged _ \<Rightarrow> passing fw rest)"

lemma forward_live_numbered:
  assumes "\<forall>r m. (r, Received m) \<in> set rs \<longrightarrow> scanned (bm_payload m) (bm_sequence m) (bm_guild_id m)"
  shows "\<exists>texts. forward_live fw rs seq = Ret (texts, last_number seq texts) \<and>
    numbered_from seq texts \<and>
    list_all2 (\<lambda>m t. same_but_sequence (bm_payload m) t) (passing fw rs) texts"
  using assms
proof (induction rs arbitrary: seq)
  case Nil
  then show ?case by simp
next
  case (Cons x rs)
  obtain r res where x: "x = (r, res)" by (cases x)
  have IH: "\<exists>texts. forward_live fw rs seq' = Ret (texts, last_number seq' texts) \<and>
    numbered_from seq' texts \<and>
    list_all2 (\<lambda>m t. same_but_sequence (bm_payload m) t) (passing fw rs) texts" for seq'
    using Cons by auto
  show ?case
  proof (cases "\<exists>m. res = Received m \<and> forwards r fw m")
    case False
    then have "forward_received r fw res seq = Ret ([], seq)"
      by (auto simp: forward_received_def split: received.splits)
    with False IH [of seq] show ?thesis by (auto simp: x split: received.splits)
  next
    case True
    then obtain m where m: "res = Received m" "forwards r fw m" by blast
    then have "bm_sequence m = find_sequence (bm_payload m)"
      using Cons.prems x by (auto intro: scanned_sequence)
    from overwrite_scanned [OF this, of seq] obtain t
      where t: "overwrite_sequence seq (bm_payload m) (bm_sequence m) = Ret (t, last_number seq [t])"
        "numbered_from seq [t]" "same_but_sequence (bm_payload m) t" by blast
    from IH [of "last_number seq [t]"] obtain ts
      where "forward_live fw rs (last_number seq [t]) = Ret (ts, last_number (last_number seq [t]) ts)"
        "numbered_from (last_number seq [t]) ts"
        "list_all2 (\<lambda>m t. same_but_sequence (bm_payload m) t) (passing fw rs) ts" by blast
    with t m show ?thesis
      using numbered_append [of seq "[t]" ts] last_number_append [of seq "[t]" ts]
      by (intro exI [of _ "t # ts"])
        (simp add: x forward_received_def del: numbered_from.simps last_number.simps)
  qed
qed

lemma passing_sound:
  assumes "m \<in> set (passing fw rs)"
  shows "\<exists>r. (r, Received m) \<in> set rs \<and> forwards r fw m"
  using assms
  by (induction fw rs rule: passing.induct) (auto split: received.splits if_splits)

lemma forwards_tenant:
  assumes "forwards r fw m" and "fw_authorized_guilds fw \<noteq> None" and "fw_client_id fw = Some c"
  shows "\<exists>g. bm_guild_id m = Some g \<and> client_has_guild r c g \<and> audience_admits (bm_audience m) (Some c)"
  using assms by (auto simp: forwards_def is_live_guild_def split: option.splits)

lemma replays_tenant:
  assumes "replays r fw b" and "fw_authorized_guilds fw \<noteq> None" and "fw_client_id fw = Some c"
  shows "\<exists>g. be_guild_id b = Some g \<and> client_has_guild r c g"
  using assms by (auto simp: replays_def is_live_guild_def split: option.splits)

section \<open>The greeting: lemmas\<close>

text \<open>The guilds listed in READY, and the whole greeting, as JSON.\<close>

definition ready_guild_ids :: "guild_cache \<Rightarrow> u64 set option \<Rightarrow> u64 list" where
  "ready_guild_ids gc auth =
     map cg_id (filter (\<lambda>guild. is_authorized auth (cg_id guild) \<and> cg_unavailable guild \<noteq> Some True) (gc_guilds gc))
     @ filter (is_authorized auth) (gc_unavailable_guilds gc)"

definition ready_object :: "forward_args \<Rightarrow> json_object \<Rightarrow> guild_cache \<Rightarrow> json_object" where
  "ready_object fw ready gc =
     hm_insert ''session_id'' (JStr (fw_session_id fw))
       (hm_insert ''guilds'' (JArr (map guild_id_to_json (ready_guild_ids gc (fw_authorized_guilds fw)))) ready)"

definition sent_guilds :: "forward_args \<Rightarrow> guild_cache \<Rightarrow> cached_guild list" where
  "sent_guilds fw gc = filter (\<lambda>guild. is_authorized (fw_authorized_guilds fw) (cg_id guild)) (gc_guilds gc)"

fun guild_jsons :: "guild_cache \<Rightarrow> cached_guild list \<Rightarrow> usize \<Rightarrow> json list" where
  "guild_jsons gc [] seq = []"
| "guild_jsons gc (guild # guilds) seq = guild_payload gc guild (seq + 1) # guild_jsons gc guilds (seq + 1)"

definition greeting_jsons :: "forward_args \<Rightarrow> json_object \<Rightarrow> guild_cache \<Rightarrow> usize \<Rightarrow> json list" where
  "greeting_jsons fw ready gc seq =
     dispatch_payload (JObj (ready_object fw ready gc)) ''READY'' (seq + 1)
     # guild_jsons gc (sent_guilds fw gc) (seq + 1)"

lemma guild_payloads_from_Ret:
  assumes "\<And>j. to_json_string J j \<noteq> None"
  shows "guild_payloads_from J gc gs seq =
    Ret (map (\<lambda>j. the (to_json_string J j)) (guild_jsons gc gs seq), seq + of_nat (length gs))"
proof (induction gs arbitrary: seq)
  case Nil
  then show ?case by simp
next
  case (Cons g gs)
  have "to_json_string J (guild_payload gc g (seq + 1)) \<noteq> None" by (rule assms)
  then obtain p where p: "to_json_string J (guild_payload gc g (seq + 1)) = Some p" by blast
  show ?case by (simp add: p Cons.IH add.assoc)
qed

lemma length_guild_jsons [simp]: "length (guild_jsons gc gs seq) = length gs"
  by (induction gs arbitrary: seq) auto

lemma dispatch_payload_fields [simp]:
  "json_field ''d'' (dispatch_payload d t s) = Some d"
  "json_field ''t'' (dispatch_payload d t s) = Some (JStr t)"
  "json_field ''s'' (dispatch_payload d t s) = Some (JInt (uint s))"
  by (simp_all add: dispatch_payload_def)

lemma guild_payload_s [simp]: "json_field ''s'' (guild_payload gc g s) = Some (JInt (uint s))"
  by (simp add: guild_payload_def)

lemma guild_jsons_s:
  "k < length gs \<Longrightarrow>
     json_field ''s'' (guild_jsons gc gs seq ! k) = Some (JInt (uint (seq + 1 + of_nat k)))"
proof (induction gs arbitrary: seq k)
  case Nil
  then show ?case by simp
next
  case (Cons g gs)
  show ?case
  proof (cases k)
    case (Suc j)
    with Cons.prems Cons.IH [of j "seq + 1"] show ?thesis by (simp add: add.commute add.left_commute)
  qed simp
qed

lemma greeting_jsons_s:
  assumes "k < length (greeting_jsons fw ready gc seq)"
  shows "json_field ''s'' (greeting_jsons fw ready gc seq ! k) = Some (JInt (uint (seq + 1 + of_nat k)))"
proof (cases k)
  case (Suc j)
  with assms guild_jsons_s [of j "sent_guilds fw gc" gc "seq + 1"] show ?thesis
    by (simp add: greeting_jsons_def add.commute add.left_commute)
qed (simp add: greeting_jsons_def)

lemma greeting_Ret:
  assumes "\<And>j. to_json_string J j \<noteq> None" and "fw_send_guilds fw"
  shows "greeting J fw ready gc seq =
    Ret (map (\<lambda>j. the (to_json_string J j)) (greeting_jsons fw ready gc seq),
         seq + of_nat (length (greeting_jsons fw ready gc seq)))"
proof -
  let ?ready = "dispatch_payload (JObj (ready_object fw ready gc)) ''READY'' (seq + 1)"
  have "to_json_string J ?ready \<noteq> None" by (rule assms(1))
  then obtain p where p: "to_json_string J ?ready = Some p" by blast
  then show ?thesis
    using assms(2)
    by (simp add: greeting_def get_ready_payload_def get_guild_payloads_def Let_def
        guild_payloads_from_Ret [OF assms(1)] ready_object_def ready_guild_ids_def
        greeting_jsons_def sent_guilds_def add.assoc)
qed

lemma set_ready_guild_ids:
  "set (ready_guild_ids gc auth) =
     {g. is_authorized auth g \<and>
       ((\<exists>guild\<in>set (gc_guilds gc). cg_id guild = g \<and> cg_unavailable guild \<noteq> Some True) \<or>
        g \<in> set (gc_unavailable_guilds gc))}"
  by (auto simp: ready_guild_ids_def)

end
