(* ===== verification/Demo.thy ===== *)
theory Demo
  imports Proxy_State
begin

text \<open>
  A small proxy: two shards, two guilds (7 on shard 0, 4194304 on shard 1), two multi-tenant
  clients and the bot with user id 42. The witnesses of the properties are evaluated on it.
\<close>

definition demo_config :: config where
  "demo_config =
     \<lparr>cfg_log_level = ''info'', cfg_token = ''bot'', cfg_intents = 32511, cfg_port = 7878, cfg_shards = None,
      cfg_shard_start = None, cfg_shard_end = None, cfg_activity = None, cfg_status = Online,
      cfg_backpressure = 100, cfg_validate_token = True,
      cfg_http_proxy = None, cfg_gateway_url = None,
      cfg_externally_accessible_url = ''ws://proxy'',
      cfg_cache = default_cache\<lparr>cc_voice_states := True\<rparr>, cfg_clients = []\<rparr>"

definition demo_guild :: "u64 \<Rightarrow> u64 list \<Rightarrow> cached_guild \<times> u64 list" where
  "demo_guild g channels = (\<lparr>cg_id = g, cg_unavailable = None, cg_get = (\<lambda>_. JNull)\<rparr>, channels)"

definition demo_cache :: "(cached_guild \<times> u64 list) list \<Rightarrow> (u64 \<times> u64) list \<Rightarrow> guild_cache" where
  "demo_cache guilds voice =
     empty_cache\<lparr>gc_guilds := map fst guilds,
       gc_guild_channels := map_of (map (\<lambda>(g, channels). (cg_id g, channels)) guilds),
       gc_voice_state := (\<lambda>(user, guild). if (guild, user) \<in> set voice then Some (\<lambda>_. JNull) else None)\<rparr>"

definition demo_shard :: "u32 \<Rightarrow> (cached_guild \<times> u64 list) list \<Rightarrow> (u64 \<times> u64) list \<Rightarrow> shard" where
  "demo_shard i guilds voice =
     \<lparr>sh_id = i, sh_events = [], sh_ready = Some [], sh_guilds = demo_cache guilds voice\<rparr>"

definition demo_inner :: inner where
  "demo_inner =
     \<lparr>shards = [demo_shard 0 [demo_guild 7 [70, 71]] [(7, 42)], demo_shard 1 [demo_guild 4194304 [90]] []],
      shard_count = 2, sessions = [], active_client_connections = [],
      offline_event_buffers = [], last_wake_attempts = [], client_command_windows = [],
      voice_owners = [], bot_user_id_cell = 42, upstream = []\<rparr>"

definition demo_client :: "string \<Rightarrow> u64 set \<Rightarrow> client_config" where
  "demo_client secret guilds =
     \<lparr>cl_secret = secret, cl_guilds = guilds, cl_reachable_url = None, cl_next_wake_at = None\<rparr>"

definition demo_clients :: clients where
  "demo_clients =
     [(''a'', demo_client ''sa'' {7, 4194304}), (''b'', demo_client ''sb'' {7})]"

definition demo_registry :: registry where
  "demo_registry =
     \<lparr>rg_clients = Some demo_clients, rg_db_configured = False, rg_last_sync = 0, rg_unix_now = Some 1000\<rparr>"

definition demo_owner :: "string \<Rightarrow> bool \<Rightarrow> voice_owner" where
  "demo_owner client wants =
     \<lparr>vo_client_id = client, vo_disconnected_at = None, vo_wants_voice = wants\<rparr>"

definition demo_json :: json_lib where
  "demo_json =
     \<lparr>parse_identify = (\<lambda>_. None), parse_resume = (\<lambda>_. None), parse_request_guild_members = (\<lambda>_. None),
      parse_voice_state_update = (\<lambda>_. None), parse_ready = (\<lambda>_. Some []), parse_ready_user = (\<lambda>_. None),
      parse_voice_state_event = (\<lambda>_. None), parse_object_keys = (\<lambda>_. Some {}),
      parse_value = (\<lambda>_. None), to_json_string = (\<lambda>_. Some ''{}'')\<rparr>"

lemmas demo_defs =
  demo_config_def demo_guild_def demo_cache_def demo_shard_def demo_inner_def demo_client_def demo_clients_def
  demo_registry_def demo_owner_def default_cache_def

lemma demo_cache_guilds [simp]: "gc_guilds (demo_cache guilds voice) = map fst guilds"
  by (simp add: demo_cache_def)

lemma demo_wf [simp]: "wf_inner demo_inner" "hm_wf demo_clients" "wf_registry demo_registry"
  by (simp_all add: wf_inner_def demo_inner_def demo_clients_def hm_wf_def wf_registry_def demo_registry_def)

end
