(* ===== verification/Cache_Safety.thy ===== *)
theory Cache_Safety
  imports Forwarder Demo "HOL-Library.Multiset"
begin

text \<open>
  What the greeting of a new session shows of the guild cache: nothing of other guilds, and of its
  own guilds everything but the members whose user is not cached.
\<close>

section \<open>Tenants see their own guilds only\<close>

text \<open>The ids that the sets of the guilds of \<open>A\<close> list, and the users their resources name.\<close>

definition listed :: "(u64 \<rightharpoonup> u64 list) \<Rightarrow> u64 set \<Rightarrow> u64 set" where
  "listed ids A = (\<Union>g\<in>A. case ids g of None \<Rightarrow> {} | Some l \<Rightarrow> set l)"

definition named_users :: "guild_cache \<Rightarrow> u64 set \<Rightarrow> u64 set" where
  "named_users gc A =
     {u. \<exists>e \<in> listed (gc_guild_emojis gc) A. \<exists>x. gc_emoji gc e = Some x \<and> ce_user_id x = Some u} \<union>
     {u. \<exists>s \<in> listed (gc_guild_stickers gc) A. \<exists>x. gc_sticker gc s = Some x \<and> cs_user_id x = Some u} \<union>
     {u. \<exists>g \<in> A. \<exists>k x. gc_member gc (g, k) = Some x \<and> cm_user_id x = u}"

text \<open>The cache of a proxy that knows the guilds of \<open>A\<close> and no others.\<close>

definition tenant_cache :: "u64 set \<Rightarrow> guild_cache \<Rightarrow> guild_cache" where
  "tenant_cache A gc =
     \<lparr>gc_guilds = filter (\<lambda>guild. cg_id guild \<in> A) (gc_guilds gc),
      gc_unavailable_guilds = filter (\<lambda>g. g \<in> A) (gc_unavailable_guilds gc),
      gc_guild_channels = gc_guild_channels gc |` A,
      gc_guild_presences = gc_guild_presences gc |` A,
      gc_guild_emojis = gc_guild_emojis gc |` A,
      gc_guild_members = gc_guild_members gc |` A,
      gc_guild_roles = gc_guild_roles gc |` A,
      gc_scheduled_events = gc_scheduled_events gc |` A,
      gc_guild_stage_instances = gc_guild_stage_instances gc |` A,
      gc_guild_stickers = gc_guild_stickers gc |` A,
      gc_guild_voice_states = gc_guild_voice_states gc |` A,
      gc_channel = gc_channel gc |` listed (gc_guild_channels gc) A,
      gc_presence = gc_presence gc |` (A \<times> UNIV),
      gc_emoji = gc_emoji gc |` listed (gc_guild_emojis gc) A,
      gc_member = gc_member gc |` (A \<times> UNIV),
      gc_role = gc_role gc |` listed (gc_guild_roles gc) A,
      gc_scheduled_event = gc_scheduled_event gc |` listed (gc_scheduled_events gc) A,
      gc_stage_instance = gc_stage_instance gc |` listed (gc_guild_stage_instances gc) A,
      gc_sticker = gc_sticker gc |` listed (gc_guild_stickers gc) A,
      gc_user = gc_user gc |` named_users gc A,
      gc_voice_state = gc_voice_state gc |` (UNIV \<times> A)\<rparr>"

lemma listedI: "g \<in> A \<Longrightarrow> ids g = Some l \<Longrightarrow> i \<in> set l \<Longrightarrow> i \<in> listed ids A"
  by (force simp: listed_def)

lemma named_users_emoji:
  "e \<in> listed (gc_guild_emojis gc) A \<Longrightarrow> gc_emoji gc e = Some x \<Longrightarrow> ce_user_id x = Some u \<Longrightarrow>
     u \<in> named_users gc A"
  unfolding named_users_def by blast

lemma named_users_sticker:
  "s \<in> listed (gc_guild_stickers gc) A \<Longrightarrow> gc_sticker gc s = Some x \<Longrightarrow> cs_user_id x = Some u \<Longrightarrow>
     u \<in> named_users gc A"
  unfolding named_users_def by blast

lemma named_users_member:
  "g \<in> A \<Longrightarrow> gc_member gc (g, k) = Some x \<Longrightarrow> cm_user_id x \<in> named_users gc A"
  unfolding named_users_def by blast

lemma tenant_member: "g \<in> A \<Longrightarrow> member (tenant_cache A gc) g u = member gc g u"
  by (cases "gc_member gc (g, u)") (auto simp: member_def tenant_cache_def Let_def dest: named_users_member)

lemma tenant_emoji:
  assumes "e \<in> listed (gc_guild_emojis gc) A"
  shows "emoji_json (tenant_cache A gc) e = emoji_json gc e"
proof (cases "gc_emoji gc e")
  case (Some x)
  with assms named_users_emoji [OF assms Some] show ?thesis
    by (cases "ce_user_id x") (simp_all add: emoji_json_def tenant_cache_def)
qed (use assms in \<open>simp add: emoji_json_def tenant_cache_def\<close>)

lemma tenant_sticker:
  assumes "s \<in> listed (gc_guild_stickers gc) A"
  shows "sticker_json (tenant_cache A gc) s = sticker_json gc s"
proof (cases "gc_sticker gc s")
  case (Some x)
  with assms named_users_sticker [OF assms Some] show ?thesis
    by (cases "cs_user_id x") (simp_all add: sticker_json_def tenant_cache_def)
qed (use assms in \<open>simp add: sticker_json_def tenant_cache_def\<close>)

lemma tenant_index:
  assumes "g \<in> A"
  shows "gc_guild_channels (tenant_cache A gc) g = gc_guild_channels gc g"
    "gc_guild_presences (tenant_cache A gc) g = gc_guild_presences gc g"
    "gc_guild_emojis (tenant_cache A gc) g = gc_guild_emojis gc g"
    "gc_guild_members (tenant_cache A gc) g = gc_guild_members gc g"
    "gc_guild_roles (tenant_cache A gc) g = gc_guild_roles gc g"
    "gc_scheduled_events (tenant_cache A gc) g = gc_scheduled_events gc g"
    "gc_guild_stage_instances (tenant_cache A gc) g = gc_guild_stage_instances gc g"
    "gc_guild_stickers (tenant_cache A gc) g = gc_guild_stickers gc g"
    "gc_guild_voice_states (tenant_cache A gc) g = gc_guild_voice_states gc g"
  using assms by (simp_all add: tenant_cache_def)

lemma tenant_listed:
  "c \<in> listed (gc_guild_channels gc) A \<Longrightarrow> gc_channel (tenant_cache A gc) c = gc_channel gc c"
  "r \<in> listed (gc_guild_roles gc) A \<Longrightarrow> gc_role (tenant_cache A gc) r = gc_role gc r"
  "e \<in> listed (gc_scheduled_events gc) A \<Longrightarrow>
     gc_scheduled_event (tenant_cache A gc) e = gc_scheduled_event gc e"
  "i \<in> listed (gc_guild_stage_instances gc) A \<Longrightarrow>
     gc_stage_instance (tenant_cache A gc) i = gc_stage_instance gc i"
  "g \<in> A \<Longrightarrow> gc_presence (tenant_cache A gc) (g, u) = gc_presence gc (g, u)"
  "g \<in> A \<Longrightarrow> gc_voice_state (tenant_cache A gc) (u, g) = gc_voice_state gc (u, g)"
  by (simp_all add: tenant_cache_def)

lemma tenant_resources:
  assumes "g \<in> A"
  shows "channels_in_guild (tenant_cache A gc) g = channels_in_guild gc g"
    "threads_in_guild (tenant_cache A gc) g = threads_in_guild gc g"
    "presences_in_guild (tenant_cache A gc) g = presences_in_guild gc g"
    "emojis_in_guild (tenant_cache A gc) g = emojis_in_guild gc g"
    "members_in_guild (tenant_cache A gc) g = members_in_guild gc g"
    "roles_in_guild (tenant_cache A gc) g = roles_in_guild gc g"
    "scheduled_events_in_guild (tenant_cache A gc) g = scheduled_events_in_guild gc g"
    "stage_instances_in_guild (tenant_cache A gc) g = stage_instances_in_guild gc g"
    "stickers_in_guild (tenant_cache A gc) g = stickers_in_guild gc g"
    "voice_states_in_guild (tenant_cache A gc) g = voice_states_in_guild gc g"
  unfolding channels_in_guild_def threads_in_guild_def presences_in_guild_def emojis_in_guild_def
    members_in_guild_def roles_in_guild_def scheduled_events_in_guild_def stage_instances_in_guild_def
    stickers_in_guild_def voice_states_in_guild_def
  using assms
  by (intro collect_ids_cong;
      simp add: tenant_index tenant_listed listedI tenant_emoji tenant_sticker tenant_member)+

lemma tenant_payload:
  "cg_id guild \<in> A \<Longrightarrow> guild_payload (tenant_cache A gc) guild s = guild_payload gc guild s"
  unfolding guild_payload_def new_guild_def by (simp only: tenant_resources)

lemma tenant_payloads:
  "\<forall>guild\<in>set guilds. cg_id guild \<in> A \<Longrightarrow>
     guild_payloads_from J (tenant_cache A gc) guilds seq = guild_payloads_from J gc guilds seq"
proof (induction guilds arbitrary: seq)
  case (Cons guild guilds)
  then have "guild_payload (tenant_cache A gc) guild (seq + 1) = guild_payload gc guild (seq + 1)"
    by (intro tenant_payload) simp
  with Cons show ?case by (simp cong: option.case_cong)
qed simp

lemma is_authorized_Some [simp]: "is_authorized (Some A) = (\<lambda>g. g \<in> A)"
  by (simp add: is_authorized_def fun_eq_iff)

text \<open>C9: the greeting of a session that is authorized for the guilds of \<open>A\<close> is what a proxy would send
  whose cache holds those guilds and nothing else: no guild, channel, member, user or other cached
  resource beyond them has an influence on any byte of it.\<close>

theorem greeting_noninterference:
  "greeting J (fw\<lparr>fw_authorized_guilds := Some A\<rparr>) ready gc seq =
     greeting J (fw\<lparr>fw_authorized_guilds := Some A\<rparr>) ready (tenant_cache A gc) seq"
proof -
  have guilds: "gc_guilds (tenant_cache A gc) = filter (\<lambda>guild. cg_id guild \<in> A) (gc_guilds gc)"
    and unavailable: "gc_unavailable_guilds (tenant_cache A gc) = filter (\<lambda>g. g \<in> A) (gc_unavailable_guilds gc)"
    by (simp_all add: tenant_cache_def)
  have "get_ready_payload (tenant_cache A gc) ready seq (Some A) = get_ready_payload gc ready seq (Some A)"
    by (simp add: get_ready_payload_def guilds unavailable conj_commute conj_left_commute)
  moreover have "get_guild_payloads J (tenant_cache A gc) s (Some A) = get_guild_payloads J gc s (Some A)" for s
    by (simp add: get_guild_payloads_def guilds tenant_payloads)
  ultimately show ?thesis by (simp add: greeting_def)
qed

section \<open>What the greeting shows of its own guilds\<close>














end
