(* ===== verification/Config_Load.thy ===== *)
theory Config_Load
  imports Config_Model
begin

text \<open>
  How \<open>src/config.rs\<close> makes a \<open>Config\<close> of a JSON text: what its \<open>Deserialize\<close> attributes require,
  default or refuse, where the text comes from, and the task that reloads the log level when the
  file changes. The JSON library is a parameter: it turns a text into the fields that are present.
\<close>

section \<open>The fields that are present\<close>

record raw_client =
  rcl_secret :: "string option"
  rcl_guilds :: "guild_id_entry list option"
  rcl_reachable_url :: "string option"

type_synonym raw_cache = "string \<Rightarrow> bool option"

record raw_config =
  rc_log_level :: "string option"
  rc_token :: "string option"
  rc_intents :: "u64 option"
  rc_port :: "u16 option"
  rc_shards :: "u32 option"
  rc_shard_start :: "u32 option"
  rc_shard_end :: "u32 option"
  rc_activity :: "activity option"
  rc_status :: "status option"
  rc_backpressure :: "usize option"
  rc_validate_token :: "bool option"
  rc_http_proxy :: "string option"
  rc_gateway_url :: "string option"
  rc_externally_accessible_url :: "string option"
  rc_cache :: "raw_cache option"
  rc_clients :: "(string \<times> raw_client) list option"

datatype parse_error = Syntax string | MissingField string | InvalidGuildId

datatype level_filter = OFF | ERROR | WARN | INFO | DEBUG | TRACE

text \<open>\<open>parse_level\<close> is \<open>LevelFilter::from_str\<close> of the tracing library.\<close>

record config_lib =
  parse_config :: "string \<Rightarrow> parse_error + raw_config"
  parse_level :: "string \<Rightarrow> level_filter option"

section \<open>Defaults and required fields\<close>

definition or_else :: "'a option \<Rightarrow> 'a \<Rightarrow> 'a" where
  "or_else v d = (case v of None \<Rightarrow> d | Some x \<Rightarrow> x)"

definition required :: "string \<Rightarrow> 'a option \<Rightarrow> parse_error + 'a" where
  "required name v = (case v of None \<Rightarrow> Inl (MissingField name) | Some x \<Rightarrow> Inr x)"

definition cache_fields :: "string list" where
  "cache_fields =
     [''channels'', ''presences'', ''emojis'', ''current_member'', ''members'', ''roles'', ''scheduled_events'',
      ''stage_instances'', ''stickers'', ''users'', ''voice_states'']"

text \<open>No field of \<open>Cache\<close> has a default of its own.\<close>

definition cache_of_raw :: "raw_cache \<Rightarrow> parse_error + cache_config" where
  "cache_of_raw raw =
     (case List.find (\<lambda>name. raw name = None) cache_fields of
        Some name \<Rightarrow> Inl (MissingField name)
      | None \<Rightarrow> let f = (\<lambda>name. the (raw name)) in Inr
          \<lparr>cc_channels = f ''channels'', cc_presences = f ''presences'', cc_emojis = f ''emojis'',
           cc_current_member = f ''current_member'', cc_members = f ''members'', cc_roles = f ''roles'',
           cc_scheduled_events = f ''scheduled_events'', cc_stage_instances = f ''stage_instances'',
           cc_stickers = f ''stickers'', cc_users = f ''users'', cc_voice_states = f ''voice_states''\<rparr>)"

text \<open>\<open>next_wake_at\<close> is skipped: only the database sets it.\<close>

definition client_of_raw :: "raw_client \<Rightarrow> parse_error + client_config" where
  "client_of_raw raw =
     (case (case rcl_guilds raw of None \<Rightarrow> Some {} | Some ids \<Rightarrow> deserialize_guild_ids ids) of
        None \<Rightarrow> Inl InvalidGuildId
      | Some guilds \<Rightarrow>
          (case required ''secret'' (rcl_secret raw) of
             Inl e \<Rightarrow> Inl e
           | Inr secret \<Rightarrow> Inr
               \<lparr>cl_secret = secret, cl_guilds = guilds, cl_reachable_url = rcl_reachable_url raw,
                cl_next_wake_at = None\<rparr>))"

fun clients_of_raw ::
  "(string \<times> raw_client) list \<Rightarrow> (string, client_config) hmap \<Rightarrow> parse_error + (string, client_config) hmap" where
  "clients_of_raw [] clients = Inr clients"
| "clients_of_raw ((client_id, raw) # raws) clients =
     (case client_of_raw raw of
        Inl e \<Rightarrow> Inl e
      | Inr client \<Rightarrow> clients_of_raw raws (hm_insert client_id client clients))"

text \<open>\<open>exit(1)\<close> is the value \<^term>\<open>None\<close>.\<close>

definition token_fallback :: "string option \<Rightarrow> string option" where
  "token_fallback token_var = token_var"

text \<open>
  The derived \<open>Deserialize\<close>: the nested values are read while the object is visited, then the missing
  fields are filled in, in the order of the declaration.
\<close>

definition config_of_raw :: "string option \<Rightarrow> raw_config \<Rightarrow> (parse_error + config) option" where
  "config_of_raw token_var raw =
     (case (case rc_cache raw of None \<Rightarrow> Inr default_cache | Some c \<Rightarrow> cache_of_raw c) of
        Inl e \<Rightarrow> Some (Inl e)
      | Inr cache \<Rightarrow>
     (case clients_of_raw (or_else (rc_clients raw) []) [] of
        Inl e \<Rightarrow> Some (Inl e)
      | Inr clients \<Rightarrow>
     (case (case rc_token raw of None \<Rightarrow> token_fallback token_var | Some t \<Rightarrow> Some t) of
        None \<Rightarrow> None
      | Some token \<Rightarrow>
     (case required ''intents'' (rc_intents raw) of
        Inl e \<Rightarrow> Some (Inl e)
      | Inr intents \<Rightarrow>
     (case required ''externally_accessible_url'' (rc_externally_accessible_url raw) of
        Inl e \<Rightarrow> Some (Inl e)
      | Inr url \<Rightarrow> Some (Inr
          \<lparr>cfg_log_level = or_else (rc_log_level raw) default_log_level, cfg_token = token,
           cfg_intents = intents, cfg_port = or_else (rc_port raw) default_port,
           cfg_shards = rc_shards raw, cfg_shard_start = rc_shard_start raw,
           cfg_shard_end = rc_shard_end raw, cfg_activity = rc_activity raw,
           cfg_status = or_else (rc_status raw) default_status,
           cfg_backpressure = or_else (rc_backpressure raw) default_backpressure,
           cfg_validate_token = or_else (rc_validate_token raw) default_validate_token,
           cfg_http_proxy = rc_http_proxy raw, cfg_gateway_url = rc_gateway_url raw,
           cfg_externally_accessible_url = url, cfg_cache = cache, cfg_clients = clients\<rparr>))))))"

section \<open>Where the text comes from\<close>

datatype config_error = InvalidConfig parse_error | NotFound string

definition load_from_str ::
  "config_lib \<Rightarrow> string option \<Rightarrow> string \<Rightarrow> (config_error + config) option" where
  "load_from_str L token_var json =
     (case parse_config L json of
        Inl e \<Rightarrow> Some (Inl (InvalidConfig e))
      | Inr raw \<Rightarrow>
          map_option (\<lambda>result. case result of Inl e \<Rightarrow> Inl (InvalidConfig e) | Inr cfg \<Rightarrow> Inr cfg)
            (config_of_raw token_var raw))"

text \<open>\<open>read\<close> is the content of the file at a path, if it can be read.\<close>

definition load ::
  "config_lib \<Rightarrow> string option \<Rightarrow> (string \<Rightarrow> string option) \<Rightarrow> string \<Rightarrow> (config_error + config) option" where
  "load L token_var read path =
     (case read path of
        None \<Rightarrow> Some (Inl (NotFound path))
      | Some content \<Rightarrow> load_from_str L token_var content)"

text \<open>The static \<open>CONFIG\<close> exits the process on every error.\<close>

definition config_static ::
  "config_lib \<Rightarrow> string option \<Rightarrow> (string \<Rightarrow> string option) \<Rightarrow> string option \<Rightarrow> config option" where
  "config_static L token_var read config_var =
     (case (case config_var of
              Some config_json \<Rightarrow> load_from_str L token_var config_json
            | None \<Rightarrow> load L token_var read ''config.json'') of
        Some (Inr cfg) \<Rightarrow> Some cfg
      | _ \<Rightarrow> None)"

section \<open>Reloading the log level\<close>

definition level_of :: "config_lib \<Rightarrow> config \<Rightarrow> level_filter" where
  "level_of L cfg = or_else (parse_level L (cfg_log_level cfg)) INFO"

text \<open>
  One element of \<open>contents\<close> per modification event: the content of \<open>config.json\<close> when the task reads
  it. The result is the level filter at the end, \<^term>\<open>None\<close> if the process exited.
\<close>

fun reload_log_level ::
  "config_lib \<Rightarrow> string option \<Rightarrow> string option list \<Rightarrow> level_filter \<Rightarrow> level_filter option" where
  "reload_log_level L token_var [] level = Some level"
| "reload_log_level L token_var (content # contents) level =
     (case load L token_var (\<lambda>_. content) ''config.json'' of
        None \<Rightarrow> None
      | Some (Inr cfg) \<Rightarrow> reload_log_level L token_var contents (level_of L cfg)
      | Some (Inl _) \<Rightarrow> reload_log_level L token_var contents level)"

definition watch_config_changes ::
  "bool \<Rightarrow> bool \<Rightarrow> config_lib \<Rightarrow> string option \<Rightarrow> string option list \<Rightarrow> level_filter \<Rightarrow> level_filter option" where
  "watch_config_changes init_ok add_ok L token_var contents level =
     (if \<not> init_ok \<or> \<not> add_ok then Some level else reload_log_level L token_var contents level)"

section \<open>Lemmas\<close>

lemma or_else_simps [simp]: "or_else None d = d" "or_else (Some x) d = x"
  by (simp_all add: or_else_def)

lemma required_simps [simp]:
  "required name None = Inl (MissingField name)" "required name (Some x) = Inr x"
  by (simp_all add: required_def)

text \<open>The nested values of a configuration that can be read.\<close>

definition raw_ok :: "raw_config \<Rightarrow> bool" where
  "raw_ok raw \<longleftrightarrow>
     (\<forall>c. rc_cache raw = Some c \<longrightarrow> (\<forall>name \<in> set cache_fields. c name \<noteq> None)) \<and>
     (\<forall>(client_id, cl) \<in> set (or_else (rc_clients raw) []). rcl_secret cl \<noteq> None \<and>
       (\<forall>ids. rcl_guilds cl = Some ids \<longrightarrow> deserialize_guild_ids ids \<noteq> None))"

lemma cache_of_raw_Inr: "(\<exists>c. cache_of_raw raw = Inr c) \<longleftrightarrow> (\<forall>name \<in> set cache_fields. raw name \<noteq> None)"
  by (auto simp: cache_of_raw_def Let_def find_None_iff find_Some_iff split: option.split dest: nth_mem)

lemma client_of_raw_Inr:
  "(\<exists>c. client_of_raw raw = Inr c) \<longleftrightarrow>
     rcl_secret raw \<noteq> None \<and> (\<forall>ids. rcl_guilds raw = Some ids \<longrightarrow> deserialize_guild_ids ids \<noteq> None)"
  by (cases "rcl_secret raw") (auto simp: client_of_raw_def split: option.splits)

lemma clients_of_raw_Inr:
  "(\<exists>c. clients_of_raw raws clients = Inr c) \<longleftrightarrow> (\<forall>(client_id, raw) \<in> set raws. \<exists>c. client_of_raw raw = Inr c)"
  by (induction raws clients rule: clients_of_raw.induct) (auto split: sum.splits)

lemma config_of_raw_None:
  "config_of_raw token_var raw = None \<longleftrightarrow> raw_ok raw \<and> rc_token raw = None \<and> token_var = None"
proof -
  have "(\<exists>c. (case rc_cache raw of None \<Rightarrow> Inr default_cache | Some c \<Rightarrow> cache_of_raw c) = Inr c) \<longleftrightarrow>
      (\<forall>c. rc_cache raw = Some c \<longrightarrow> (\<forall>name \<in> set cache_fields. c name \<noteq> None))"
    by (cases "rc_cache raw") (simp_all add: cache_of_raw_Inr)
  moreover have "(\<exists>c. clients_of_raw (or_else (rc_clients raw) []) [] = Inr c) \<longleftrightarrow>
      (\<forall>(client_id, cl) \<in> set (or_else (rc_clients raw) []). rcl_secret cl \<noteq> None \<and>
       (\<forall>ids. rcl_guilds cl = Some ids \<longrightarrow> deserialize_guild_ids ids \<noteq> None))"
    by (simp only: clients_of_raw_Inr client_of_raw_Inr)
  ultimately show ?thesis
    by (cases "case rc_cache raw of None \<Rightarrow> Inr default_cache | Some c \<Rightarrow> cache_of_raw c";
        cases "clients_of_raw (or_else (rc_clients raw) []) []")
      (auto simp: config_of_raw_def raw_ok_def token_fallback_def required_def split: option.splits)
qed

end
