(* ===== verification/Config_Safety.thy ===== *)
theory Config_Safety
  imports Config_Load
begin

text \<open>What a change of the configuration file does to the running process.\<close>






section \<open>The configurations of the documentation\<close>

definition empty_raw :: raw_config where
  "empty_raw =
     \<lparr>rc_log_level = None, rc_token = None, rc_intents = None, rc_port = None, rc_shards = None,
      rc_shard_start = None, rc_shard_end = None, rc_activity = None, rc_status = None,
      rc_backpressure = None, rc_validate_token = None, rc_http_proxy = None, rc_gateway_url = None,
      rc_externally_accessible_url = None, rc_cache = None, rc_clients = None\<rparr>"

text \<open>\<open>config.example.json\<close> sets no \<open>externally_accessible_url\<close>, which has no default.\<close>

definition example_raw :: raw_config where
  "example_raw = empty_raw\<lparr>rc_log_level := Some ''info'', rc_token := Some [], rc_intents := Some 33409,
     rc_cache := Some (\<lambda>name. if name \<in> set cache_fields then Some False else None)\<rparr>"

lemma example_config_refused:
  "config_of_raw token_var example_raw = Some (Inl (MissingField ''externally_accessible_url''))"
  by (simp add: config_of_raw_def example_raw_def empty_raw_def cache_of_raw_def cache_fields_def Let_def)

text \<open>The multi-tenant example of the README sets three of the eleven fields of \<open>cache\<close>.\<close>

definition readme_raw :: raw_config where
  "readme_raw = empty_raw\<lparr>rc_token := Some ''YOUR_BOT_TOKEN'', rc_intents := Some 32511, rc_port := Some 7878,
     rc_externally_accessible_url := Some ''ws://proxy.internal:7878'',
     rc_cache := Some (\<lambda>name. if name \<in> {''channels'', ''roles'', ''members''} then Some True else None)\<rparr>"

lemma readme_config_refused:
  "config_of_raw token_var readme_raw = Some (Inl (MissingField ''presences''))"
  by (simp add: config_of_raw_def readme_raw_def empty_raw_def cache_of_raw_def cache_fields_def)

end
