(* ===== verification/Commands.thy ===== *)
theory Commands
  imports Voice_Lock
begin

text \<open>
  \<open>filter_client_command\<close> of \<open>src/server.rs\<close>: what a multi-tenant client may send on the shared bot
  session. A command that passes is rebuilt from the parsed fields.
\<close>

section \<open>The filter\<close>

datatype client_command =
    Forward u64 string
  | Voice u64 "u64 option" string
  | Drop string

text \<open>The guild id, the channel id of a voice command, and the rebuilt command.\<close>

definition command_parts ::
  "json_lib \<Rightarrow> u8 \<Rightarrow> string \<Rightarrow> string + (string \<times> string option option \<times> string option)" where
  "command_parts J opcode payload =
     (if opcode = 8 then
        (case parse_request_guild_members J payload of
           None \<Rightarrow> Inl ''invalid request guild members payload''
         | Some d \<Rightarrow>
             Inr (rgm_guild_id d, None, to_json_string J (outgoing_command opcode (request_guild_members_json d))))
      else if opcode = 4 then
        (case parse_voice_state_update J payload of
           None \<Rightarrow> Inl ''invalid voice state update payload''
         | Some d \<Rightarrow>
             Inr (vsu_guild_id d, Some (vsu_channel_id d),
                  to_json_string J (outgoing_command opcode (voice_state_update_json d))))
      else Inl ''opcode not allowed for multi-tenant clients'')"

definition filter_client_command :: "json_lib \<Rightarrow> u8 \<Rightarrow> string \<Rightarrow> u64 set \<Rightarrow> client_command" where
  "filter_client_command J opcode payload authorized_guilds =
     (case command_parts J opcode payload of
        Inl reason \<Rightarrow> Drop reason
      | Inr (guild_id, channel_id, serialized) \<Rightarrow>
          (case parse_uint guild_id of
             None \<Rightarrow> Drop ''invalid guild_id''
           | Some guild \<Rightarrow>
               if guild \<notin> authorized_guilds then Drop ''guild not authorized''
               else
                 (case serialized of
                    None \<Rightarrow> Drop ''failed to serialize command''
                  | Some command \<Rightarrow>
                      if length command \<le> 4096
                      then
                        (case channel_id of
                           None \<Rightarrow> Forward guild command
                         | Some None \<Rightarrow> Voice guild None command
                         | Some (Some channel) \<Rightarrow>
                             (case parse_uint channel of
                                Some channel' \<Rightarrow> Voice guild (Some channel') command
                              | None \<Rightarrow> Drop ''invalid channel_id''))
                      else Drop ''command exceeds gateway payload limit'')))"

section \<open>Lemmas\<close>

text \<open>The guild and the text of a command that is not dropped.\<close>

definition command_of :: "client_command \<Rightarrow> (u64 \<times> u64 option option \<times> string) option" where
  "command_of c =
     (case c of
        Forward guild command \<Rightarrow> Some (guild, None, command)
      | Voice guild channel command \<Rightarrow> Some (guild, Some channel, command)
      | Drop _ \<Rightarrow> None)"

lemma command_of_simps [simp]:
  "command_of (Forward g t) = Some (g, None, t)"
  "command_of (Voice g c t) = Some (g, Some c, t)"
  "command_of (Drop reason) = None"
  by (simp_all add: command_of_def)

lemma command_parts_cases:
  assumes "command_parts J opcode payload = Inr (guild_id, channel_id, serialized)"
  obtains (members) d where "opcode = 8" and "parse_request_guild_members J payload = Some d"
      and "guild_id = rgm_guild_id d" and "channel_id = None"
      and "serialized = to_json_string J (outgoing_command opcode (request_guild_members_json d))"
    | (voice) d where "opcode = 4" and "parse_voice_state_update J payload = Some d"
      and "guild_id = vsu_guild_id d" and "channel_id = Some (vsu_channel_id d)"
      and "serialized = to_json_string J (outgoing_command opcode (voice_state_update_json d))"
  using assms by (auto simp: command_parts_def split: if_splits option.splits)

lemma filter_client_commandD:
  assumes "command_of (filter_client_command J opcode payload guilds) = Some (g, ch, command)"
  obtains guild_id channel_id
  where "command_parts J opcode payload = Inr (guild_id, channel_id, Some command)"
    and "parse_uint guild_id = Some g" and "g \<in> guilds" and "length command \<le> 4096"
    and "ch = None \<and> channel_id = None \<or> ch = Some None \<and> channel_id = Some None \<or>
      (\<exists>c c'. ch = Some (Some c') \<and> channel_id = Some (Some c) \<and> parse_uint c = Some c')"
  using assms
  by (auto simp: filter_client_command_def split: sum.splits prod.splits option.splits if_splits)

text \<open>What a rebuilt command says.\<close>

definition command_keys :: "u8 \<Rightarrow> string set" where
  "command_keys opcode =
     (if opcode = 8 then {''guild_id'', ''query'', ''limit'', ''presences'', ''user_ids'', ''nonce''}
      else {''guild_id'', ''channel_id'', ''self_mute'', ''self_deaf''})"

definition rebuilt :: "json_lib \<Rightarrow> u8 \<Rightarrow> u64 \<Rightarrow> string \<Rightarrow> bool" where
  "rebuilt J opcode g command \<longleftrightarrow>
     (\<exists>d guild_id. to_json_string J (outgoing_command opcode d) = Some command \<and>
        set (json_keys d) \<subseteq> command_keys opcode \<and> distinct (json_keys d) \<and>
        json_field ''guild_id'' d = Some (JStr guild_id) \<and> parse_uint guild_id = Some g)"

lemma filter_rebuilt:
  assumes "command_of (filter_client_command J opcode payload guilds) = Some (g, ch, command)"
  shows "rebuilt J opcode g command" and "opcode \<in> {4, 8}" and "opcode = 4 \<longleftrightarrow> ch \<noteq> None"
proof -
  obtain guild_id channel_id
    where parts: "command_parts J opcode payload = Inr (guild_id, channel_id, Some command)"
      and g: "parse_uint guild_id = Some g"
      and ch: "ch = None \<and> channel_id = None \<or> ch = Some None \<and> channel_id = Some None \<or>
      (\<exists>c c'. ch = Some (Some c') \<and> channel_id = Some (Some c) \<and> parse_uint c = Some c')"
    using assms by (rule filter_client_commandD)
  have "rebuilt J opcode g command \<and> opcode \<in> {4, 8} \<and> (opcode = 4 \<longleftrightarrow> ch \<noteq> None)"
    using parts
  proof (cases rule: command_parts_cases)
    case (members d)
    have "rebuilt J opcode g command"
      unfolding rebuilt_def
    proof (intro exI conjI)
      show "to_json_string J (outgoing_command opcode (request_guild_members_json d)) = Some command"
        using members(5) by simp
      show "set (json_keys (request_guild_members_json d)) \<subseteq> command_keys opcode"
        using request_guild_members_json_keys [of d] members(1) by (simp add: command_keys_def)
      show "parse_uint (rgm_guild_id d) = Some g" using g members(3) by simp
    qed (simp_all add: request_guild_members_json_distinct)
    with members(1,4) ch show ?thesis by auto
  next
    case (voice d)
    have "rebuilt J opcode g command"
      unfolding rebuilt_def
    proof (intro exI conjI)
      show "to_json_string J (outgoing_command opcode (voice_state_update_json d)) = Some command"
        using voice(5) by simp
      show "set (json_keys (voice_state_update_json d)) \<subseteq> command_keys opcode"
        using voice(1) by (simp add: voice_state_update_json_keys command_keys_def)
      show "parse_uint (vsu_guild_id d) = Some g" using g voice(3) by simp
    qed (simp_all add: voice_state_update_json_keys)
    with voice(1,4) ch show ?thesis by auto
  qed
  then show "rebuilt J opcode g command" and "opcode \<in> {4, 8}" and "opcode = 4 \<longleftrightarrow> ch \<noteq> None"
    by blast+
qed

end
