(* ===== verification/Sessions.thy ===== *)
theory Sessions
  imports Proxy_State
begin

text \<open>
  The session table of \<open>src/state.rs\<close>: \<open>prune_expired_sessions\<close>, \<open>get_session\<close> and
  \<open>create_session\<close>. The contract RESUME relies on is the locale \<^theory_text>\<open>session_store\<close>.
\<close>

section \<open>Operations\<close>

definition session_live :: "instant \<Rightarrow> session \<Rightarrow> bool" where
  "session_live now s \<longleftrightarrow> duration_since now (ss_last_accessed s) \<le> SESSION_TTL"

definition prune_expired_sessions :: "instant \<Rightarrow> (string, session) hmap \<Rightarrow> (string, session) hmap" where
  "prune_expired_sessions now m = hm_retain (\<lambda>_ s. session_live now s) m"

text \<open>The clock is read once per call; the source reads it twice in a row.\<close>

definition get_session :: "instant \<Rightarrow> string \<Rightarrow> inner \<Rightarrow> session option \<times> inner" where
  "get_session now session_id st =
     (let m = prune_expired_sessions now (sessions st) in
      case hm_get m session_id of
        None \<Rightarrow> (None, st\<lparr>sessions := m\<rparr>)
      | Some s \<Rightarrow>
          let s' = s\<lparr>ss_last_accessed := now\<rparr>
          in (Some s', st\<lparr>sessions := hm_insert session_id s' m\<rparr>))"

text \<open>
  The loop of \<open>create_session\<close> draws ids until one is free. \<open>rnd\<close> is the sequence of ids the
  random generator would produce; the loop does not end if all of them are taken.
\<close>

partial_function (option) fresh_session_id ::
  "(nat \<Rightarrow> string) \<Rightarrow> nat \<Rightarrow> (string, session) hmap \<Rightarrow> string option" where
  "fresh_session_id rnd i m =
     (if hm_contains m (rnd i) then fresh_session_id rnd (Suc i) m else Some (rnd i))"

declare fresh_session_id.simps [code]

definition create_session ::
  "instant \<Rightarrow> (nat \<Rightarrow> string) \<Rightarrow> session \<Rightarrow> inner \<Rightarrow> (string \<times> inner) outcome" where
  "create_session now rnd s st =
     (let m = prune_expired_sessions now (sessions st) in
      case fresh_session_id rnd 0 m of
        None \<Rightarrow> Diverge
      | Some session_id \<Rightarrow> Ret (session_id, st\<lparr>sessions := hm_insert session_id s m\<rparr>))"

section \<open>Lemmas\<close>

lemma fresh_session_id_fresh:
  assumes "fresh_session_id rnd i m = Some sid"
  shows "hm_get m sid = None \<and> (\<exists>j\<ge>i. sid = rnd j)"
proof (rule fresh_session_id.raw_induct
    [where P = "\<lambda>rnd i m sid. hm_get m sid = None \<and> (\<exists>j\<ge>i. sid = rnd j)", OF _ assms])
  fix f rnd i m sid
  assume IH: "\<And>rnd i m sid. f rnd i m = Some sid \<Longrightarrow> hm_get m sid = None \<and> (\<exists>j\<ge>i. sid = rnd j)"
    and eq: "(if hm_contains m (rnd i) then f rnd (Suc i) m else Some (rnd i)) = Some sid"
  show "hm_get m sid = None \<and> (\<exists>j\<ge>i. sid = rnd j)"
  proof (cases "hm_contains m (rnd i)")
    case True
    with eq IH have "hm_get m sid = None \<and> (\<exists>j\<ge>Suc i. sid = rnd j)" by auto
    then obtain j where "hm_get m sid = None" "Suc i \<le> j" "sid = rnd j" by blast
    then show ?thesis by (intro conjI exI [of _ j]) simp_all
  next
    case False
    with eq show ?thesis by auto
  qed
qed

lemma fresh_session_id_total:
  assumes "hm_get m (rnd j) = None" and "i \<le> j"
  shows "\<exists>sid. fresh_session_id rnd i m = Some sid"
  using assms(2)
proof (induction "j - i" arbitrary: i)
  case 0
  with assms(1) show ?case by (subst fresh_session_id.simps) simp
next
  case (Suc n)
  then have "\<exists>sid. fresh_session_id rnd (Suc i) m = Some sid" by (intro Suc.hyps(1)) linarith+
  then show ?case by (subst fresh_session_id.simps) auto
qed

lemma prune_wf [simp, wf_intros]: "hm_wf m \<Longrightarrow> hm_wf (prune_expired_sessions now m)"
  by (simp add: prune_expired_sessions_def)

lemma prune_get:
  "hm_wf m \<Longrightarrow> hm_get (prune_expired_sessions now m) sid =
     (case hm_get m sid of None \<Rightarrow> None | Some s \<Rightarrow> if session_live now s then Some s else None)"
  by (simp add: prune_expired_sessions_def hm.get_retain)

lemma session_live_now [simp]: "ss_last_accessed s = now \<Longrightarrow> session_live now s"
  by (simp add: session_live_def duration_since_def)

lemma get_session_wf: "wf_inner st \<Longrightarrow> wf_inner (snd (get_session now sid st))"
  by (auto simp: get_session_def Let_def wf_inner_def split: option.splits)

lemma create_session_wf: "wf_inner st \<Longrightarrow> create_session now rnd s st = Ret (sid, st') \<Longrightarrow> wf_inner st'"
  by (auto simp: create_session_def Let_def wf_inner_def split: option.splits)

text \<open>What the two operations leave alone.\<close>

lemma get_session_frame:
  "get_session now sid st = (r, st') \<Longrightarrow> st' = st\<lparr>sessions := sessions st'\<rparr>"
  by (auto simp: get_session_def Let_def split: option.splits)

lemma create_session_frame:
  "create_session now rnd s st = Ret (sid, st') \<Longrightarrow> st' = st\<lparr>sessions := sessions st'\<rparr>"
  by (auto simp: create_session_def Let_def split: option.splits)

section \<open>The contract\<close>

locale session_store =
  fixes wf :: "'s \<Rightarrow> bool"
    and lookup :: "'s \<Rightarrow> string \<Rightarrow> session option"
    and get :: "instant \<Rightarrow> string \<Rightarrow> 's \<Rightarrow> session option \<times> 's"
    and create :: "instant \<Rightarrow> (nat \<Rightarrow> string) \<Rightarrow> session \<Rightarrow> 's \<Rightarrow> (string \<times> 's) outcome"
  assumes get_wf: "wf st \<Longrightarrow> wf (snd (get now sid st))"
    and create_wf: "wf st \<Longrightarrow> create now rnd s st = Ret (sid, st') \<Longrightarrow> wf st'"
    and get_result: "wf st \<Longrightarrow> fst (get now sid st) =
      (case lookup st sid of
         None \<Rightarrow> None
       | Some s \<Rightarrow> if session_live now s then Some (s\<lparr>ss_last_accessed := now\<rparr>) else None)"
    and get_lookup: "wf st \<Longrightarrow> lookup (snd (get now sid st)) sid' =
      (case lookup st sid' of
         None \<Rightarrow> None
       | Some s \<Rightarrow>
           if \<not> session_live now s then None
           else if sid' = sid then Some (s\<lparr>ss_last_accessed := now\<rparr>) else Some s)"
    and create_fresh: "wf st \<Longrightarrow> create now rnd s st = Ret (sid, st') \<Longrightarrow>
      lookup st sid = None \<or> (\<exists>old. lookup st sid = Some old \<and> \<not> session_live now old)"
    and create_lookup: "wf st \<Longrightarrow> create now rnd s st = Ret (sid, st') \<Longrightarrow>
      lookup st' sid' =
        (if sid' = sid then Some s
         else (case lookup st sid' of
                 None \<Rightarrow> None | Some s' \<Rightarrow> if session_live now s' then Some s' else None))"
begin

text \<open>A session that was created can be resumed until it has been idle for the TTL, not later.\<close>

lemma create_then_get:
  assumes "wf st" and "create now rnd s st = Ret (sid, st')"
  shows "fst (get later sid st') =
    (if session_live later s then Some (s\<lparr>ss_last_accessed := later\<rparr>) else None)"
  using assms by (simp add: get_result create_wf create_lookup)

text \<open>Resuming keeps a session alive for another TTL.\<close>

lemma get_refreshes:
  assumes "wf st" and "fst (get now sid st) = Some s"
    and "duration_since later now \<le> SESSION_TTL"
  shows "fst (get later sid (snd (get now sid st))) = Some (s\<lparr>ss_last_accessed := later\<rparr>)"
  using assms
  by (auto simp: get_result get_wf get_lookup session_live_def split: option.splits if_splits)

text \<open>Nobody else's operation changes a live session.\<close>

lemma create_keeps_live:
  assumes "wf st" and "create now rnd s st = Ret (sid, st')"
    and "lookup st sid' = Some s'" and "session_live now s'"
  shows "lookup st' sid' = Some s'"
  using assms create_fresh [OF assms(1,2)] by (auto simp: create_lookup)

lemma get_same_principal:
  assumes "wf st" and "fst (get now sid st) = Some s"
  shows "\<exists>s0. lookup st sid = Some s0 \<and> ss_principal s = ss_principal s0 \<and>
    ss_shard_id s = ss_shard_id s0 \<and> ss_compress s = ss_compress s0 \<and> session_live now s0"
  using assms by (auto simp: get_result split: option.splits if_splits)

end

interpretation ses: session_store wf_inner "\<lambda>st sid. hm_get (sessions st) sid" get_session create_session
proof (unfold_locales, goal_cases)
  case 1 then show ?case by (rule get_session_wf)
next
  case 2 then show ?case by (rule create_session_wf)
next
  case 3
  then show ?case
    by (auto simp: get_session_def Let_def prune_get wf_innerD split: option.splits if_splits)
next
  case 4
  then show ?case
    by (auto simp: get_session_def Let_def prune_get wf_innerD split: option.splits if_splits)
next
  case (5 st now rnd s sid st')
  then have "fresh_session_id rnd 0 (prune_expired_sessions now (sessions st)) = Some sid"
    by (auto simp: create_session_def Let_def split: option.splits)
  then have "hm_get (prune_expired_sessions now (sessions st)) sid = None"
    by (blast dest: fresh_session_id_fresh)
  with 5(1) show ?case by (auto simp: prune_get wf_innerD split: option.splits if_splits)
next
  case 6
  then show ?case
    by (auto simp: create_session_def Let_def prune_get wf_innerD split: option.splits if_splits)
qed

text \<open>Creation returns as soon as the generator yields one id that is not in use.\<close>

lemma create_session_returns:
  assumes "hm_get (prune_expired_sessions now (sessions st)) (rnd j) = None"
  shows "\<exists>sid st'. create_session now rnd s st = Ret (sid, st')"
  using fresh_session_id_total [where rnd = rnd and j = j and i = 0, OF assms] by (auto simp: create_session_def Let_def)

end
