(* ===== verification/Voice_Safety.thy ===== *)
theory Voice_Safety
  imports Voice_Lock Demo
begin

text \<open>
  What the voice owner lock promises, over every interleaving of its critical sections. The
  contract is the locale \<^theory_text>\<open>handover\<close>: an owner that wants voice keeps the guild unless
  it is made to give it up, and a guild that was given up stays with its owner until something
  shows that the bot is out of voice. The sweeper of \<open>src/main.rs\<close> is here as well.
\<close>

section \<open>The contract\<close>

locale handover =
  fixes step :: "'l \<Rightarrow> 's \<Rightarrow> 's \<Rightarrow> bool"
    and wf :: "'s \<Rightarrow> bool"
    and owner :: "'s \<Rightarrow> 'g \<Rightarrow> ('c \<times> bool) option"
    and gives_up :: "'l \<Rightarrow> 'c \<Rightarrow> 'g \<Rightarrow> bool"
    and frees :: "'l \<Rightarrow> 'g \<Rightarrow> bool"
  assumes step_wf: "wf s \<Longrightarrow> step l s t \<Longrightarrow> wf t"
    and keep_wanted: "\<lbrakk>wf s; step l s t; owner s g = Some (a, True)\<rbrakk> \<Longrightarrow>
      owner t g = Some (a, True) \<or> owner t g = Some (a, False) \<and> gives_up l a g"
    and keep_given_up: "\<lbrakk>wf s; step l s t; owner s g = Some (a, False); \<not> frees l g\<rbrakk> \<Longrightarrow>
      \<exists>w. owner t g = Some (a, w)"
begin

lemma owner_keeps:
  assumes "wf s" and "trace step ls s t" and "owner s g = Some (a, True)"
    and "\<forall>l\<in>set ls. \<not> gives_up l a g"
  shows "owner t g = Some (a, True)"
  using assms
proof (induction ls arbitrary: s)
  case Nil
  then show ?case by simp
next
  case (Cons l ls)
  then obtain m where m: "step l s m" "trace step ls m t" by auto
  have "owner m g = Some (a, True)"
    using keep_wanted [OF Cons.prems(1) m(1) Cons.prems(3)] Cons.prems(4) by auto
  then show ?case
    using Cons.IH [OF step_wf [OF Cons.prems(1) m(1)] m(2)] Cons.prems(4) by simp
qed

lemma lost_needs_free:
  assumes "wf s" and "trace step ls s t" and "owner s g = Some (a, w)"
    and "\<nexists>w. owner t g = Some (a, w)"
  shows "\<exists>l\<in>set ls. frees l g"
  using assms
proof (induction ls arbitrary: s w)
  case Nil
  then show ?case by simp
next
  case (Cons l ls)
  then obtain m where m: "step l s m" "trace step ls m t" by auto
  show ?case
  proof (cases "frees l g")
    case False
    then obtain w' where "owner m g = Some (a, w')"
      using keep_wanted [OF Cons.prems(1) m(1), of g a] keep_given_up [OF Cons.prems(1) m(1), of g a]
        Cons.prems(3) by (metis (full_types))
    then have "\<exists>l\<in>set ls. frees l g"
      using Cons.IH [OF step_wf [OF Cons.prems(1) m(1)] m(2)] Cons.prems(4) by blast
    then show ?thesis by simp
  qed simp
qed

lemma safe_handover:
  assumes "wf s" and "trace step ls s t" and "owner s g = Some (a, True)"
    and "\<nexists>w. owner t g = Some (a, w)"
  shows "\<exists>ls1 l1 ls2 l2 ls3. ls = ls1 @ [l1] @ ls2 @ [l2] @ ls3 \<and> gives_up l1 a g \<and> frees l2 g"
  using assms
proof (induction ls arbitrary: s)
  case Nil
  then show ?case by (metis trace.simps(1))
next
  case (Cons l ls)
  then obtain m where m: "step l s m" "trace step ls m t" by auto
  have wf: "wf m" by (rule step_wf [OF Cons.prems(1) m(1)])
  from keep_wanted [OF Cons.prems(1) m(1) Cons.prems(3)] show ?case
  proof
    assume "owner m g = Some (a, True)"
    then obtain ls1 l1 ls2 l2 ls3
      where "ls = ls1 @ [l1] @ ls2 @ [l2] @ ls3" "gives_up l1 a g" "frees l2 g"
      using Cons.IH [OF wf m(2)] Cons.prems(4) by blast
    then have "l # ls = (l # ls1) @ [l1] @ ls2 @ [l2] @ ls3" by simp
    with \<open>gives_up l1 a g\<close> \<open>frees l2 g\<close> show ?thesis by blast
  next
    assume given: "owner m g = Some (a, False) \<and> gives_up l a g"
    then obtain l2 where "l2 \<in> set ls" "frees l2 g"
      using lost_needs_free [OF wf m(2)] Cons.prems(4) by blast
    then obtain ls2 ls3 where "ls = ls2 @ [l2] @ ls3" by (auto dest: split_list)
    then have "l # ls = [] @ [l] @ ls2 @ [l2] @ ls3" by simp
    with given \<open>frees l2 g\<close> show ?thesis by blast
  qed
qed

end

section \<open>The steps\<close>

text \<open>
  One label per critical section that touches the owners; \<open>L_Env\<close> is every other step of the
  proxy, such as an update of the guild cache.
\<close>

datatype voice_label =
    L_Claim u64 string bool bool voice_decision
  | L_Identify string u32 "u64 list"
  | L_Bot_Left u64
  | L_Sweep instant authorized "(u64, bool) hmap" "u64 list"
  | L_Disconnected string "instant option"
  | L_Env

inductive voice_step :: "config \<Rightarrow> voice_label \<Rightarrow> inner \<Rightarrow> inner \<Rightarrow> bool" for cfg where
  claim: "\<lbrakk>bot_in_voice cfg st g = Ret b; claim_voice cfg g c joining st = Ret (d, st')\<rbrakk> \<Longrightarrow>
    voice_step cfg (L_Claim g c joining b d) st st'"
| identify: "leave_voice_for_client c sid st = Ret (gs, st') \<Longrightarrow>
    voice_step cfg (L_Identify c sid gs) st st'"
| bot_left: "voice_step cfg (L_Bot_Left g) st (on_bot_voice_leave g st)"
| sweep: "sweep_voice_owners now auth iv st = (gs, st') \<Longrightarrow>
    voice_step cfg (L_Sweep now auth iv gs) st st'"
| disconnected: "voice_step cfg (L_Disconnected c at) st (set_voice_owner_disconnected c at st)"
| env: "\<lbrakk>voice_owners st' = voice_owners st; wf_inner st'\<rbrakk> \<Longrightarrow> voice_step cfg L_Env st st'"

inductive_cases claimE: "voice_step cfg (L_Claim g c joining b d) st st'"
inductive_cases identifyE: "voice_step cfg (L_Identify c sid gs) st st'"
inductive_cases sweepE: "voice_step cfg (L_Sweep now auth iv gs) st st'"
inductive_simps bot_left_iff: "voice_step cfg (L_Bot_Left g) st st'"
inductive_simps disconnected_iff: "voice_step cfg (L_Disconnected c at) st st'"

text \<open>The owner of a guild and whether it still wants voice.\<close>

definition owner_view :: "inner \<Rightarrow> u64 \<Rightarrow> (string \<times> bool) option" where
  "owner_view st g = map_option (\<lambda>ow. (vo_client_id ow, vo_wants_voice ow)) (hm_get (voice_owners st) g)"

text \<open>A leave of its own, a fresh IDENTIFY, or the sweeper.\<close>

fun gives_up :: "voice_label \<Rightarrow> string \<Rightarrow> u64 \<Rightarrow> bool" where
  "gives_up (L_Claim g c joining b d) a g' \<longleftrightarrow> g' = g \<and> c = a \<and> \<not> joining"
| "gives_up (L_Identify c sid gs) a g' \<longleftrightarrow> c = a \<and> g' \<in> set gs"
| "gives_up (L_Sweep now auth iv gs) a g' \<longleftrightarrow> g' \<in> set gs"
| "gives_up _ a g' \<longleftrightarrow> False"

text \<open>Discord confirmed that the bot left, or the cache shows it out of voice.\<close>

fun frees :: "voice_label \<Rightarrow> u64 \<Rightarrow> bool" where
  "frees (L_Claim g c joining b d) g' \<longleftrightarrow> g' = g \<and> \<not> b"
| "frees (L_Bot_Left g) g' \<longleftrightarrow> g' = g"
| "frees (L_Sweep now auth iv gs) g' \<longleftrightarrow> hm_get iv g' = Some False"
| "frees _ g' \<longleftrightarrow> False"

lemma sweep_result_wf: "sweep_voice_owners now auth iv st = (gs, st') \<Longrightarrow> wf_inner st \<Longrightarrow> wf_inner st'"
  by (metis snd_conv sweep_wf)

lemma voice_step_wf: "wf_inner st \<Longrightarrow> voice_step cfg l st st' \<Longrightarrow> wf_inner st'"
  by (erule voice_step.cases) (auto intro: claim_voice_wf leave_voice_wf sweep_result_wf)

lemma owner_view_Some:
  "owner_view st g = Some (a, w) \<longleftrightarrow>
     (\<exists>ow. hm_get (voice_owners st) g = Some ow \<and> vo_client_id ow = a \<and> vo_wants_voice ow = w)"
  by (auto simp: owner_view_def)

lemma claim_owner_view:
  assumes "claim_voice cfg g c joining st = Ret (d, st')" and "bot_in_voice cfg st g = Ret b"
    and "owner_view st g' = Some (a, w)"
  shows "owner_view st' g' = Some (a, w) \<or>
    g' = g \<and> (c = a \<and> owner_view st' g' = Some (a, joining) \<or> \<not> w \<and> \<not> b)"
  using assms(1)
proof (rule claim_voice_cases)
  fix b' assume "bot_in_voice cfg st g = Ret b'"
    and d: "d = decide_voice_command (hm_get (voice_owners st) g) c b'"
    and st': "st' = (if d = Deny then st
       else if joining then st\<lparr>voice_owners := hm_insert g
                \<lparr>vo_client_id = c, vo_disconnected_at = None, vo_wants_voice = True\<rparr> (voice_owners st)\<rparr>
       else (case hm_get (voice_owners st) g of
                 Some ow \<Rightarrow> st\<lparr>voice_owners := hm_insert g (ow\<lparr>vo_wants_voice := False\<rparr>) (voice_owners st)\<rparr>
               | None \<Rightarrow> st))"
  then have "b' = b" using assms(2) by simp
  with d st' assms(3) show ?thesis
    by (auto simp: owner_view_Some decide_voice_command_def split: if_splits option.splits)
qed

text \<open>One step of the lock, seen from a guild that is owned.\<close>

lemma voice_step_owner:
  assumes "wf_inner st" and "voice_step cfg l st st'" and "owner_view st g = Some (a, w)"
  shows "owner_view st' g = Some (a, w) \<or>
    w \<and> owner_view st' g = Some (a, False) \<and> gives_up l a g \<or>
    \<not> w \<and> (owner_view st' g = Some (a, True) \<or> frees l g)"
  using assms(2,3)
proof (cases rule: voice_step.cases)
  case (claim g' b c joining d)
  then show ?thesis
    using claim_owner_view [OF claim(3,2) assms(3)] by (cases joining) auto
next
  case (identify c sid gs)
  have wfo: "hm_wf (voice_owners st)" using assms(1) by (rule wf_innerD)
  from assms(3) leave_voice_get [OF identify(2), of g] leave_voice_guilds [OF identify(2) wfo, of g]
  show ?thesis using identify(1)
    by (auto simp: owner_view_Some leaves_now_def)
next
  case (bot_left g')
  then show ?thesis using assms(3) on_bot_leave_get [of g' st g]
    by (auto simp: owner_view_Some split: if_splits)
next
  case (sweep now auth iv gs)
  have wfo: "hm_wf (voice_owners st)" using assms(1) by (rule wf_innerD)
  from assms(3) sweep_get [OF wfo, of now auth iv g] sweep_guilds [OF wfo, of g now auth iv] sweep
  show ?thesis by (auto simp: owner_view_Some owner_stale_def split: if_splits)
next
  case (disconnected c at)
  moreover obtain ow where "hm_get (voice_owners st) g = Some ow" "vo_client_id ow = a"
    "vo_wants_voice ow = w" using assms(3) by (auto simp: owner_view_Some)
  ultimately show ?thesis by (cases "a = c") (simp_all add: owner_view_def)
next
  case env
  then show ?thesis using assms(3) by (simp add: owner_view_def)
qed

interpretation vl: handover "voice_step cfg" wf_inner owner_view gives_up frees for cfg
proof (unfold_locales, goal_cases)
  case 1 then show ?case by (rule voice_step_wf)
next
  case 2 then show ?case by (auto dest: voice_step_owner)
next
  case 3 then show ?case by (auto dest: voice_step_owner)
qed

section \<open>The sweeper\<close>

text \<open>The voice task of \<open>run\<close> in \<open>src/main.rs\<close>: one tick, every 15 seconds.\<close>

definition authorized_of :: "clients \<Rightarrow> authorized" where
  "authorized_of clients = map (\<lambda>(client, config). (client, cl_guilds config)) clients"

fun send_voice_leaves :: "u64 list \<Rightarrow> inner \<Rightarrow> inner outcome" where
  "send_voice_leaves [] st = Ret st"
| "send_voice_leaves (g # gs) st = obind (send_voice_leave g st) (send_voice_leaves gs)"

definition voice_sweeper_tick :: "config \<Rightarrow> instant \<Rightarrow> registry \<Rightarrow> inner \<Rightarrow> inner outcome" where
  "voice_sweeper_tick cfg now r st =
     (case rg_clients r of
        None \<Rightarrow> Ret st
      | Some clients \<Rightarrow>
          obind (take_stale_voice_owners cfg now (authorized_of clients) st)
            (\<lambda>(guilds, st'). send_voice_leaves guilds st'))"

lemma authorized_of_get: "hm_get (authorized_of m) c = map_option cl_guilds (hm_get m c)"
  by (induction m) (auto simp: authorized_of_def hm_get_def)

lemma owner_revoked_registry:
  "rg_clients r = Some m \<Longrightarrow>
     owner_revoked (authorized_of m) g ow \<longleftrightarrow> \<not> client_has_guild r (vo_client_id ow) g"
  by (auto simp: owner_revoked_def authorized_of_get client_has_guild_def split: option.splits)

text \<open>The message that makes the bot leave a guild, if the guild's shard is on this proxy.\<close>

definition leave_message :: "inner \<Rightarrow> u64 \<Rightarrow> (u32 \<times> string) option" where
  "leave_message st g =
     (case shard_for_guild st g of Ret (Some sh) \<Rightarrow> Some (sh_id sh, voice_leave_command g) | _ \<Rightarrow> None)"

lemma send_voice_leave_Ret:
  "send_voice_leave g st = Ret st' \<Longrightarrow>
     st' = st\<lparr>upstream := upstream st @ List.map_filter (leave_message st) [g]\<rparr>"
  by (cases "shard_for_guild st g")
    (auto simp: send_voice_leave_def send_upstream_def leave_message_def List.map_filter_simps
      split: option.splits)

lemma leave_message_frame [simp]: "leave_message (st\<lparr>upstream := u\<rparr>) = leave_message st"
  by (rule ext) (simp add: leave_message_def shard_for_guild_def shard_id_for_guild_def)

lemma send_voice_leaves_Ret:
  "send_voice_leaves gs st = Ret st' \<Longrightarrow>
     st' = st\<lparr>upstream := upstream st @ List.map_filter (leave_message st) gs\<rparr>"
proof (induction gs arbitrary: st)
  case Nil
  then show ?case by (simp add: List.map_filter_simps)
next
  case (Cons g gs)
  then obtain m where "send_voice_leave g st = Ret m" "send_voice_leaves gs m = Ret st'" by auto
  from Cons.IH [OF this(2)] send_voice_leave_Ret [OF this(1)] show ?case
    by (simp add: List.map_filter_simps split: option.split)
qed

lemma send_voice_leaves_total: "shard_count st \<noteq> 0 \<Longrightarrow> \<exists>st'. send_voice_leaves gs st = Ret st'"
proof (induction gs arbitrary: st)
  case Nil
  then show ?case by simp
next
  case (Cons g gs)
  then obtain m where m: "send_voice_leave g st = Ret m"
    using shard_for_guild_total [of st g] by (auto simp: send_voice_leave_def)
  then have "shard_count m = shard_count st" using send_voice_leave_Ret [OF m] by simp
  with Cons m show ?case by simp
qed

lemma take_stale_Ret:
  "take_stale_voice_owners cfg now auth st = Ret (gs, st') \<Longrightarrow>
     \<exists>iv. voice_snapshot cfg st = Ret iv \<and> sweep_voice_owners now auth iv st = (gs, st')"
  by (auto simp: take_stale_voice_owners_def)

lemma voice_snapshot_total:
  assumes "shard_count st \<noteq> 0"
  shows "\<exists>iv. voice_snapshot cfg st = Ret iv"
proof -
  have "traverse (\<lambda>g. omap (Pair g) (bot_in_voice cfg st g)) gs
    = Ret (map (\<lambda>g. (g, case bot_in_voice cfg st g of Ret b \<Rightarrow> b)) gs)" for gs
  proof (rule traverse_Ret)
    fix g
    show "omap (Pair g) (bot_in_voice cfg st g) = Ret (g, case bot_in_voice cfg st g of Ret b \<Rightarrow> b)"
      using bot_in_voice_total [OF assms, of cfg g] by auto
  qed
  then show ?thesis by (simp add: voice_snapshot_def)
qed

lemma voice_sweeper_returns:
  assumes "shard_count st \<noteq> 0"
  shows "\<exists>st'. voice_sweeper_tick cfg now r st = Ret st'"
proof (cases "rg_clients r")
  case None
  then show ?thesis by (simp add: voice_sweeper_tick_def)
next
  case (Some m)
  obtain iv where iv: "voice_snapshot cfg st = Ret iv" using voice_snapshot_total [OF assms] by blast
  obtain gs st1 where sw: "sweep_voice_owners now (authorized_of m) iv st = (gs, st1)" by fastforce
  then have "shard_count st1 \<noteq> 0" using assms by (auto simp: sweep_voice_owners_def Let_def)
  then obtain st2 where "send_voice_leaves gs st1 = Ret st2" using send_voice_leaves_total by blast
  with Some iv sw show ?thesis by (simp add: voice_sweeper_tick_def take_stale_voice_owners_def)
qed

section \<open>Properties\<close>


definition demo_owned :: inner where
  "demo_owned = demo_inner\<lparr>voice_owners := [(7, demo_owner ''a'' True)]\<rparr>"

definition demo_given_up :: inner where
  "demo_given_up = demo_inner\<lparr>voice_owners := [(7, demo_owner ''a'' False)]\<rparr>"

lemmas demo_voice_defs = demo_owned_def demo_given_up_def demo_defs hm_wf_def hm_get_def hm_insert_def




text \<open>An owner that wants voice keeps its guild, whatever other clients do, as long as no step
  gives it up: joins of others are denied, a kick by Discord or stale cache data does not free the
  guild, and neither connecting nor disconnecting changes the owner.\<close>

theorem voice_owner_keeps:
  assumes "wf_inner st" and "trace (voice_step cfg) ls st st'"
    and "owner_view st g = Some (a, True)" and "\<forall>l\<in>set ls. \<not> gives_up l a g"
  shows "owner_view st' g = Some (a, True)"
  by (rule vl.owner_keeps [OF assms])

theorem voice_owner_keeps_witness: "owner_view demo_owned 7 = Some (''a'', True)"
proof (rule voice_owner_keeps [of demo_owned demo_config "[L_Bot_Left 7]"])
  show "wf_inner demo_owned" by (simp add: wf_inner_def demo_voice_defs)
  show "trace (voice_step demo_config) [L_Bot_Left 7] demo_owned demo_owned"
    by (simp add: bot_left_iff on_bot_voice_leave_def demo_voice_defs)
  show "owner_view demo_owned 7 = Some (''a'', True)"
    by (simp add: owner_view_def demo_voice_defs)
  show "\<forall>l\<in>set [L_Bot_Left 7]. \<not> gives_up l ''a'' 7" by simp
qed



text \<open>C24: after one tick of the sweeper no owner that wants voice has been disconnected for the
  grace period or has lost access to its guild, and for every guild it took away the leave command
  went to the guild's shard. With at least one shard the tick never panics.\<close>

theorem sweeper_clears_stale:
  assumes "wf_inner st" and "rg_clients r = Some clients" and "shard_count st \<noteq> 0"
  shows "\<exists>st'. voice_sweeper_tick cfg now r st = Ret st' \<and>
    (\<forall>g ow. hm_get (voice_owners st') g = Some ow \<and> vo_wants_voice ow \<longrightarrow>
       \<not> owner_expired now ow \<and> client_has_guild r (vo_client_id ow) g) \<and>
    (\<forall>g ow sh. hm_get (voice_owners st) g = Some ow \<and> vo_wants_voice ow \<and>
       (owner_expired now ow \<or> \<not> client_has_guild r (vo_client_id ow) g) \<and>
       shard_for_guild st g = Ret (Some sh) \<longrightarrow>
       (sh_id sh, voice_leave_command g) \<in> set (upstream st'))"
proof -
  have wfo: "hm_wf (voice_owners st)" using assms(1) by (rule wf_innerD)
  obtain iv where iv: "voice_snapshot cfg st = Ret iv"
    using voice_snapshot_total [OF assms(3)] by blast
  obtain gs st1 where sw: "sweep_voice_owners now (authorized_of clients) iv st = (gs, st1)"
    by fastforce
  then have st1: "st1 = st\<lparr>voice_owners := voice_owners st1\<rparr>"
    by (auto simp: sweep_voice_owners_def Let_def)
  have "shard_count st1 \<noteq> 0" using assms(3) by (subst st1) simp
  then obtain st2 where st2: "send_voice_leaves gs st1 = Ret st2"
    using send_voice_leaves_total by blast
  then have up: "st2 = st1\<lparr>upstream := upstream st1 @ List.map_filter (leave_message st1) gs\<rparr>"
    by (rule send_voice_leaves_Ret)
  have msg: "leave_message st1 = leave_message st"
    by (rule ext, subst st1) (simp add: leave_message_def shard_for_guild_def shard_id_for_guild_def)
  have tick: "voice_sweeper_tick cfg now r st = Ret st2"
    using assms(2) iv sw st2 by (simp add: voice_sweeper_tick_def take_stale_voice_owners_def)
  have gs: "g \<in> set gs \<longleftrightarrow> (\<exists>ow. hm_get (voice_owners st) g = Some ow \<and> vo_wants_voice ow \<and>
      (owner_expired now ow \<or> \<not> client_has_guild r (vo_client_id ow) g))" for g
    using sweep_guilds [OF wfo, of g now "authorized_of clients" iv] sw
    by (simp add: owner_stale_def owner_revoked_registry [OF assms(2)])
  have own: "\<not> owner_expired now ow \<and> client_has_guild r (vo_client_id ow) g"
    if "hm_get (voice_owners st2) g = Some ow" "vo_wants_voice ow" for g ow
    using sweep_get [OF wfo, of now "authorized_of clients" iv g] sw up that
    by (auto simp: owner_stale_def owner_revoked_registry [OF assms(2)] split: option.splits if_splits)
  have "(sh_id sh, voice_leave_command g) \<in> set (upstream st2)"
    if "g \<in> set gs" "shard_for_guild st g = Ret (Some sh)" for g sh
    using that by (force simp: up msg set_map_filter_iff leave_message_def)
  with tick gs own show ?thesis by blast
qed

theorem sweeper_clears_stale_witness:
  "\<exists>st'. voice_sweeper_tick demo_config 0 demo_registry
      (demo_inner\<lparr>voice_owners := [(4194304, demo_owner ''b'' True)]\<rparr>) = Ret st' \<and>
    (1, voice_leave_command 4194304) \<in> set (upstream st')"
proof -
  let ?st = "demo_inner\<lparr>voice_owners := [(4194304, demo_owner ''b'' True)]\<rparr>"
  have "wf_inner ?st" "rg_clients demo_registry = Some demo_clients" "shard_count ?st \<noteq> 0"
    by (simp_all add: wf_inner_def demo_voice_defs)
  note sweeper_clears_stale [OF this, of demo_config 0]
  moreover have "hm_get (voice_owners ?st) 4194304 = Some (demo_owner ''b'' True)"
    and "vo_wants_voice (demo_owner ''b'' True)"
    and "\<not> client_has_guild demo_registry (vo_client_id (demo_owner ''b'' True)) 4194304"
    and "shard_for_guild ?st 4194304 = Ret (Some (demo_shard 1 [demo_guild 4194304 [90]] []))"
    and "sh_id (demo_shard 1 [demo_guild 4194304 [90]] []) = 1"
    by (simp_all add: client_has_guild_def shard_for_guild_def demo_voice_defs)
  ultimately show ?thesis by metis
qed

text \<open>C39: the grace period is lost to a race. \<open>mark_client_disconnected\<close> drops the connection
  counter's lock before it stamps the owner; if the same client reconnects in between, the owner
  is stamped as disconnected although it is connected, and from one grace period later on the
  sweeper takes its guild away.\<close>

theorem disconnect_reconnect_race:
  assumes "wf_inner st" and "hm_get (voice_owners st) g = Some ow" and "vo_wants_voice ow"
    and "connection_count st (vo_client_id ow) = 1"
    and first_half: "uncount_connection (vo_client_id ow) st = (gone, st1)"
    and reconnect: "st2 = mark_client_connected (vo_client_id ow) st1"
    and second_half: "st3 = set_voice_owner_disconnected (vo_client_id ow) (Some t) st2"
    and later: "t + VOICE_OWNER_GRACE \<le> now"
  shows "gone \<and> is_client_connected st3 (vo_client_id ow) \<and>
    g \<in> set (fst (sweep_voice_owners now auth iv st3))"
proof (intro conjI)
  show "gone" using first_half assms(4) by (auto simp: uncount_connection_def Let_def)
  show "is_client_connected st3 (vo_client_id ow)"
    by (simp add: reconnect second_half is_client_connected_def connection_count_def
        mark_client_connected_def count_connection_def set_voice_owner_disconnected_def)
  have wf1: "wf_inner st1"
    using assms(1) first_half by (auto simp: uncount_connection_def Let_def wf_inner_def split: if_splits)
  then have "hm_wf (voice_owners st3)"
    by (intro wf_innerD(6)) (simp add: second_half reconnect)
  moreover have "voice_owners st1 = voice_owners st"
    using first_half uncount_connection_owners [of "vo_client_id ow" st] by simp
  then have "hm_get (voice_owners st3) g = Some (ow\<lparr>vo_disconnected_at := Some t\<rparr>)"
    by (simp add: second_half reconnect mark_connected_get assms(2))
  moreover have "VOICE_OWNER_GRACE \<le> now - t" using later by linarith
  then have "owner_stale now auth g (ow\<lparr>vo_disconnected_at := Some t\<rparr>)"
    using assms(3) by (simp add: owner_stale_def owner_expired_def duration_since_def)
  ultimately show "g \<in> set (fst (sweep_voice_owners now auth iv st3))"
    by (auto simp: sweep_guilds)
qed

definition demo_racing :: inner where
  "demo_racing = demo_owned\<lparr>active_client_connections := [(''a'', 1)]\<rparr>"

theorem disconnect_reconnect_race_witness:
  "\<exists>st3. is_client_connected st3 ''a'' \<and>
    7 \<in> set (fst (sweep_voice_owners (5 + VOICE_OWNER_GRACE) (authorized_of demo_clients) [] st3))"
proof -
  obtain gone st1 where first: "uncount_connection (vo_client_id (demo_owner ''a'' True)) demo_racing = (gone, st1)"
    by fastforce
  have "wf_inner demo_racing" and "hm_get (voice_owners demo_racing) 7 = Some (demo_owner ''a'' True)"
    and "vo_wants_voice (demo_owner ''a'' True)"
    and "connection_count demo_racing (vo_client_id (demo_owner ''a'' True)) = 1"
    by (simp_all add: demo_racing_def wf_inner_def connection_count_def demo_voice_defs)
  from disconnect_reconnect_race [OF this first refl refl order_refl]
  show ?thesis by (auto simp: demo_owner_def)
qed

end
