(* ===== verification/Client_Loop.thy ===== *)
theory Client_Loop
  imports Forwarder Commands Sessions Voice_Safety
begin

text \<open>
  The loop of \<open>handle_client\<close> in \<open>src/server.rs\<close>: one connection of a gateway client. A step takes
  what the \<open>select!\<close> yields, the connection's local variables and the shared state; the messages
  queued for the client's socket are part of the connection.
\<close>

section \<open>A connection\<close>

definition HELLO :: string where
  "HELLO = ''{\"t\":null,\"s\":null,\"op\":10,\"d\":{\"heartbeat_interval\":41250}}''"

definition HEARTBEAT_ACK :: string where
  "HEARTBEAT_ACK = ''{\"t\":null,\"s\":null,\"op\":11,\"d\":null}''"

definition INVALID_SESSION :: string where
  "INVALID_SESSION = ''{\"t\":null,\"s\":null,\"op\":9,\"d\":false}''"

definition CLIENT_HEARTBEAT_TIMEOUT :: duration where
  "CLIENT_HEARTBEAT_TIMEOUT = millis (2 * 41250)"

datatype ws_message = WsText string | WsClose u16 string

text \<open>What the \<open>select!\<close> yields.\<close>

datatype client_event = ClientText string | ClientOther | ClientGone | SinkEnded | HeartbeatTimeout

text \<open>
  The local variables: \<open>compress_tx\<close> is there until the first IDENTIFY or RESUME succeeds, and the
  value sent through it is \<open>cn_compress\<close>; \<open>shard_sender\<close> is the id of the shard it sends to;
  \<open>cn_forward\<close> are the arguments of the spawned \<open>forward_shard\<close> task with its initial \<open>seq\<close>.
\<close>

record conn =
  cn_compress_tx :: bool
  cn_compress :: "bool option option"
  cn_shard_sender :: "u32 option"
  cn_forward :: "(forward_args \<times> usize) option"
  cn_active_client :: "string option"
  cn_command_scope :: "string option"
  cn_graceful_close :: bool
  cn_sink_done :: bool
  cn_deadline :: instant
  cn_out :: "ws_message list"

definition new_conn :: "instant \<Rightarrow> conn" where
  "new_conn now =
     \<lparr>cn_compress_tx = True, cn_compress = None, cn_shard_sender = None, cn_forward = None,
      cn_active_client = None, cn_command_scope = None, cn_graceful_close = False,
      cn_sink_done = False, cn_deadline = now + CLIENT_HEARTBEAT_TIMEOUT, cn_out = []\<rparr>"

definition enqueue :: "ws_message list \<Rightarrow> conn \<Rightarrow> conn" where
  "enqueue ms cn = cn\<lparr>cn_out := cn_out cn @ ms\<rparr>"

text \<open>The clock, the registry and the random ids a step reads.\<close>

record env =
  en_json :: json_lib
  en_config :: config
  en_registry :: registry
  en_now :: instant
  en_random :: "nat \<Rightarrow> string"

text \<open>\<open>state.shards[shard_id as usize]\<close>.\<close>

definition shard_at :: "inner \<Rightarrow> u32 \<Rightarrow> shard outcome" where
  "shard_at st shard_id =
     (if unat shard_id < length (shards st) then Ret (shards st ! unat shard_id) else Panic)"

definition authenticate :: "env \<Rightarrow> string \<Rightarrow> gateway_auth_result" where
  "authenticate en token =
     authenticate_gateway_token (en_config en) (en_registry en) (normalize_gateway_token token)"

text \<open>\<open>if active_client_id.is_none() { mark_client_connected; ... }\<close>.\<close>

definition activate :: "string option \<Rightarrow> conn \<Rightarrow> inner \<Rightarrow> conn \<times> inner" where
  "activate client cn st =
     (case client of
        None \<Rightarrow> (cn, st)
      | Some client_id \<Rightarrow>
          if cn_active_client cn = None
          then (cn\<lparr>cn_active_client := Some client_id\<rparr>, mark_client_connected client_id st)
          else (cn, st))"

section \<open>Op 2: IDENTIFY\<close>

definition leave_old_voice :: "string option \<Rightarrow> u32 \<Rightarrow> inner \<Rightarrow> inner outcome" where
  "leave_old_voice client shard_id st =
     (case client of
        None \<Rightarrow> Ret st
      | Some client_id \<Rightarrow>
          obind (leave_voice_for_client client_id shard_id st) (\<lambda>(guilds, st'). send_voice_leaves guilds st'))"

definition identified ::
  "env \<Rightarrow> identify_info \<Rightarrow> auth_context \<Rightarrow> conn \<Rightarrow> inner \<Rightarrow> (loop_flow \<times> conn \<times> inner) outcome" where
  "identified en d auth cn st =
     (let shard_id = fst (idf_shard d);
          client = client_of (ac_principal auth);
          (cn1, st1) = activate client cn st
      in obind (leave_old_voice client shard_id st1) (\<lambda>st2.
           let cn2 = cn1\<lparr>cn_command_scope := client\<rparr>;
               s = \<lparr>ss_shard_id = shard_id, ss_compress = idf_compress d,
                    ss_principal = ac_principal auth,
                    ss_authorized_guilds = ac_authorized_guilds auth,
                    ss_last_accessed = en_now en\<rparr>
           in obind (create_session (en_now en) (en_random en) s st2) (\<lambda>(session_id, st3).
                omap (\<lambda>sh.
                  (Continue,
                   cn2\<lparr>cn_shard_sender := Some (sh_id sh),
                       cn_compress_tx := False,
                       cn_compress := Some (idf_compress d),
                       cn_forward := Some
                         (\<lparr>fw_session_id = session_id, fw_shard = unat shard_id,
                           fw_send_guilds = True,
                           fw_authorized_guilds = ac_authorized_guilds auth,
                           fw_client_id = client\<rparr>, 0)\<rparr>,
                   st3))
                  (shard_at st3 shard_id))))"

definition on_identify :: "env \<Rightarrow> string \<Rightarrow> conn \<Rightarrow> inner \<Rightarrow> (loop_flow \<times> conn \<times> inner) outcome" where
  "on_identify en payload cn st =
     (if \<not> cn_compress_tx cn then Ret (Stop, cn, st)
      else
        (case parse_identify (en_json en) payload of
           None \<Rightarrow> Ret (Continue, cn, st)
         | Some d \<Rightarrow>
             if snd (idf_shard d) \<noteq> shard_count st then Ret (Stop, cn, st)
             else if snd (idf_shard d) \<le> fst (idf_shard d) then Ret (Stop, cn, st)
             else
               (case authenticate en (idf_token d) of
                  GStale \<Rightarrow> Ret (Stop, cn, st)
                | GInvalid \<Rightarrow> Ret (Stop, cn, st)
                | GOk auth \<Rightarrow> identified en d auth cn st)))"

section \<open>Op 6: RESUME\<close>

definition reject_session :: "string \<Rightarrow> conn \<Rightarrow> conn" where
  "reject_session reason cn =
     (enqueue [WsText INVALID_SESSION, WsClose 4007 reason] cn)\<lparr>cn_graceful_close := True\<rparr>"

definition resumed ::
  "resume_info \<Rightarrow> auth_context \<Rightarrow> session \<Rightarrow> conn \<Rightarrow> inner \<Rightarrow> (loop_flow \<times> conn \<times> inner) outcome" where
  "resumed d auth s cn st =
     omap (\<lambda>sh.
       let authorized_guilds =
             (case ss_principal s of
                Client _ \<Rightarrow> ac_authorized_guilds auth | _ \<Rightarrow> ss_authorized_guilds s);
           client = client_of (ss_principal s);
           (cn1, st1) = activate client (cn\<lparr>cn_shard_sender := Some (sh_id sh)\<rparr>) st;
           cn2 = cn1\<lparr>cn_command_scope := client\<rparr>
       in if cn_compress_tx cn
          then (Continue,
            cn2\<lparr>cn_compress_tx := False,
                cn_compress := Some (ss_compress s),
                cn_forward := Some
                  (\<lparr>fw_session_id = res_session_id d, fw_shard = unat (ss_shard_id s),
                    fw_send_guilds = False, fw_authorized_guilds = authorized_guilds,
                    fw_client_id = client\<rparr>, res_seq d)\<rparr>,
            st1)
          else (Stop, reject_session ''session rejected'' cn2, st1))
       (shard_at st (ss_shard_id s))"

definition on_resume :: "env \<Rightarrow> string \<Rightarrow> conn \<Rightarrow> inner \<Rightarrow> (loop_flow \<times> conn \<times> inner) outcome" where
  "on_resume en payload cn st =
     (case parse_resume (en_json en) payload of
        None \<Rightarrow> Ret (Continue, cn, st)
      | Some d \<Rightarrow>
          (case authenticate en (res_token d) of
             GStale \<Rightarrow> Ret (Stop, cn, st)
           | GInvalid \<Rightarrow> Ret (Stop, cn, st)
           | GOk auth \<Rightarrow>
               (case get_session (en_now en) (res_session_id d) st of
                  (None, st') \<Rightarrow> Ret (Stop, reject_session ''session not found'' cn, st')
                | (Some s, st') \<Rightarrow>
                    if ss_principal s \<noteq> ac_principal auth
                    then Ret (Stop, reject_session ''session rejected'' cn, st')
                    else resumed d auth s cn st')))"

section \<open>Every other op: a command\<close>

text \<open>A multi-tenant client's command, after the filter let it through.\<close>

definition send_command ::
  "env \<Rightarrow> string \<Rightarrow> u64 \<Rightarrow> u64 option option \<Rightarrow> string \<Rightarrow> inner \<Rightarrow> inner outcome" where
  "send_command en client_id guild voice_channel command st =
     (if (case voice_channel of
            Some (Some channel) \<Rightarrow> resolve_guild_id_for_channel st channel \<noteq> Some guild
          | _ \<Rightarrow> False)
      then Ret st
      else
        (case allow_client_command (en_now en) client_id CLIENT_COMMAND_LIMIT CLIENT_COMMAND_WINDOW st of
           (False, st1) \<Rightarrow> Ret st1
         | (True, st1) \<Rightarrow>
             obind
               (case voice_channel of
                  Some channel \<Rightarrow> claim_voice (en_config en) guild client_id (channel \<noteq> None) st1
                | None \<Rightarrow> Ret (Allow, st1))
               (\<lambda>(decision, st2).
                 if decision = Deny then Ret st2
                 else omap (\<lambda>found. case found of
                     None \<Rightarrow> st2
                   | Some sh \<Rightarrow> send_upstream (sh_id sh) command st2)
                   (shard_for_guild st2 guild))))"

definition on_command ::
  "env \<Rightarrow> u8 \<Rightarrow> string \<Rightarrow> conn \<Rightarrow> inner \<Rightarrow> (loop_flow \<times> conn \<times> inner) outcome" where
  "on_command en opcode payload cn st =
     (case cn_shard_sender cn of
        None \<Rightarrow>
          Ret (Stop, (enqueue [WsClose 4003 ''not authenticated''] cn)\<lparr>cn_graceful_close := True\<rparr>, st)
      | Some sender \<Rightarrow>
          (case cn_command_scope cn of
             None \<Rightarrow> Ret (Continue, cn, send_upstream sender payload st)
           | Some client_id \<Rightarrow>
               let guilds = (case client_guilds (en_registry en) client_id of None \<Rightarrow> {} | Some gs \<Rightarrow> gs)
               in (case command_of (filter_client_command (en_json en) opcode payload guilds) of
                     None \<Rightarrow> Ret (Continue, cn, st)
                   | Some (guild, voice_channel, command) \<Rightarrow>
                       omap (\<lambda>st'. (Continue, cn, st'))
                         (send_command en client_id guild voice_channel command st))))"

section \<open>The loop\<close>

definition client_step ::
  "env \<Rightarrow> client_event \<Rightarrow> conn \<Rightarrow> inner \<Rightarrow> (loop_flow \<times> conn \<times> inner) outcome" where
  "client_step en ev cn st =
     (case ev of
        SinkEnded \<Rightarrow> Ret (Stop, cn\<lparr>cn_sink_done := True\<rparr>, st)
      | HeartbeatTimeout \<Rightarrow>
          Ret (Stop, (enqueue [WsClose 4009 ''session timed out''] cn)\<lparr>cn_graceful_close := True\<rparr>, st)
      | ClientGone \<Rightarrow> Ret (Stop, cn, st)
      | ClientOther \<Rightarrow> Ret (Continue, cn, st)
      | ClientText payload \<Rightarrow>
          (case from_json payload of
             None \<Rightarrow> Ret (Continue, cn, st)
           | Some e \<Rightarrow>
               let opcode = op_value (ge_op e) in
               if opcode = 1
               then Ret (Continue,
                 enqueue [WsText HEARTBEAT_ACK]
                   (cn\<lparr>cn_deadline := en_now en + CLIENT_HEARTBEAT_TIMEOUT\<rparr>), st)
               else if opcode = 2 then on_identify en payload cn st
               else if opcode = 6 then on_resume en payload cn st
               else on_command en opcode payload cn st))"

text \<open>
  After the loop: whether the queue is flushed to the socket before it closes, the connection whose
  forwarding task is gone, and the state.
\<close>

definition teardown :: "instant \<Rightarrow> conn \<Rightarrow> inner \<Rightarrow> bool \<times> conn \<times> inner" where
  "teardown now cn st =
     (cn_graceful_close cn \<and> \<not> cn_sink_done cn,
      cn\<lparr>cn_forward := None\<rparr>,
      case cn_active_client cn of
        None \<Rightarrow> st
      | Some client_id \<Rightarrow> mark_client_disconnected now client_id st)"

text \<open>A whole connection that nothing else interleaves with: the steps up to the one that ends it.\<close>

fun handle_client ::
  "(env \<times> client_event) list \<Rightarrow> conn \<Rightarrow> inner \<Rightarrow> (loop_flow \<times> conn \<times> inner) outcome" where
  "handle_client [] cn st = Ret (Continue, cn, st)"
| "handle_client ((en, ev) # evs) cn st =
     obind (client_step en ev cn st) (\<lambda>(flow, cn', st').
       case flow of
         Continue \<Rightarrow> handle_client evs cn' st'
       | Stop \<Rightarrow> (case teardown (en_now en) cn' st' of (flush, cn'', st'') \<Rightarrow> Ret (Stop, cn'', st'')))"

end
