(* ===== verification/Client_Facts.thy ===== *)
theory Client_Facts
  imports Client_Loop
begin

text \<open>
  Lemmas on the connection loop: what a step leaves alone, the invariant of a connection, the
  balance of the connection counters, and when a step panics.
\<close>

section \<open>What the operations leave alone\<close>

text \<open>Everything but the sessions, the owners, the command windows and the upstream log.\<close>

definition same_core :: "inner \<Rightarrow> inner \<Rightarrow> bool" where
  "same_core st st' \<longleftrightarrow>
     shards st' = shards st \<and> shard_count st' = shard_count st \<and>
     bot_user_id_cell st' = bot_user_id_cell st \<and>
     active_client_connections st' = active_client_connections st \<and>
     offline_event_buffers st' = offline_event_buffers st \<and>
     last_wake_attempts st' = last_wake_attempts st"

lemma same_core_refl [simp]: "same_core st st"
  by (simp add: same_core_def)

lemma same_core_trans: "same_core a b \<Longrightarrow> same_core b c \<Longrightarrow> same_core a c"
  by (simp add: same_core_def)

lemma same_core_count: "same_core st st' \<Longrightarrow> connection_count st' c = connection_count st c"
  by (simp add: same_core_def connection_count_def)

lemma same_core_shard_for_guild: "same_core st st' \<Longrightarrow> shard_for_guild st' g = shard_for_guild st g"
  by (simp add: same_core_def shard_for_guild_def shard_id_for_guild_def)

lemma same_core_resolve:
  "same_core st st' \<Longrightarrow> resolve_guild_id_for_channel st' ch = resolve_guild_id_for_channel st ch"
  by (simp add: same_core_def resolve_guild_id_for_channel_def)

lemma send_upstream_core: "same_core st (send_upstream i c st)"
  by (simp add: same_core_def)

lemma leave_voice_core: "leave_voice_for_client c i st = Ret (gs, st') \<Longrightarrow> same_core st st'"
  by (drule leave_voice_Ret(1)) (simp add: same_core_def)

lemma send_voice_leaves_core: "send_voice_leaves gs st = Ret st' \<Longrightarrow> same_core st st'"
  by (drule send_voice_leaves_Ret) (simp add: same_core_def)

lemma create_session_core: "create_session now rnd s st = Ret (sid, st') \<Longrightarrow> same_core st st'"
  by (auto simp: create_session_def Let_def same_core_def split: option.splits)

lemma get_session_core: "get_session now sid st = (res, st') \<Longrightarrow> same_core st st'"
  by (auto simp: get_session_def Let_def same_core_def split: option.splits)

lemma allow_command_core: "allow_client_command now c l w st = (b, st') \<Longrightarrow> same_core st st'"
  by (auto simp: allow_client_command_def Let_def same_core_def split: if_splits)

lemma claim_voice_core: "claim_voice cfg g c joining st = Ret (d, st') \<Longrightarrow> same_core st st'"
  by (auto simp: claim_voice_def Let_def same_core_def split: if_splits option.splits)

lemma leave_old_voice_core: "leave_old_voice cl i st = Ret st' \<Longrightarrow> same_core st st'"
  by (auto simp: leave_old_voice_def split: option.splits
      dest!: leave_voice_core send_voice_leaves_core intro: same_core_trans)

text \<open>What only the command path writes, and what it leaves alone beside the core.\<close>

lemma allow_command_rest:
  "allow_client_command now c l w st = (b, st') \<Longrightarrow>
     upstream st' = upstream st \<and> voice_owners st' = voice_owners st \<and> sessions st' = sessions st"
  by (auto simp: allow_client_command_def Let_def split: if_splits)

lemma claim_voice_rest:
  "claim_voice cfg g c joining st = Ret (d, st') \<Longrightarrow>
     upstream st' = upstream st \<and> sessions st' = sessions st"
  by (auto simp: claim_voice_def Let_def split: if_splits option.splits)

lemma leave_voice_rest:
  "leave_voice_for_client c i st = Ret (gs, st') \<Longrightarrow>
     upstream st' = upstream st \<and> sessions st' = sessions st"
  by (drule leave_voice_Ret(1)) simp

lemma send_voice_leaves_sessions: "send_voice_leaves gs st = Ret st' \<Longrightarrow> sessions st' = sessions st"
  by (drule send_voice_leaves_Ret) simp

lemma leave_old_voice_sessions: "leave_old_voice cl i st = Ret st' \<Longrightarrow> sessions st' = sessions st"
  by (auto simp: leave_old_voice_def split: option.splits
      dest!: leave_voice_rest send_voice_leaves_sessions)

lemma mark_connected_rest [simp]:
  "shards (mark_client_connected c st) = shards st"
  "shard_count (mark_client_connected c st) = shard_count st"
  "sessions (mark_client_connected c st) = sessions st"
  "upstream (mark_client_connected c st) = upstream st"
  "offline_event_buffers (mark_client_connected c st) = offline_event_buffers st"
  by (simp_all add: mark_client_connected_def count_connection_def set_voice_owner_disconnected_def)

lemma mark_connected_count:
  "connection_count (mark_client_connected c st) d = connection_count st d + (if d = c then 1 else 0)"
  by (simp add: mark_client_connected_def count_connection_def set_voice_owner_disconnected_def
      connection_count_def)

lemma mark_disconnected_count:
  "connection_count (mark_client_disconnected now c st) d =
     connection_count st d - (if d = c then 1 else 0)"
  by (auto simp: mark_client_disconnected_def uncount_connection_def Let_def
      set_voice_owner_disconnected_def connection_count_def split: option.splits)

lemma activate_rest:
  assumes "activate cl cn st = (cn', st')"
  shows "shards st' = shards st" "shard_count st' = shard_count st" "sessions st' = sessions st"
    and "upstream st' = upstream st" and "cn' = cn\<lparr>cn_active_client := cn_active_client cn'\<rparr>"
    and "cn_active_client cn' = (if cn_active_client cn = None then cl else cn_active_client cn)"
    and "connection_count st' d =
      connection_count st d + (if cn_active_client cn = None \<and> cl = Some d then 1 else 0)"
  using assms
  by (auto simp: activate_def mark_connected_count split: option.splits if_splits)

section \<open>The connection counters are balanced\<close>

text \<open>A step adds one for the client it activates; the teardown takes one away for it.\<close>

definition newly_active :: "conn \<Rightarrow> conn \<Rightarrow> string \<Rightarrow> nat" where
  "newly_active cn cn' d =
     (if cn_active_client cn = None \<and> cn_active_client cn' = Some d then 1 else 0)"

definition active_in :: "conn \<Rightarrow> string \<Rightarrow> nat" where
  "active_in cn d = (if cn_active_client cn = Some d then 1 else 0)"

lemma newly_active_same [simp]: "cn_active_client cn' = cn_active_client cn \<Longrightarrow> newly_active cn cn' d = 0"
  by (auto simp: newly_active_def)

lemma identified_count:
  assumes "identified en d auth cn st = Ret (flow, cn', st')"
  shows "connection_count st' c = connection_count st c + newly_active cn cn' c"
    and "cn_active_client cn \<noteq> None \<Longrightarrow> cn_active_client cn' = cn_active_client cn"
proof -
  let ?cl = "client_of (ac_principal auth)"
  obtain cn1 st1 where act: "activate ?cl cn st = (cn1, st1)" by fastforce
  with assms obtain st2 session_id st3 s sh where
    steps: "leave_old_voice ?cl (fst (idf_shard d)) st1 = Ret st2"
      "create_session (en_now en) (en_random en) s st2 = Ret (session_id, st3)"
      "shard_at st3 (fst (idf_shard d)) = Ret sh" "st' = st3"
      "cn_active_client cn' = cn_active_client cn1"
    by (auto simp: identified_def Let_def)
  then have "same_core st1 st'"
    by (blast intro: same_core_trans leave_old_voice_core create_session_core)
  then have "connection_count st' c = connection_count st1 c" by (rule same_core_count)
  with activate_rest(6,7) [OF act] steps(5)
  show "connection_count st' c = connection_count st c + newly_active cn cn' c"
    and "cn_active_client cn \<noteq> None \<Longrightarrow> cn_active_client cn' = cn_active_client cn"
    by (auto simp: newly_active_def)
qed

lemma resumed_count:
  assumes "resumed d auth s cn st = Ret (flow, cn', st')"
  shows "connection_count st' c = connection_count st c + newly_active cn cn' c"
    and "cn_active_client cn \<noteq> None \<Longrightarrow> cn_active_client cn' = cn_active_client cn"
proof -
  obtain sh where sh: "shard_at st (ss_shard_id s) = Ret sh" using assms by (auto simp: resumed_def)
  obtain cn1 st1 where act: "activate (client_of (ss_principal s)) (cn\<lparr>cn_shard_sender := Some (sh_id sh)\<rparr>) st = (cn1, st1)"
    by fastforce
  have "st' = st1" "cn_active_client cn' = cn_active_client cn1"
    using assms sh act by (auto simp: resumed_def Let_def reject_session_def enqueue_def split: if_splits)
  with activate_rest(6,7) [OF act]
  show "connection_count st' c = connection_count st c + newly_active cn cn' c"
    and "cn_active_client cn \<noteq> None \<Longrightarrow> cn_active_client cn' = cn_active_client cn"
    by (auto simp: newly_active_def)
qed

lemma send_command_core: "send_command en c g vc cmd st = Ret st' \<Longrightarrow> same_core st st'"
proof -
  assume s: "send_command en c g vc cmd st = Ret st'"
  obtain b st1 where a: "allow_client_command (en_now en) c CLIENT_COMMAND_LIMIT CLIENT_COMMAND_WINDOW st = (b, st1)"
    by fastforce
  have send: "same_core st2 st'" if "omap (\<lambda>found. case found of
      None \<Rightarrow> st2 | Some sh \<Rightarrow> send_upstream (sh_id sh) cmd st2) (shard_for_guild st2 g) = Ret st'" for st2
    using that by (auto simp: send_upstream_core split: option.splits)
  show "same_core st st'"
    using s a send allow_command_core [OF a]
    by (auto simp: send_command_def split: if_splits bool.splits option.splits
        dest!: claim_voice_core intro: same_core_trans)
qed

text \<open>The branches of a step.\<close>

lemma on_resume_cases:
  assumes "on_resume en p cn st = Ret (flow, cn', st')"
  obtains (quiet) "st' = st" and "cn' = cn"
    | (no_session) d auth why where "parse_resume (en_json en) p = Some d"
      and "authenticate en (res_token d) = GOk auth" and "flow = Stop"
      and "st' = snd (get_session (en_now en) (res_session_id d) st)" and "cn' = reject_session why cn"
    | (resume) d auth s st1 where "parse_resume (en_json en) p = Some d"
      and "authenticate en (res_token d) = GOk auth"
      and "get_session (en_now en) (res_session_id d) st = (Some s, st1)"
      and "ss_principal s = ac_principal auth" and "resumed d auth s cn st1 = Ret (flow, cn', st')"
proof (cases "parse_resume (en_json en) p")
  case None
  with assms quiet show thesis by (simp add: on_resume_def)
next
  case (Some d)
  note d = this
  show thesis
  proof (cases "authenticate en (res_token d)")
    case (GOk auth)
    obtain res st1 where g: "get_session (en_now en) (res_session_id d) st = (res, st1)" by fastforce
    show thesis
    proof (cases "\<exists>s. res = Some s \<and> ss_principal s = ac_principal auth")
      case True
      with assms d GOk g resume show thesis by (auto simp: on_resume_def)
    next
      case False
      with assms d GOk g no_session [OF d GOk] show thesis
        by (auto simp: on_resume_def split: option.splits if_splits)
    qed
  qed (use assms d quiet in \<open>auto simp: on_resume_def\<close>)
qed

lemma on_identify_cases:
  assumes "on_identify en p cn st = Ret (flow, cn', st')"
  obtains (quiet) "st' = st" and "cn' = cn"
    | (identify) d auth where "cn_compress_tx cn"
      and "parse_identify (en_json en) p = Some d" and "snd (idf_shard d) = shard_count st"
      and "fst (idf_shard d) < shard_count st" and "authenticate en (idf_token d) = GOk auth"
      and "identified en d auth cn st = Ret (flow, cn', st')"
proof (cases "cn_compress_tx cn")
  case tx: True
  show thesis
  proof (cases "parse_identify (en_json en) p")
    case d: (Some d)
    show thesis
    proof (cases "snd (idf_shard d) = shard_count st \<and> fst (idf_shard d) < shard_count st")
      case range: True
      show thesis
      proof (cases "authenticate en (idf_token d)")
        case (GOk auth)
        have "\<not> shard_count st \<le> fst (idf_shard d)" using range by (simp add: not_le)
        then have "identified en d auth cn st = Ret (flow, cn', st')"
          using assms tx d range GOk by (simp add: on_identify_def)
        with tx d range GOk show thesis by (intro identify) simp_all
      qed (use assms tx d range quiet in \<open>auto simp: on_identify_def split: if_splits\<close>)
    qed (use assms tx d quiet in \<open>auto simp: on_identify_def not_le split: if_splits\<close>)
  qed (use assms tx quiet in \<open>auto simp: on_identify_def\<close>)
qed (use assms quiet in \<open>auto simp: on_identify_def\<close>)

lemma on_command_cases:
  assumes "on_command en opcode p cn st = Ret (flow, cn', st')"
  obtains (refused) "st' = st"
      and "cn' = (enqueue [WsClose 4003 ''not authenticated''] cn)\<lparr>cn_graceful_close := True\<rparr>"
    | (dropped) "st' = st" and "cn' = cn"
    | (direct) i where "cn_shard_sender cn = Some i"
      and "cn_command_scope cn = None" and "cn' = cn" and "st' = send_upstream i p st"
    | (filtered) c gs g vc cmd where "cn_shard_sender cn \<noteq> None" and "cn_command_scope cn = Some c"
      and "gs = (case client_guilds (en_registry en) c of None \<Rightarrow> {} | Some gs \<Rightarrow> gs)"
      and "command_of (filter_client_command (en_json en) opcode p gs) = Some (g, vc, cmd)"
      and "send_command en c g vc cmd st = Ret st'" and "cn' = cn"
proof (cases "cn_shard_sender cn")
  case None
  have "st' = st" "cn' = (enqueue [WsClose 4003 ''not authenticated''] cn)\<lparr>cn_graceful_close := True\<rparr>"
    using assms None by (simp_all add: on_command_def)
  then show thesis by (rule refused)
next
  case i: (Some i)
  show thesis
  proof (cases "cn_command_scope cn")
    case None
    have "cn' = cn" "st' = send_upstream i p st" using assms i None by (simp_all add: on_command_def)
    with i None show thesis by (rule direct)
  next
    case c: (Some c)
    define gs where "gs = (case client_guilds (en_registry en) c of None \<Rightarrow> {} | Some gs \<Rightarrow> gs)"
    have run: "on_command en opcode p cn st =
      (case command_of (filter_client_command (en_json en) opcode p gs) of
         None \<Rightarrow> Ret (Continue, cn, st)
       | Some (guild, voice_channel, command) \<Rightarrow>
           omap (\<lambda>st'. (Continue, cn, st')) (send_command en c guild voice_channel command st))"
      unfolding on_command_def gs_def Let_def using i c by simp
    show thesis
    proof (cases "command_of (filter_client_command (en_json en) opcode p gs)")
      case None
      then have "st' = st" "cn' = cn" using assms run by simp_all
      then show thesis by (rule dropped)
    next
      case (Some x)
      obtain g vc cmd where x: "x = (g, vc, cmd)" by (cases x)
      with assms run Some have "send_command en c g vc cmd st = Ret st'" "cn' = cn" by auto
      with i Some x show thesis by (intro filtered [OF _ c gs_def]) simp_all
    qed
  qed
qed

lemma client_step_cases:
  assumes "client_step en ev cn st = Ret (flow, cn', st')"
  obtains (quiet) "st' = st"
      and "cn' = cn\<lparr>cn_graceful_close := cn_graceful_close cn', cn_sink_done := cn_sink_done cn',
            cn_deadline := cn_deadline cn', cn_out := cn_out cn'\<rparr>"
    | (identify) p d auth where "ev = ClientText p" and "cn_compress_tx cn"
      and "parse_identify (en_json en) p = Some d" and "snd (idf_shard d) = shard_count st"
      and "fst (idf_shard d) < shard_count st" and "authenticate en (idf_token d) = GOk auth"
      and "identified en d auth cn st = Ret (flow, cn', st')"
    | (no_session) p d auth where "ev = ClientText p" and "parse_resume (en_json en) p = Some d"
      and "authenticate en (res_token d) = GOk auth" and "flow = Stop"
      and "st' = snd (get_session (en_now en) (res_session_id d) st)"
      and "\<exists>why. cn' = reject_session why cn"
    | (resume) p d auth s st1 where "ev = ClientText p" and "parse_resume (en_json en) p = Some d"
      and "authenticate en (res_token d) = GOk auth"
      and "get_session (en_now en) (res_session_id d) st = (Some s, st1)"
      and "ss_principal s = ac_principal auth" and "resumed d auth s cn st1 = Ret (flow, cn', st')"
    | (direct) p i where "ev = ClientText p" and "cn_shard_sender cn = Some i"
      and "cn_command_scope cn = None" and "cn' = cn" and "st' = send_upstream i p st"
    | (filtered) p e c gs g vc cmd where "ev = ClientText p" and "from_json p = Some e"
      and "cn_shard_sender cn \<noteq> None" and "cn_command_scope cn = Some c"
      and "gs = (case client_guilds (en_registry en) c of None \<Rightarrow> {} | Some gs \<Rightarrow> gs)"
      and "command_of (filter_client_command (en_json en) (op_value (ge_op e)) p gs) = Some (g, vc, cmd)"
      and "send_command en c g vc cmd st = Ret st'" and "cn' = cn"
proof (cases "\<exists>p e. ev = ClientText p \<and> from_json p = Some e \<and> op_value (ge_op e) \<noteq> 1")
  case False
  with assms show thesis
    by (intro quiet)
      (auto simp: client_step_def Let_def enqueue_def split: client_event.splits option.splits if_splits)
next
  case True
  then obtain p e where p: "ev = ClientText p" "from_json p = Some e" and op1: "op_value (ge_op e) \<noteq> 1"
    by blast
  have step: "client_step en ev cn st =
    (if op_value (ge_op e) = 2 then on_identify en p cn st
     else if op_value (ge_op e) = 6 then on_resume en p cn st
     else on_command en (op_value (ge_op e)) p cn st)"
    using p op1 by (simp add: client_step_def Let_def)
  consider "on_identify en p cn st = Ret (flow, cn', st')"
    | "on_resume en p cn st = Ret (flow, cn', st')"
    | "on_command en (op_value (ge_op e)) p cn st = Ret (flow, cn', st')"
    using assms unfolding step by (auto split: if_splits)
  then show thesis
  proof cases
    case 1
    then show thesis
    proof (cases rule: on_identify_cases)
      case quiet
      then show thesis by (intro that(1)) simp_all
    next
      case identify
      with p(1) show thesis by (intro that(2))
    qed
  next
    case 2
    then show thesis
    proof (cases rule: on_resume_cases)
      case quiet
      then show thesis by (intro that(1)) simp_all
    next
      case no_session
      with p(1) show thesis by (intro that(3)) auto
    next
      case resume
      with p(1) show thesis by (intro that(4))
    qed
  next
    case 3
    then show thesis
    proof (cases rule: on_command_cases)
      case refused
      then show thesis by (intro that(1)) (simp_all add: enqueue_def)
    next
      case dropped
      then show thesis by (intro that(1)) simp_all
    next
      case direct
      with p(1) show thesis by (intro that(5))
    next
      case filtered
      with p show thesis by (intro that(6))
    qed
  qed
qed

lemma client_step_count:
  assumes "client_step en ev cn st = Ret (flow, cn', st')"
  shows "connection_count st' c = connection_count st c + newly_active cn cn' c"
    and "cn_active_client cn \<noteq> None \<Longrightarrow> cn_active_client cn' = cn_active_client cn"
proof -
  have "connection_count st' c = connection_count st c + newly_active cn cn' c \<and>
    (cn_active_client cn \<noteq> None \<longrightarrow> cn_active_client cn' = cn_active_client cn)"
    using assms
  proof (cases rule: client_step_cases)
    case quiet
    then show ?thesis by (metis newly_active_def add_0_right conn.select_convs(5) conn.surjective conn.update_convs(10,7,8,9) option.distinct(1))
  next
    case identify
    then show ?thesis using identified_count by blast
  next
    case (no_session p d auth)
    obtain res where "get_session (en_now en) (res_session_id d) st = (res, st')"
      using no_session(5) by (metis prod.collapse)
    then have "same_core st st'" by (rule get_session_core)
    then show ?thesis
      using no_session(6) by (auto simp: newly_active_def reject_session_def enqueue_def same_core_count)
  next
    case (resume p d auth s st1)
    have "connection_count st1 c = connection_count st c"
      using resume(4) by (intro same_core_count get_session_core)
    with resumed_count [OF resume(6)] show ?thesis by simp
  next
    case direct
    then show ?thesis by (simp add: connection_count_def)
  next
    case filtered
    then show ?thesis by (auto simp: newly_active_def dest!: send_command_core dest: same_core_count)
  qed
  then show "connection_count st' c = connection_count st c + newly_active cn cn' c"
    and "cn_active_client cn \<noteq> None \<Longrightarrow> cn_active_client cn' = cn_active_client cn" by blast+
qed

section \<open>The invariant of a connection\<close>

text \<open>
  Until the first successful IDENTIFY or RESUME a connection has no shard, no task and no client;
  from then on the three places that hold the client agree, and a guild filter is there exactly for
  a multi-tenant client.
\<close>

definition conn_ok :: "conn \<Rightarrow> bool" where
  "conn_ok cn \<longleftrightarrow>
     (if cn_compress_tx cn
      then cn_shard_sender cn = None \<and> cn_forward cn = None \<and> cn_active_client cn = None \<and>
        cn_command_scope cn = None
      else cn_shard_sender cn \<noteq> None \<and> cn_active_client cn = cn_command_scope cn \<and>
        (\<exists>fw seq. cn_forward cn = Some (fw, seq) \<and> fw_client_id fw = cn_command_scope cn \<and>
           (fw_authorized_guilds fw = None \<longleftrightarrow> fw_client_id fw = None)))"

text \<open>The same for what a session remembers.\<close>

definition session_ok :: "session \<Rightarrow> bool" where
  "session_ok s \<longleftrightarrow> (ss_authorized_guilds s = None \<longleftrightarrow> client_of (ss_principal s) = None)"

definition sessions_ok :: "inner \<Rightarrow> bool" where
  "sessions_ok st \<longleftrightarrow> (\<forall>sid s. hm_get (sessions st) sid = Some s \<longrightarrow> session_ok s)"

lemma auth_session_ok:
  assumes "authenticate en token = GOk auth"
  shows "ac_authorized_guilds auth = None \<longleftrightarrow> client_of (ac_principal auth) = None"
  using assms unfolding authenticate_def by (auto elim!: auth_GOk_cases)

lemma new_conn_ok [simp]: "conn_ok (new_conn now)"
  by (simp add: conn_ok_def new_conn_def)

lemma get_session_ok:
  assumes "wf_inner st" and "sessions_ok st" and "get_session now sid st = (res, st')"
  shows "sessions_ok st'" and "wf_inner st'" and "res = Some s \<Longrightarrow> session_ok s"
proof -
  have g: "fst (get_session now sid st) = res" "snd (get_session now sid st) = st'" using assms(3) by simp_all
  show "wf_inner st'" using get_session_wf [OF assms(1)] g by metis
  show "sessions_ok st'"
    unfolding sessions_ok_def
  proof (intro allI impI)
    fix sid' s' assume "hm_get (sessions st') sid' = Some s'"
    then obtain s0 where "hm_get (sessions st) sid' = Some s0" "session_ok s' = session_ok s0"
      using ses.get_lookup [OF assms(1), of now sid sid'] g
      by (auto simp: session_ok_def split: option.splits if_splits)
    then show "session_ok s'" using assms(2) by (simp add: sessions_ok_def)
  qed
  show "session_ok s" if "res = Some s"
    using ses.get_result [OF assms(1), of now sid] g that assms(2)
    by (auto simp: session_ok_def sessions_ok_def split: option.splits if_splits)
qed

lemma create_session_ok:
  assumes "wf_inner st" and "sessions_ok st" and "session_ok s"
    and "create_session now rnd s st = Ret (sid, st')"
  shows "sessions_ok st'" and "wf_inner st'"
  using assms ses.create_lookup [OF assms(1,4)] create_session_wf [OF assms(1,4)]
  by (auto simp: sessions_ok_def split: if_splits option.splits)

lemma activate_wf: "activate cl cn st = (cn', st') \<Longrightarrow> wf_inner st \<Longrightarrow> wf_inner st'"
  by (auto simp: activate_def split: option.splits if_splits)

lemma leave_old_voice_wf: "leave_old_voice cl i st = Ret st' \<Longrightarrow> wf_inner st \<Longrightarrow> wf_inner st'"
  by (auto simp: leave_old_voice_def wf_inner_def split: option.splits
      dest!: leave_voice_Ret(1) send_voice_leaves_Ret)

text \<open>The parts of a command: it is dropped, refused, or goes to the shard of its guild.\<close>

lemma send_command_cases:
  assumes "send_command en c g vc cmd st = Ret st'"
  obtains (bad_channel) "st' = st"
    | (limited) "allow_client_command (en_now en) c CLIENT_COMMAND_LIMIT CLIENT_COMMAND_WINDOW st = (False, st')"
    | (denied) st1 ch where "vc = Some ch"
      and "allow_client_command (en_now en) c CLIENT_COMMAND_LIMIT CLIENT_COMMAND_WINDOW st = (True, st1)"
      and "claim_voice (en_config en) g c (ch \<noteq> None) st1 = Ret (Deny, st')"
    | (passed) st1 st2 where
      "allow_client_command (en_now en) c CLIENT_COMMAND_LIMIT CLIENT_COMMAND_WINDOW st = (True, st1)"
      and "\<forall>x. vc = Some (Some x) \<longrightarrow> resolve_guild_id_for_channel st x = Some g"
      and "vc = None \<and> st2 = st1 \<or>
        (\<exists>ch. vc = Some ch \<and> claim_voice (en_config en) g c (ch \<noteq> None) st1 = Ret (Allow, st2))"
      and "st' = st2 \<or>
        (\<exists>sh. shard_for_guild st2 g = Ret (Some sh) \<and> st' = send_upstream (sh_id sh) cmd st2)"
proof -
  obtain b st1 where a: "allow_client_command (en_now en) c CLIENT_COMMAND_LIMIT CLIENT_COMMAND_WINDOW st = (b, st1)"
    by fastforce
  show thesis
  proof (cases "\<exists>x. vc = Some (Some x) \<and> resolve_guild_id_for_channel st x \<noteq> Some g")
    case True
    with assms bad_channel show thesis by (auto simp: send_command_def)
  next
    case ch: False
    show thesis
    proof (cases b)
      case False
      with assms a ch limited show thesis by (auto simp: send_command_def split: option.splits)
    next
      case True
      define claim where "claim = (case vc of
          Some channel \<Rightarrow> claim_voice (en_config en) g c (channel \<noteq> None) st1 | None \<Rightarrow> Ret (Allow, st1))"
      from assms a ch True obtain d st2 where cl: "claim = Ret (d, st2)"
        and rest: "if d = Deny then st' = st2 else
          (\<exists>found. shard_for_guild st2 g = Ret found \<and>
             st' = (case found of None \<Rightarrow> st2 | Some sh \<Rightarrow> send_upstream (sh_id sh) cmd st2))"
        by (auto simp: send_command_def claim_def split: option.splits if_splits)
      show thesis
      proof (cases d)
        case Deny
        with cl rest a True denied show thesis
          by (cases vc) (auto simp: claim_def)
      next
        case Allow
        with rest have "st' = st2 \<or>
            (\<exists>sh. shard_for_guild st2 g = Ret (Some sh) \<and> st' = send_upstream (sh_id sh) cmd st2)"
          by (auto split: option.splits)
        moreover have "vc = None \<and> st2 = st1 \<or>
            (\<exists>ch. vc = Some ch \<and> claim_voice (en_config en) g c (ch \<noteq> None) st1 = Ret (Allow, st2))"
          using cl Allow by (cases vc) (auto simp: claim_def)
        ultimately show thesis using a True ch by (intro passed) auto
      qed
    qed
  qed
qed

lemma send_command_wf: "send_command en c g vc cmd st = Ret st' \<Longrightarrow> wf_inner st \<Longrightarrow> wf_inner st'"
proof (erule send_command_cases, goal_cases)
  case 1 then show ?case by simp
next
  case 2 then show ?case by (metis allow_command_wf snd_conv)
next
  case 3 then show ?case by (metis allow_command_wf snd_conv claim_voice_wf)
next
  case (4 st1 st2)
  then have "wf_inner st1" by (metis allow_command_wf snd_conv)
  then have "wf_inner st2" using 4(4) by (auto dest: claim_voice_wf)
  then show ?case using 4(5) by auto
qed

lemma send_command_sessions: "send_command en c g vc cmd st = Ret st' \<Longrightarrow> sessions st' = sessions st"
proof (erule send_command_cases, goal_cases)
  case 4 then show ?case by (auto dest!: allow_command_rest claim_voice_rest)
qed (auto dest!: allow_command_rest claim_voice_rest)

lemma identified_steps:
  assumes "identified en d auth cn st = Ret (flow, cn', st')"
  obtains cn1 st1 st2 session_id sh
  where "activate (client_of (ac_principal auth)) cn st = (cn1, st1)"
    and "leave_old_voice (client_of (ac_principal auth)) (fst (idf_shard d)) st1 = Ret st2"
    and "create_session (en_now en) (en_random en)
      \<lparr>ss_shard_id = fst (idf_shard d), ss_compress = idf_compress d, ss_principal = ac_principal auth,
       ss_authorized_guilds = ac_authorized_guilds auth, ss_last_accessed = en_now en\<rparr> st2 = Ret (session_id, st')"
    and "shard_at st' (fst (idf_shard d)) = Ret sh" and "flow = Continue"
    and "cn' = cn1\<lparr>cn_command_scope := client_of (ac_principal auth), cn_shard_sender := Some (sh_id sh),
        cn_compress_tx := False, cn_compress := Some (idf_compress d),
        cn_forward := Some (\<lparr>fw_session_id = session_id, fw_shard = unat (fst (idf_shard d)),
          fw_send_guilds = True, fw_authorized_guilds = ac_authorized_guilds auth,
          fw_client_id = client_of (ac_principal auth)\<rparr>, 0)\<rparr>"
proof -
  obtain cn1 st1 where act: "activate (client_of (ac_principal auth)) cn st = (cn1, st1)" by fastforce
  with assms that show thesis by (auto simp: identified_def Let_def)
qed

lemma resumed_steps:
  assumes "resumed d auth s cn st = Ret (flow, cn', st')"
  obtains sh cn1
  where "shard_at st (ss_shard_id s) = Ret sh"
    and "activate (client_of (ss_principal s)) (cn\<lparr>cn_shard_sender := Some (sh_id sh)\<rparr>) st = (cn1, st')"
    and "flow = Continue \<longleftrightarrow> cn_compress_tx cn"
    and "cn_compress_tx cn \<Longrightarrow> cn' = cn1\<lparr>cn_command_scope := client_of (ss_principal s), cn_compress_tx := False,
        cn_compress := Some (ss_compress s),
        cn_forward := Some (\<lparr>fw_session_id = res_session_id d, fw_shard = unat (ss_shard_id s),
          fw_send_guilds = False,
          fw_authorized_guilds = (case ss_principal s of
            Client _ \<Rightarrow> ac_authorized_guilds auth | _ \<Rightarrow> ss_authorized_guilds s),
          fw_client_id = client_of (ss_principal s)\<rparr>, res_seq d)\<rparr>"
proof -
  obtain sh where sh: "shard_at st (ss_shard_id s) = Ret sh" using assms by (auto simp: resumed_def)
  obtain cn1 st1 where act: "activate (client_of (ss_principal s)) (cn\<lparr>cn_shard_sender := Some (sh_id sh)\<rparr>) st = (cn1, st1)"
    by fastforce
  show thesis
    using that [OF sh] assms sh act by (auto simp: resumed_def Let_def split: if_splits)
qed

lemma identified_invariant:
  assumes ok: "conn_ok cn" "sessions_ok st" "wf_inner st"
    and fresh: "cn_compress_tx cn" and auth: "authenticate en (idf_token d) = GOk auth"
    and step: "identified en d auth cn st = Ret (flow, cn', st')"
  shows "conn_ok cn' \<and> sessions_ok st' \<and> wf_inner st'"
proof -
  from step obtain cn1 st1 st2 session_id sh
    where act: "activate (client_of (ac_principal auth)) cn st = (cn1, st1)"
      and lv: "leave_old_voice (client_of (ac_principal auth)) (fst (idf_shard d)) st1 = Ret st2"
      and cs: "create_session (en_now en) (en_random en)
        \<lparr>ss_shard_id = fst (idf_shard d), ss_compress = idf_compress d, ss_principal = ac_principal auth,
         ss_authorized_guilds = ac_authorized_guilds auth, ss_last_accessed = en_now en\<rparr> st2 = Ret (session_id, st')"
      and "shard_at st' (fst (idf_shard d)) = Ret sh"
      and cn': "cn' = cn1\<lparr>cn_command_scope := client_of (ac_principal auth), cn_shard_sender := Some (sh_id sh),
      cn_compress_tx := False, cn_compress := Some (idf_compress d),
      cn_forward := Some (\<lparr>fw_session_id = session_id, fw_shard = unat (fst (idf_shard d)),
        fw_send_guilds = True, fw_authorized_guilds = ac_authorized_guilds auth,
        fw_client_id = client_of (ac_principal auth)\<rparr>, 0)\<rparr>"
    by (rule identified_steps) (rule that)
  have wf2: "wf_inner st2" using activate_wf [OF act ok(3)] leave_old_voice_wf [OF lv] by blast
  have "sessions st2 = sessions st"
    using activate_rest(3) [OF act] leave_old_voice_sessions [OF lv] by simp
  then have "sessions_ok st2" using ok(2) by (simp add: sessions_ok_def)
  note new = create_session_ok [OF wf2 this _ cs]
  have auth: "ac_authorized_guilds auth = None \<longleftrightarrow> client_of (ac_principal auth) = None"
    using auth by (rule auth_session_ok)
  have "conn_ok cn'"
    using ok(1) fresh auth activate_rest(6) [OF act] by (auto simp: cn' conn_ok_def)
  with new auth show ?thesis by (simp add: session_ok_def)
qed

lemma resumed_invariant:
  assumes ok: "conn_ok cn" "sessions_ok st" "wf_inner st"
    and auth: "authenticate en (res_token d) = GOk auth"
    and found: "get_session (en_now en) (res_session_id d) st = (Some s, st1)"
    and principal: "ss_principal s = ac_principal auth"
    and step: "resumed d auth s cn st1 = Ret (flow, cn', st')"
  shows "(flow = Continue \<longrightarrow> conn_ok cn') \<and> sessions_ok st' \<and> wf_inner st'"
proof -
  note g = get_session_ok [OF ok(3,2) found]
  from step obtain sh cn1
    where "shard_at st1 (ss_shard_id s) = Ret sh"
      and act: "activate (client_of (ss_principal s)) (cn\<lparr>cn_shard_sender := Some (sh_id sh)\<rparr>) st1 = (cn1, st')"
      and fl: "flow = Continue \<longleftrightarrow> cn_compress_tx cn"
      and cn': "cn_compress_tx cn \<Longrightarrow> cn' = cn1\<lparr>cn_command_scope := client_of (ss_principal s), cn_compress_tx := False,
      cn_compress := Some (ss_compress s),
      cn_forward := Some (\<lparr>fw_session_id = res_session_id d, fw_shard = unat (ss_shard_id s),
        fw_send_guilds = False,
        fw_authorized_guilds = (case ss_principal s of
          Client _ \<Rightarrow> ac_authorized_guilds auth | _ \<Rightarrow> ss_authorized_guilds s),
        fw_client_id = client_of (ss_principal s)\<rparr>, res_seq d)\<rparr>"
    by (rule resumed_steps) (rule that)
  have auth: "ac_authorized_guilds auth = None \<longleftrightarrow> client_of (ac_principal auth) = None"
    using auth by (rule auth_session_ok)
  have filter: "(case ss_principal s of Client _ \<Rightarrow> ac_authorized_guilds auth | _ \<Rightarrow> ss_authorized_guilds s) = None
      \<longleftrightarrow> client_of (ss_principal s) = None"
    using auth principal g(3) [OF refl] by (auto simp: session_ok_def split: session_principal.splits)
  have act1: "cn_active_client cn1 = (if cn_active_client cn = None then client_of (ss_principal s) else cn_active_client cn)"
    using activate_rest(6) [OF act] by simp
  have "cn_shard_sender cn1 = Some (sh_id sh)"
    using activate_rest(5) [OF act] by (metis conn.select_convs(3) conn.surjective conn.update_convs(3,5))
  then have "flow = Continue \<longrightarrow> conn_ok cn'"
    using ok(1) fl cn' filter act1 by (auto simp: conn_ok_def)
  moreover have "sessions_ok st'"
    using activate_rest(3) [OF act] g(1) by (simp add: sessions_ok_def)
  moreover have "wf_inner st'" using activate_wf [OF act] g(2) by simp
  ultimately show ?thesis by simp
qed

lemma client_step_invariant:
  assumes ok: "conn_ok cn" "sessions_ok st" "wf_inner st"
    and step: "client_step en ev cn st = Ret (flow, cn', st')"
  shows "flow = Continue \<longrightarrow> conn_ok cn'" and "sessions_ok st'" and "wf_inner st'"
proof -
  have "(flow = Continue \<longrightarrow> conn_ok cn') \<and> sessions_ok st' \<and> wf_inner st'"
    using step
  proof (cases rule: client_step_cases)
    case quiet
    have "conn_ok cn'" using ok(1) by (subst quiet(2)) (auto simp: conn_ok_def split: if_splits)
    with quiet(1) ok show ?thesis by simp
  next
    case (identify p d auth)
    from identified_invariant [OF ok identify(2,6,7)] show ?thesis by simp
  next
    case (no_session p d auth)
    obtain res where "get_session (en_now en) (res_session_id d) st = (res, st')"
      using no_session(5) by (metis prod.collapse)
    from get_session_ok(1,2) [OF ok(3,2) this] no_session(4) show ?thesis by simp
  next
    case (resume p d auth s st1)
    from resumed_invariant [OF ok resume(3-6)] show ?thesis .
  next
    case direct
    then show ?thesis using ok by (simp add: sessions_ok_def)
  next
    case (filtered p e c gs g vc cmd)
    then show ?thesis
      using ok send_command_wf [OF filtered(7)] send_command_sessions [OF filtered(7)]
      by (simp add: sessions_ok_def)
  qed
  then show "flow = Continue \<longrightarrow> conn_ok cn'" and "sessions_ok st'" and "wf_inner st'" by blast+
qed

section \<open>What a tenant connection sends upstream\<close>

lemma send_command_upstream:
  assumes "send_command en c g vc cmd st = Ret st'"
  shows "upstream st' = upstream st \<or>
    (\<exists>sh. upstream st' = upstream st @ [(sh_id sh, cmd)] \<and> shard_for_guild st g = Ret (Some sh) \<and>
       fst (allow_client_command (en_now en) c CLIENT_COMMAND_LIMIT CLIENT_COMMAND_WINDOW st) \<and>
       (\<forall>x. vc = Some (Some x) \<longrightarrow> resolve_guild_id_for_channel st x = Some g) \<and>
       (vc \<noteq> None \<longrightarrow> (\<nexists>a. owner_view st g = Some (a, True) \<and> a \<noteq> c)))"
  using assms
proof (cases rule: send_command_cases)
  case (passed st1 st2)
  note allow = allow_command_rest [OF passed(1)]
  have core: "same_core st st2"
    using passed(3) allow_command_core [OF passed(1)] by (auto dest: claim_voice_core intro: same_core_trans)
  have up: "upstream st2 = upstream st" using passed(3) allow by (auto dest!: claim_voice_rest)
  have own: "\<nexists>a. owner_view st g = Some (a, True) \<and> a \<noteq> c" if vc: "vc \<noteq> None"
  proof -
    obtain ch where "vc = Some ch" using vc by blast
    with passed(3) have cl: "claim_voice (en_config en) g c (ch \<noteq> None) st1 = Ret (Allow, st2)" by simp
    then obtain b where "Allow = decide_voice_command (hm_get (voice_owners st1) g) c b"
      by (rule claim_voice_cases)
    then show ?thesis
      using allow by (auto simp: decide_voice_command_def owner_view_Some split: option.splits if_splits)
  qed
  show ?thesis
    using passed(1,2,4) core up own same_core_shard_for_guild [OF core, of g] by auto
qed (auto dest!: allow_command_rest claim_voice_rest)

end
