(* ===== verification/Client_Total.thy ===== *)
theory Client_Total
  imports Client_Facts
begin

text \<open>
  When a step of a client connection returns: which lookups may panic, and that with every shard
  present, and sessions that name existing shards, none does. The steps keep that state.
\<close>

section \<open>Panics\<close>

text \<open>With every shard of \<open>shard_count\<close> present no step panics.\<close>

definition shard_ids_bound :: "u32 \<Rightarrow> inner \<Rightarrow> bool" where
  "shard_ids_bound n st \<longleftrightarrow> (\<forall>sid s. hm_get (sessions st) sid = Some s \<longrightarrow> ss_shard_id s < n)"

definition all_shards :: "inner \<Rightarrow> bool" where
  "all_shards st \<longleftrightarrow> length (shards st) = unat (shard_count st) \<and> shard_count st \<noteq> 0 \<and>
     shard_ids_bound (shard_count st) st"

lemma claim_voice_total:
  "shard_count st \<noteq> 0 \<Longrightarrow> \<exists>x. claim_voice cfg g c j st = Ret x"
proof -
  assume "shard_count st \<noteq> 0"
  then obtain b where "bot_in_voice cfg st g = Ret b" using bot_in_voice_total by blast
  then show ?thesis by (simp add: claim_voice_def)
qed

lemma send_command_total:
  assumes "shard_count st \<noteq> 0"
  shows "\<exists>st'. send_command en c g vc cmd st = Ret st'"
proof -
  obtain b st1 where a: "allow_client_command (en_now en) c CLIENT_COMMAND_LIMIT CLIENT_COMMAND_WINDOW st = (b, st1)"
    by fastforce
  have n1: "shard_count st1 \<noteq> 0" using allow_command_core [OF a] assms by (simp add: same_core_def)
  have fin: "\<exists>st'. omap (\<lambda>found. case found of None \<Rightarrow> m | Some sh \<Rightarrow> send_upstream (sh_id sh) cmd m)
      (shard_for_guild m g) = Ret st'" if "shard_count m \<noteq> 0" for m
    using shard_for_guild_total [OF that, of g] by auto
  show ?thesis
  proof (cases vc)
    case None
    then show ?thesis using a fin [OF n1] by (cases b) (auto simp: send_command_def)
  next
    case (Some ch)
    obtain d st2 where cl: "claim_voice (en_config en) g c (ch \<noteq> None) st1 = Ret (d, st2)"
      using claim_voice_total [OF n1] by fastforce
    have "shard_count st2 \<noteq> 0" using claim_voice_core [OF cl] n1 by (simp add: same_core_def)
    from fin [OF this] show ?thesis
      using a cl Some by (cases b; cases ch) (auto simp: send_command_def)
  qed
qed

lemma leave_old_voice_total:
  assumes "shard_count st \<noteq> 0"
  shows "\<exists>st'. leave_old_voice cl i st = Ret st'"
proof (cases cl)
  case None
  then show ?thesis by (simp add: leave_old_voice_def)
next
  case (Some c)
  obtain gs st1 where lv: "leave_voice_for_client c i st = Ret (gs, st1)"
    using leave_voice_total [OF assms] by blast
  have "shard_count st1 \<noteq> 0" using leave_voice_core [OF lv] assms by (simp add: same_core_def)
  then obtain st2 where "send_voice_leaves gs st1 = Ret st2" using send_voice_leaves_total by blast
  with Some lv show ?thesis by (simp add: leave_old_voice_def)
qed

lemma shard_at_total: "unat i < length (shards st) \<Longrightarrow> \<exists>sh. shard_at st i = Ret sh"
  by (simp add: shard_at_def)

lemma identified_result:
  assumes "shard_count st \<noteq> 0" and "hm_get (sessions st) (en_random en j) = None" and "wf_inner st"
  shows "if unat (fst (idf_shard d)) < length (shards st)
    then \<exists>x. identified en d auth cn st = Ret x else identified en d auth cn st = Panic"
proof -
  let ?cl = "client_of (ac_principal auth)" and ?i = "fst (idf_shard d)"
  let ?s = "\<lparr>ss_shard_id = ?i, ss_compress = idf_compress d, ss_principal = ac_principal auth,
       ss_authorized_guilds = ac_authorized_guilds auth, ss_last_accessed = en_now en\<rparr>"
  obtain cn1 st1 where act: "activate ?cl cn st = (cn1, st1)" by fastforce
  note a = activate_rest [OF act]
  obtain st2 where lv: "leave_old_voice ?cl ?i st1 = Ret st2"
    using leave_old_voice_total [of st1] assms(1) a(2) by auto
  have wf2: "hm_wf (sessions st2)"
    using activate_wf [OF act assms(3)] leave_old_voice_wf [OF lv] by (auto intro: wf_innerD)
  have "sessions st2 = sessions st" using a(3) leave_old_voice_sessions [OF lv] by simp
  then have "hm_get (prune_expired_sessions (en_now en) (sessions st2)) (en_random en j) = None"
    using prune_get [OF wf2] assms(2) by simp
  then obtain sid st3 where cs: "create_session (en_now en) (en_random en) ?s st2 = Ret (sid, st3)"
    using create_session_returns by blast
  have "shards st3 = shards st"
    using a(1) leave_old_voice_core [OF lv] create_session_core [OF cs] by (simp add: same_core_def)
  then show ?thesis
    using act lv cs by (simp add: identified_def Let_def shard_at_def)
qed

section \<open>The arms of the loop return\<close>

lemma on_identify_returns:
  assumes "all_shards st" and "wf_inner st" and "hm_get (sessions st) (en_random en j) = None"
  shows "\<exists>x. on_identify en p cn st = Ret x"
proof (cases "parse_identify (en_json en) p")
  case (Some d)
  have n: "shard_count st \<noteq> 0" and len: "length (shards st) = unat (shard_count st)"
    using assms(1) by (simp_all add: all_shards_def)
  show ?thesis
  proof (cases "cn_compress_tx cn \<and> snd (idf_shard d) = shard_count st \<and> fst (idf_shard d) < shard_count st")
    case True
    then have "unat (fst (idf_shard d)) < length (shards st)" using len by (simp add: word_less_nat_alt)
    then show ?thesis
      using identified_result [OF n assms(3,2), of d] True Some
      by (auto simp: on_identify_def split: gateway_auth_result.splits)
  qed (use Some in \<open>auto simp: on_identify_def not_less\<close>)
qed (simp add: on_identify_def)

lemma resumed_returns:
  assumes "all_shards st" and "wf_inner st" and "get_session now sid st = (Some s, st1)"
  shows "\<exists>x. resumed d auth s cn st1 = Ret x"
proof -
  obtain s0 where "hm_get (sessions st) sid = Some s0" "ss_shard_id s = ss_shard_id s0"
    using ses.get_same_principal [OF assms(2), of now sid s] assms(3) by auto
  then have "ss_shard_id s < shard_count st" using assms(1) by (auto simp: all_shards_def shard_ids_bound_def)
  moreover have "shards st1 = shards st" using get_session_core [OF assms(3)] by (simp add: same_core_def)
  ultimately have "unat (ss_shard_id s) < length (shards st1)"
    using assms(1) by (simp add: word_less_nat_alt all_shards_def)
  then obtain sh where sh: "shard_at st1 (ss_shard_id s) = Ret sh" using shard_at_total by blast
  show ?thesis unfolding resumed_def sh omap_simps by blast
qed

lemma on_resume_returns:
  assumes "all_shards st" and "wf_inner st"
  shows "\<exists>x. on_resume en p cn st = Ret x"
  using resumed_returns [OF assms]
  by (cases "parse_resume (en_json en) p")
    (auto simp: on_resume_def split: gateway_auth_result.splits prod.splits option.splits)

lemma on_command_returns:
  assumes "shard_count st \<noteq> 0"
  shows "\<exists>x. on_command en opcode p cn st = Ret x"
proof -
  have "\<exists>x. send_command en c g vc t st = Ret x" for c g vc t using send_command_total [OF assms] by blast
  then show ?thesis by (auto simp: on_command_def Let_def split: option.splits)
qed

lemma client_step_returns:
  assumes "all_shards st" and "wf_inner st" and "hm_get (sessions st) (en_random en j) = None"
  shows "\<exists>flow cn' st'. client_step en ev cn st = Ret (flow, cn', st')"
proof -
  have n: "shard_count st \<noteq> 0" using assms(1) by (simp add: all_shards_def)
  have "\<exists>x. client_step en ev cn st = Ret x"
  proof (cases ev)
    case (ClientText p)
    show ?thesis
    proof (cases "from_json p")
      case (Some e)
      show ?thesis
        using on_identify_returns [OF assms, of p cn] on_resume_returns [OF assms(1,2), of en p cn]
          on_command_returns [OF n, of en "op_value (ge_op e)" p cn]
        by (simp add: client_step_def ClientText Some Let_def)
    qed (simp add: client_step_def ClientText)
  qed (simp_all add: client_step_def)
  then show ?thesis by (metis prod.collapse)
qed

section \<open>What the steps keep\<close>

lemma client_step_core:
  assumes "client_step en ev cn st = Ret (flow, cn', st')"
  shows "shards st' = shards st \<and> shard_count st' = shard_count st"
  using assms
proof (cases rule: client_step_cases)
  case (identify p d auth)
  from identify(7) obtain cn1 st1 st2 session_id s where
    "activate (client_of (ac_principal auth)) cn st = (cn1, st1)"
    "leave_old_voice (client_of (ac_principal auth)) (fst (idf_shard d)) st1 = Ret st2"
    "create_session (en_now en) (en_random en) s st2 = Ret (session_id, st')"
    by (rule identified_steps) (rule that)
  then show ?thesis using activate_rest(1,2)
    by (auto dest!: leave_old_voice_core create_session_core simp: same_core_def)
next
  case (no_session p d auth)
  obtain res where "get_session (en_now en) (res_session_id d) st = (res, st')"
    using no_session(5) by (metis prod.collapse)
  then show ?thesis by (auto dest!: get_session_core simp: same_core_def)
next
  case (resume p d auth s st1)
  obtain sh cn1 where "shard_at st1 (ss_shard_id s) = Ret sh"
    "activate (client_of (ss_principal s)) (cn\<lparr>cn_shard_sender := Some (sh_id sh)\<rparr>) st1 = (cn1, st')"
    using resume(6) by (rule resumed_steps) (rule that)
  then show ?thesis using activate_rest(1,2) resume(4)
    by (auto dest!: get_session_core simp: same_core_def)
next
  case filtered
  then show ?thesis by (auto dest!: send_command_core simp: same_core_def)
qed simp_all

lemma get_session_bound:
  assumes "wf_inner st" and "shard_ids_bound n st" and "get_session now sid st = (res, st')"
  shows "shard_ids_bound n st'"
  unfolding shard_ids_bound_def
proof (intro allI impI)
  fix sid' s'
  assume "hm_get (sessions st') sid' = Some s'"
  then obtain s0 where "hm_get (sessions st) sid' = Some s0" "ss_shard_id s' = ss_shard_id s0"
    using ses.get_lookup [OF assms(1), of now sid sid'] assms(3)
    by (auto split: option.splits if_splits)
  then show "ss_shard_id s' < n" using assms(2) by (simp add: shard_ids_bound_def)
qed

lemma create_session_bound:
  assumes "wf_inner st" and "shard_ids_bound n st" and "ss_shard_id s < n"
    and "create_session now rnd s st = Ret (sid, st')"
  shows "shard_ids_bound n st'"
  using assms(2,3) ses.create_lookup [OF assms(1,4)]
  by (auto simp: shard_ids_bound_def split: if_splits option.splits)

lemma client_step_bound:
  assumes "client_step en ev cn st = Ret (flow, cn', st')" and "wf_inner st"
    and "shard_ids_bound (shard_count st) st"
  shows "shard_ids_bound (shard_count st) st'"
  using assms(1)
proof (cases rule: client_step_cases)
  case (identify p d auth)
  from identify(7) obtain cn1 st1 st2 session_id
    where act: "activate (client_of (ac_principal auth)) cn st = (cn1, st1)"
      and lv: "leave_old_voice (client_of (ac_principal auth)) (fst (idf_shard d)) st1 = Ret st2"
      and cs: "create_session (en_now en) (en_random en)
      \<lparr>ss_shard_id = fst (idf_shard d), ss_compress = idf_compress d, ss_principal = ac_principal auth,
       ss_authorized_guilds = ac_authorized_guilds auth, ss_last_accessed = en_now en\<rparr> st2 = Ret (session_id, st')"
    by (rule identified_steps) (rule that)
  have "wf_inner st2" using activate_wf [OF act assms(2)] leave_old_voice_wf [OF lv] by blast
  moreover have "sessions st2 = sessions st"
    using activate_rest(3) [OF act] leave_old_voice_sessions [OF lv] by simp
  then have "shard_ids_bound (shard_count st) st2" using assms(3) by (simp add: shard_ids_bound_def)
  moreover note identify(5)
  ultimately show ?thesis using cs by (intro create_session_bound [OF _ _ _ cs]) simp_all
next
  case (no_session p d auth)
  obtain res where "get_session (en_now en) (res_session_id d) st = (res, st')"
    using no_session(5) by (metis prod.collapse)
  then show ?thesis by (rule get_session_bound [OF assms(2,3)])
next
  case (resume p d auth s st1)
  obtain sh cn1 where "shard_at st1 (ss_shard_id s) = Ret sh"
    "activate (client_of (ss_principal s)) (cn\<lparr>cn_shard_sender := Some (sh_id sh)\<rparr>) st1 = (cn1, st')"
    using resume(6) by (rule resumed_steps) (rule that)
  then have "sessions st' = sessions st1" using activate_rest(3) by blast
  then show ?thesis
    using get_session_bound [OF assms(2,3) resume(4)] by (simp add: shard_ids_bound_def)
next
  case filtered
  then show ?thesis using assms(3) by (auto dest!: send_command_sessions simp: shard_ids_bound_def)
qed (use assms(3) in \<open>simp_all add: shard_ids_bound_def\<close>)

end
