(* ===== verification/Gateway_Safety.thy ===== *)
theory Gateway_Safety
  imports Client_Total
begin

text \<open>
  The properties of the gateway connections: what a client may send, who it is taken for, and how
  connections, sessions and budgets are accounted.
\<close>

section \<open>A connection to try things on\<close>

definition demo_identify_json :: json_lib where
  "demo_identify_json =
     demo_json\<lparr>parse_identify := (\<lambda>_. Some \<lparr>idf_compress = None, idf_shard = (0, 2), idf_token = ''Bot a:sa''\<rparr>),
       parse_resume := (\<lambda>_. Some \<lparr>res_session_id = ''sid'', res_seq = 5, res_token = ''a:sa''\<rparr>),
       parse_request_guild_members := (\<lambda>_. Some \<lparr>rgm_guild_id = ''7'', rgm_query = Some [], rgm_limit = Some 0,
         rgm_presences = None, rgm_user_ids = None, rgm_nonce = None\<rparr>)\<rparr>"

definition demo_env :: env where
  "demo_env =
     \<lparr>en_json = demo_identify_json, en_config = demo_config, en_registry = demo_registry, en_now = 0,
      en_random = (\<lambda>n. ''sid'')\<rparr>"

definition op_text :: "string \<Rightarrow> string" where
  "op_text n = ''{\"op\":'' @ n @ '',\"d\":{}}''"

lemma run_case:
  assumes "case x of Ret (Continue, a, b) \<Rightarrow> P a b | _ \<Rightarrow> False"
  shows "\<exists>a b. x = Ret (Continue, a, b) \<and> P a b"
proof (cases x)
  case (Ret y)
  obtain f a b where y: "y = (f, a, b)" by (cases y)
  show ?thesis using assms unfolding Ret y by (cases f) simp_all
qed (use assms in simp_all)

definition demo_connected :: "conn \<times> inner" where
  "demo_connected =
     (case client_step demo_env (ClientText (op_text ''2'')) (new_conn 0) demo_inner of
        Ret (_, cn, st) \<Rightarrow> (cn, st) | _ \<Rightarrow> (new_conn 0, demo_inner))"

lemma demo_identified:
  "client_step demo_env (ClientText (op_text ''2'')) (new_conn 0) demo_inner =
     Ret (Continue, fst demo_connected, snd demo_connected)"
proof -
  have "case client_step demo_env (ClientText (op_text ''2'')) (new_conn 0) demo_inner of
      Ret (Continue, _) \<Rightarrow> True | _ \<Rightarrow> False" by code_simp
  then show ?thesis by (auto simp: demo_connected_def split: outcome.splits loop_flow.splits)
qed




section \<open>Commands\<close>



text \<open>A connection is closed with 4003, and nothing reaches Discord, when it sends anything but a
  heartbeat, an IDENTIFY or a RESUME before it has authenticated.\<close>

theorem unauthenticated_command_closes:
  assumes "conn_ok cn" and "cn_compress_tx cn" and "from_json p = Some e"
    and "op_value (ge_op e) \<notin> {1, 2, 6}"
  shows "\<exists>cn'. client_step en (ClientText p) cn st = Ret (Stop, cn', st) \<and>
    cn_out cn' = cn_out cn @ [WsClose 4003 ''not authenticated''] \<and> cn_graceful_close cn'"
  using assms by (simp add: client_step_def Let_def on_command_def conn_ok_def enqueue_def)

theorem unauthenticated_command_closes_witness:
  "\<exists>cn'. client_step demo_env (ClientText (op_text ''8'')) (new_conn 0) demo_inner = Ret (Stop, cn', demo_inner)"
proof -
  have scan: "from_json (op_text ''8'') =
      Some \<lparr>ge_event_type = None, ge_op = OpInfo 8 6 7, ge_sequence = None, ge_guild_id = None, ge_channel_id = None\<rparr>"
    by code_simp
  have "cn_compress_tx (new_conn 0)" by (simp add: new_conn_def)
  from unauthenticated_command_closes [OF new_conn_ok this scan] show ?thesis by force
qed

section \<open>Who a connection acts for\<close>



text \<open>C16: RESUME takes over only the caller's own session. If a step starts a forwarding task for a
  resumed session, the session was stored and not expired, the token authenticates as the very
  principal the session was created for, and a multi-tenant client gets its current guilds, not
  those of the session.\<close>

theorem resume_own_session:
  assumes "wf_inner st" and "from_json p = Some e" and "op_value (ge_op e) = 6"
    and "cn_forward cn = None" and "cn_forward cn' = Some (fw, seq)"
    and "client_step en (ClientText p) cn st = Ret (flow, cn', st')"
  shows "\<exists>d auth s. parse_resume (en_json en) p = Some d \<and> authenticate en (res_token d) = GOk auth \<and>
    hm_get (sessions st) (res_session_id d) = Some s \<and> session_live (en_now en) s \<and>
    ss_principal s = ac_principal auth \<and> fw_client_id fw = client_of (ac_principal auth) \<and>
    fw_session_id fw = res_session_id d \<and> seq = res_seq d \<and>
    (\<forall>c. ac_principal auth = Client c \<longrightarrow> fw_authorized_guilds fw = client_guilds (en_registry en) c)"
proof -
  have "on_resume en p cn st = Ret (flow, cn', st')"
    using assms(2,3,6) by (simp add: client_step_def Let_def)
  then show ?thesis
  proof (cases rule: on_resume_cases)
    case quiet
    with assms(4,5) show ?thesis by simp
  next
    case no_session
    with assms(4,5) show ?thesis by (simp add: reject_session_def enqueue_def)
  next
    case (resume d auth s st1)
    obtain s0 where s0: "hm_get (sessions st) (res_session_id d) = Some s0" "session_live (en_now en) s0"
      "ss_principal s = ss_principal s0"
      using ses.get_same_principal [OF assms(1), of "en_now en" "res_session_id d" s] resume(3) by auto
    obtain sh cn1 where rs: "shard_at st1 (ss_shard_id s) = Ret sh"
      "activate (client_of (ss_principal s)) (cn\<lparr>cn_shard_sender := Some (sh_id sh)\<rparr>) st1 = (cn1, st')"
      and cn': "cn_compress_tx cn \<Longrightarrow> cn' = cn1\<lparr>cn_command_scope := client_of (ss_principal s), cn_compress_tx := False,
        cn_compress := Some (ss_compress s),
        cn_forward := Some (\<lparr>fw_session_id = res_session_id d, fw_shard = unat (ss_shard_id s),
          fw_send_guilds = False,
          fw_authorized_guilds = (case ss_principal s of
            Client _ \<Rightarrow> ac_authorized_guilds auth | _ \<Rightarrow> ss_authorized_guilds s),
          fw_client_id = client_of (ss_principal s)\<rparr>, res_seq d)\<rparr>"
      using resume(5) by (rule resumed_steps) (rule that)
    have "cn_forward cn1 = None"
      using activate_rest(5) [OF rs(2)] assms(4)
      by (metis conn.select_convs(4) conn.surjective conn.update_convs(3,5))
    then have tx: "cn_compress_tx cn"
      using assms(5) resume(5) rs
      by (auto simp: resumed_def Let_def reject_session_def enqueue_def split: if_splits)
    have "fw = \<lparr>fw_session_id = res_session_id d, fw_shard = unat (ss_shard_id s),
          fw_send_guilds = False,
          fw_authorized_guilds = (case ss_principal s of
            Client _ \<Rightarrow> ac_authorized_guilds auth | _ \<Rightarrow> ss_authorized_guilds s),
          fw_client_id = client_of (ss_principal s)\<rparr>" "seq = res_seq d"
      using assms(5) cn' [OF tx] by simp_all
    moreover have "ac_authorized_guilds auth = client_guilds (en_registry en) c" if "ac_principal auth = Client c" for c
      using auth_client_guilds(1) [OF _ that] resume(2) unfolding authenticate_def by blast
    ultimately show ?thesis using resume(1,2,4) s0 by auto
  qed
qed

definition demo_stored :: inner where
  "demo_stored =
     demo_inner\<lparr>sessions := [(''sid'', \<lparr>ss_shard_id = 1, ss_compress = None, ss_principal = Client ''a'',
       ss_authorized_guilds = Some {7}, ss_last_accessed = 0\<rparr>)]\<rparr>"

theorem resume_own_session_witness:
  "\<exists>cn' st' fw. client_step demo_env (ClientText (op_text ''6'')) (new_conn 0) demo_stored = Ret (Continue, cn', st') \<and>
     cn_forward cn' = Some (fw, 5) \<and> fw_authorized_guilds fw = client_guilds demo_registry ''a''"
proof -
  let ?run = "client_step demo_env (ClientText (op_text ''6'')) (new_conn 0) demo_stored"
  have "case ?run of Ret (Continue, cn', _) \<Rightarrow>
      (case cn_forward cn' of Some (fw, seq) \<Rightarrow> seq = 5 \<and> fw_client_id fw = Some ''a'' | None \<Rightarrow> False)
      | _ \<Rightarrow> False" by code_simp
  from run_case [OF this] obtain cn' st' fw where run: "?run = Ret (Continue, cn', st')"
    and fw: "cn_forward cn' = Some (fw, 5)" "fw_client_id fw = Some ''a''" by (auto split: option.splits)
  have scan: "from_json (op_text ''6'') =
      Some \<lparr>ge_event_type = None, ge_op = OpInfo 6 6 7, ge_sequence = None, ge_guild_id = None, ge_channel_id = None\<rparr>"
    by code_simp
  have "wf_inner demo_stored" by (simp add: demo_stored_def wf_inner_def demo_inner_def hm_wf_def)
  moreover have "cn_forward (new_conn 0) = None" by (simp add: new_conn_def)
  ultimately have "\<exists>auth :: auth_context. fw_client_id fw = client_of (ac_principal auth) \<and>
    (\<forall>c. ac_principal auth = Client c \<longrightarrow> fw_authorized_guilds fw = client_guilds (en_registry demo_env) c)"
    using resume_own_session [OF _ scan _ _ fw(1) run] by fastforce
  then obtain auth :: auth_context where "fw_client_id fw = client_of (ac_principal auth)"
    "\<forall>c. ac_principal auth = Client c \<longrightarrow> fw_authorized_guilds fw = client_guilds (en_registry demo_env) c"
    by blast
  then have "fw_authorized_guilds fw = client_guilds demo_registry ''a''"
    using fw(2) by (cases "ac_principal auth") (auto simp: demo_env_def)
  with run fw(1) show ?thesis by blast
qed

section \<open>Accounting\<close>

lemma handle_client_count:
  assumes "handle_client evs cn st = Ret (flow, cn', st')"
    and "active_in cn c \<le> connection_count st c"
  shows "flow = Stop \<Longrightarrow> connection_count st' c + active_in cn c = connection_count st c"
    and "flow = Continue \<Longrightarrow>
      connection_count st' c + active_in cn c = connection_count st c + active_in cn' c"
proof -
  have "(flow = Stop \<longrightarrow> connection_count st' c + active_in cn c = connection_count st c) \<and>
    (flow = Continue \<longrightarrow> connection_count st' c + active_in cn c = connection_count st c + active_in cn' c)"
    using assms
  proof (induction evs arbitrary: cn st)
    case Nil
    then show ?case by simp
  next
    case (Cons x evs)
    obtain en ev where x: "x = (en, ev)" by (cases x)
    obtain fl cn1 st1 where step: "client_step en ev cn st = Ret (fl, cn1, st1)"
      using Cons.prems(1) by (auto simp: x)
    note n = client_step_count(1) [OF step, of c] client_step_count(2) [OF step]
    have bal: "connection_count st1 c + active_in cn c = connection_count st c + active_in cn1 c"
      using n by (auto simp: newly_active_def active_in_def)
    show ?case
    proof (cases fl)
      case Continue
      then have "handle_client evs cn1 st1 = Ret (flow, cn', st')" using Cons.prems(1) step by (simp add: x)
      moreover have "active_in cn1 c \<le> connection_count st1 c" using bal Cons.prems(2) by linarith
      ultimately show ?thesis using Cons.IH bal by fastforce
    next
      case Stop
      then have "flow = Stop" and "st' = (case cn_active_client cn1 of None \<Rightarrow> st1
          | Some client_id \<Rightarrow> mark_client_disconnected (en_now en) client_id st1)"
        using Cons.prems(1) step by (auto simp: x teardown_def)
      then have "connection_count st' c = connection_count st1 c - active_in cn1 c"
        by (auto simp: mark_disconnected_count active_in_def split: option.splits)
      moreover have "active_in cn1 c \<le> connection_count st1 c" using bal Cons.prems(2) by linarith
      ultimately show ?thesis using bal \<open>flow = Stop\<close> by simp
    qed
  qed
  then show "flow = Stop \<Longrightarrow> connection_count st' c + active_in cn c = connection_count st c"
    and "flow = Continue \<Longrightarrow>
      connection_count st' c + active_in cn c = connection_count st c + active_in cn' c" by blast+
qed

text \<open>Connection counters are balanced. When a connection ends, after whatever it received, the
  number of live connections of every client is what it was before the connection came; while it
  lasts it is one more for exactly the client it is active for.\<close>

theorem connection_counts_balanced:
  assumes "handle_client evs (new_conn t) st = Ret (flow, cn', st')"
  shows "connection_count st' c =
    connection_count st c + (if flow = Continue \<and> cn_active_client cn' = Some c then 1 else 0)"
  using handle_client_count [OF assms, of c]
  by (cases flow) (auto simp: active_in_def new_conn_def)

theorem connection_counts_balanced_witness:
  "\<exists>cn' st'. handle_client [(demo_env, ClientText (op_text ''2''))] (new_conn 0) demo_inner = Ret (Continue, cn', st') \<and>
     connection_count st' ''a'' = 1"
proof -
  have run: "handle_client [(demo_env, ClientText (op_text ''2''))] (new_conn 0) demo_inner =
      Ret (Continue, fst demo_connected, snd demo_connected)"
    by (simp add: demo_identified)
  have "cn_active_client (fst demo_connected) = Some ''a''" by code_simp
  moreover have "connection_count demo_inner ''a'' = 0" by (simp add: connection_count_def demo_inner_def)
  ultimately have "connection_count (snd demo_connected) ''a'' = 1"
    using connection_counts_balanced [OF run, of "''a''"] by simp
  with run show ?thesis by blast
qed



text \<open>C29: the command budget. While a client's window is open, exactly what is left of 20 commands is
  granted, however many are sent; and over any stretch of 60 seconds at most 40 are.\<close>

theorem command_budget:
  assumes "window_entry st c = Some (start, n)" and "n \<le> 20"
  shows "((\<forall>t\<in>set ts. start \<le> t \<and> t < start + CLIENT_COMMAND_WINDOW) \<longrightarrow>
      granted (\<lambda>now. allow_client_command now c CLIENT_COMMAND_LIMIT CLIENT_COMMAND_WINDOW) ts st =
      min (20 - n) (length ts)) \<and>
    (sorted ts \<and> start \<le> t0 \<and> (\<forall>t\<in>set ts. t0 \<le> t \<and> t < t0 + CLIENT_COMMAND_WINDOW) \<longrightarrow>
      granted (\<lambda>now. allow_client_command now c CLIENT_COMMAND_LIMIT CLIENT_COMMAND_WINDOW) ts st \<le> 40)"
  using lim.granted_open [OF assms, of ts] lim.granted_stretch [of ts t0 st c start n] assms
  by auto

lemma demo_window: "window_entry (demo_inner\<lparr>client_command_windows := [(''a'', (0, 1))]\<rparr>) ''a'' = Some (0, 1)"
  by (simp add: window_entry_def hm_get_def)

theorem command_budget_witness:
  "granted (\<lambda>now. allow_client_command now ''a'' CLIENT_COMMAND_LIMIT CLIENT_COMMAND_WINDOW)
     (replicate 50 3) (demo_inner\<lparr>client_command_windows := [(''a'', (0, 1))]\<rparr>) = 19"
  using command_budget [OF demo_window, of "replicate 50 3"]
  by (simp add: CLIENT_COMMAND_WINDOW_def secs_def)

text \<open>The budget is not 20 commands per 60 seconds. The window is fixed, not sliding: 19 commands
  at the end of a window and 20 at the start of the next are all granted, 39 within a nanosecond.\<close>

theorem budget_burst_at_window_edge:
  assumes "window_entry st c = Some (start, 1)"
  shows "granted (\<lambda>now. allow_client_command now c CLIENT_COMMAND_LIMIT CLIENT_COMMAND_WINDOW)
    (replicate 19 (start + CLIENT_COMMAND_WINDOW - 1) @ replicate 20 (start + CLIENT_COMMAND_WINDOW)) st = 39"
proof -
  let ?allow = "\<lambda>now. allow_client_command now c CLIENT_COMMAND_LIMIT CLIENT_COMMAND_WINDOW"
  let ?us = "replicate 19 (start + CLIENT_COMMAND_WINDOW - 1)" and ?t = "start + CLIENT_COMMAND_WINDOW"
  have pos: "0 < CLIENT_COMMAND_WINDOW" by (rule lim.window_pos)
  then have us: "\<forall>t\<in>set ?us. start \<le> t \<and> t < start + CLIENT_COMMAND_WINDOW" by auto
  have first: "granted ?allow ?us st = 19" using lim.granted_open [OF assms _ us] by simp
  obtain m where "window_entry (after_calls ?allow ?us st) c = Some (start, m)"
    using lim.entry_open [OF assms _ us] by auto
  then have "granted ?allow (?t # replicate 19 ?t) (after_calls ?allow ?us st) = min 20 (Suc (length (replicate 19 ?t)))"
    using pos by (intro lim.granted_reset) auto
  then have "granted ?allow (replicate 20 ?t) (after_calls ?allow ?us st) = 20"
    by (simp add: numeral_eq_Suc)
  with first show ?thesis by (simp add: granted_append)
qed

theorem budget_burst_at_window_edge_witness:
  "granted (\<lambda>now. allow_client_command now ''a'' CLIENT_COMMAND_LIMIT CLIENT_COMMAND_WINDOW)
     (replicate 19 (0 + CLIENT_COMMAND_WINDOW - 1) @ replicate 20 (0 + CLIENT_COMMAND_WINDOW))
     (demo_inner\<lparr>client_command_windows := [(''a'', (0, 1))]\<rparr>) = 39"
  by (rule budget_burst_at_window_edge [OF demo_window])

section \<open>Shards\<close>

text \<open>Routing. With all shards present a guild's commands go to the shard with Discord's number for
  it, the guild id shifted right by 22 modulo the number of shards; nothing is lost in the cast to
  32 bits.\<close>

theorem shard_routing:
  assumes "shard_count st \<noteq> 0" and "map sh_id (shards st) = map of_nat [0..<unat (shard_count st)]"
  shows "shard_for_guild st g = Ret (Some (shards st ! ((unat g div 2 ^ 22) mod unat (shard_count st))))"
proof -
  let ?n = "unat (shard_count st)"
  let ?k = "(unat g div 2 ^ 22) mod ?n"
  obtain i where i: "shard_id_for_guild st g = Ret i" using assms(1) by simp
  note v = shard_id_value [OF i]
  have n: "0 < ?n" using assms(1) by (simp add: unat_gt_0)
  have len: "length (shards st) = ?n" using arg_cong [OF assms(2), of length] by simp
  have k: "?k < length (shards st)" using n len by simp
  have ids: "sh_id (shards st ! j) = of_nat j" if "j < length (shards st)" for j
  proof -
    have "map sh_id (shards st) ! j = map of_nat [0..<?n] ! j" using assms(2) by simp
    then show ?thesis using that len by simp
  qed
  have ki: "i = of_nat ?k" using v(1) by (metis of_nat_unat_eq)
  have inj: "j = ?k" if "j < length (shards st)" "(of_nat j :: u32) = of_nat ?k" for j
  proof -
    have lt: "?n < 2 ^ LENGTH(32)" by (rule unsigned_less)
    have "unat (of_nat j :: u32) = j" by (rule unat_of_nat_id) (use that(1) len lt in linarith)
    moreover have "unat (of_nat ?k :: u32) = ?k" by (rule unat_of_nat_id) (use k len lt in linarith)
    ultimately show ?thesis using that(2) by metis
  qed
  have "List.find (\<lambda>sh. sh_id sh = i) (shards st) = Some (shards st ! ?k)"
    unfolding find_Some_iff
  proof (intro exI conjI allI impI)
    show "?k < length (shards st)" by (rule k)
    show "sh_id (shards st ! ?k) = i" using ids [OF k] ki by simp
    show "sh_id (shards st ! j) \<noteq> i" if "j < ?k" for j
      using ids [of j] inj [of j] that k ki by auto
  qed simp
  then show ?thesis using i by (simp add: shard_for_guild_def)
qed

theorem shard_routing_witness:
  "shard_for_guild demo_inner 4194304 = Ret (Some (demo_shard 1 [demo_guild 4194304 [90]] []))"
proof -
  have c: "shard_count demo_inner \<noteq> 0" by (simp add: demo_inner_def)
  have i: "map sh_id (shards demo_inner) = map of_nat [0..<unat (shard_count demo_inner)]"
    by (simp add: demo_inner_def demo_shard_def upt_rec)
  from shard_routing [OF c i, of 4194304] show ?thesis by (simp add: demo_inner_def)
qed

text \<open>With every shard present nothing a client sends stops the process or leaves this state. Each
  step returns, the shards stay, and every stored session names a shard that exists; the one thing
  it needs of the random generator is to produce some unused session id.\<close>

theorem client_step_total:
  assumes "all_shards st" and "wf_inner st" and "hm_get (sessions st) (en_random en j) = None"
  shows "\<exists>flow cn' st'. client_step en ev cn st = Ret (flow, cn', st') \<and> all_shards st' \<and>
    shards st' = shards st"
proof -
  obtain flow cn' st' where step: "client_step en ev cn st = Ret (flow, cn', st')"
    using client_step_returns [OF assms] by blast
  from client_step_core [OF step] client_step_bound [OF step assms(2)] assms(1) step
  show ?thesis by (auto simp: all_shards_def shard_ids_bound_def)
qed

theorem client_step_total_witness:
  "\<exists>flow cn' st'. client_step (demo_env\<lparr>en_random := (\<lambda>_. ''new'')\<rparr>) (ClientText (op_text ''6''))
     (new_conn 0) demo_stored = Ret (flow, cn', st')"
proof -
  have a: "all_shards demo_stored" by (auto simp: all_shards_def shard_ids_bound_def demo_stored_def demo_inner_def hm_get_def)
  have w: "wf_inner demo_stored" by (simp add: demo_stored_def wf_inner_def demo_inner_def hm_wf_def)
  have j: "hm_get (sessions demo_stored) (en_random (demo_env\<lparr>en_random := (\<lambda>_. ''new'')\<rparr>) 0) = None"
    by (simp add: demo_stored_def hm_get_def)
  from client_step_total [OF a w j] show ?thesis by blast
qed

text \<open>A proxy that runs only some of the shards is stopped by a client. The shards are stored
  one behind the other and looked up by position with the client's shard id; for a valid IDENTIFY
  whose shard id is below \<open>shard_count\<close> but not below the number of shards this proxy runs, the
  index is out of bounds and the process aborts.\<close>

theorem identify_out_of_range_panics:
  assumes "wf_inner st" and "from_json p = Some e" and "op_value (ge_op e) = 2" and "cn_compress_tx cn"
    and "parse_identify (en_json en) p = Some d" and "snd (idf_shard d) = shard_count st"
    and "fst (idf_shard d) < shard_count st" and "authenticate en (idf_token d) = GOk auth"
    and "length (shards st) \<le> unat (fst (idf_shard d))"
    and "hm_get (sessions st) (en_random en j) = None"
  shows "client_step en (ClientText p) cn st = Panic"
proof -
  have "shard_count st \<noteq> 0" using assms(7) by (metis word_not_simps(1))
  from identified_result [OF this assms(10,1), of d auth cn] assms show ?thesis
    by (simp add: client_step_def Let_def on_identify_def not_le)
qed

theorem identify_out_of_range_panics_witness:
  "client_step (demo_env\<lparr>en_json := demo_json\<lparr>parse_identify := (\<lambda>_. Some \<lparr>idf_compress = None,
       idf_shard = (3, 4), idf_token = ''a:sa''\<rparr>)\<rparr>\<rparr>) (ClientText (op_text ''2'')) (new_conn 0)
     (demo_inner\<lparr>shard_count := 4, shards := [demo_shard 2 [] [], demo_shard 3 [] []]\<rparr>) = Panic"
proof -
  let ?d = "\<lparr>idf_compress = None, idf_shard = (3, 4), idf_token = ''a:sa''\<rparr>"
  let ?en = "demo_env\<lparr>en_json := demo_json\<lparr>parse_identify := (\<lambda>_. Some ?d)\<rparr>\<rparr>"
  let ?st = "demo_inner\<lparr>shard_count := 4, shards := [demo_shard 2 [] [], demo_shard 3 [] []]\<rparr>"
  have scan: "from_json (op_text ''2'') =
      Some \<lparr>ge_event_type = None, ge_op = OpInfo 2 6 7, ge_sequence = None, ge_guild_id = None, ge_channel_id = None\<rparr>"
    by code_simp
  have n: "normalize_gateway_token ''a:sa'' = ''a:sa''" and s: "split_once CHR '':'' ''a:sa'' = Some (''a'', ''sa'')"
    by code_simp+
  have auth: "authenticate ?en (idf_token ?d) = GOk \<lparr>ac_principal = Client ''a'', ac_authorized_guilds = Some {7, 4194304}\<rparr>"
    by (simp add: authenticate_def demo_env_def n authenticate_gateway_token_def authenticate_client_with_id_def s
        client_data_state_def demo_defs hm_get_def)
  have wf: "wf_inner ?st" using demo_wf(1) by (simp add: wf_inner_def)
  show ?thesis
    by (rule identify_out_of_range_panics [OF wf scan _ _ _ _ _ auth, where j = 0])
      (simp_all add: new_conn_def demo_inner_def)
qed

end
