(* ===== verification/Rest_Routes.thy ===== *)
theory Rest_Routes
  imports Proxy_State
begin

text \<open>
  The decisions of \<open>src/rest_proxy.rs\<close> that need no connection: which scope a path has, which paths
  are canonical, what a tenant may do in a scope, which requests change the bot's voice state, and
  which headers pass.
\<close>

section \<open>Scopes\<close>

datatype route_scope =
    GuildScope u64 | ChannelScope u64 | AllowedWithoutGuild | AllowedWithoutAuth | DeniedWithoutGuild

definition parse_snowflake :: "string \<Rightarrow> u64 option" where
  "parse_snowflake v = parse_uint v"

definition path_segments :: "string \<Rightarrow> string list" where
  "path_segments path =
     filter (\<lambda>segment. segment \<noteq> []) (split_on (CHR ''/'') (trim_start_matches (CHR ''/'') path))"

text \<open>The tests on the segments behind the version, in the order of the source.\<close>

definition scope_of_route :: "string list \<Rightarrow> route_scope" where
  "scope_of_route route =
     (if route = [''gateway'', ''bot''] then AllowedWithoutGuild
      else if length route = 2 \<and> route ! 0 = ''users'' \<and> route ! 1 = ''@me'' then AllowedWithoutGuild
      else if 3 \<le> length route \<and> (route ! 0 = ''interactions'' \<or> route ! 0 = ''webhooks'')
      then
        (case parse_snowflake (route ! 1) of
           None \<Rightarrow> DeniedWithoutGuild
         | Some _ \<Rightarrow> if route ! 2 = [] then DeniedWithoutGuild else AllowedWithoutAuth)
      else if 2 \<le> length route \<and> route ! 0 = ''guilds''
      then (case parse_snowflake (route ! 1) of None \<Rightarrow> DeniedWithoutGuild | Some g \<Rightarrow> GuildScope g)
      else if 2 \<le> length route \<and> route ! 0 = ''channels''
      then (case parse_snowflake (route ! 1) of None \<Rightarrow> DeniedWithoutGuild | Some c \<Rightarrow> ChannelScope c)
      else if 4 \<le> length route \<and> route ! 0 = ''applications'' \<and> route ! 2 = ''guilds''
      then (case parse_snowflake (route ! 3) of None \<Rightarrow> DeniedWithoutGuild | Some g \<Rightarrow> GuildScope g)
      else DeniedWithoutGuild)"

definition resolve_route_scope :: "string \<Rightarrow> route_scope" where
  "resolve_route_scope path =
     (let segments = path_segments path in
      if length segments < 2 then DeniedWithoutGuild
      else if segments ! 0 = ''api'' \<and> segments ! 1 = ''v10''
      then (if length segments \<le> 2 then DeniedWithoutGuild else scope_of_route (drop 2 segments))
      else if segments ! 0 = ''v10''
      then (if length segments \<le> 1 then DeniedWithoutGuild else scope_of_route (drop 1 segments))
      else DeniedWithoutGuild)"

section \<open>Canonical paths\<close>

fun percent_decode_bytes :: "string \<Rightarrow> string option" where
  "percent_decode_bytes [] = Some []"
| "percent_decode_bytes (c # cs) =
     (if c = CHR ''%''
      then
        (case cs of
           a # b # rest \<Rightarrow>
             if utf8_valid [a, b]
             then
               (case hex_byte [a, b] of
                  None \<Rightarrow> None
                | Some d \<Rightarrow> map_option ((#) d) (percent_decode_bytes rest))
             else None
         | _ \<Rightarrow> None)
      else map_option ((#) c) (percent_decode_bytes cs))"

definition percent_decode :: "string \<Rightarrow> string option" where
  "percent_decode segment =
     Option.bind (percent_decode_bytes segment) (\<lambda>decoded. if utf8_valid decoded then Some decoded else None)"

definition canonical_segment :: "string \<Rightarrow> bool" where
  "canonical_segment segment \<longleftrightarrow>
     (case percent_decode segment of
        None \<Rightarrow> False
      | Some decoded \<Rightarrow>
          decoded \<noteq> [] \<and> decoded \<noteq> ''.'' \<and> decoded \<noteq> ''..'' \<and>
          CHR ''/'' \<notin> set decoded \<and> CHR 0x5C \<notin> set decoded)"

definition is_canonical_path :: "string \<Rightarrow> bool" where
  "is_canonical_path path \<longleftrightarrow>
     (case path of
        [] \<Rightarrow> False
      | c # rest \<Rightarrow> c = CHR ''/'' \<and> list_all canonical_segment (split_on (CHR ''/'') rest))"

section \<open>What a tenant may do\<close>

definition is_client_authorized_for_route :: "u64 set \<Rightarrow> route_scope \<Rightarrow> string \<Rightarrow> bool" where
  "is_client_authorized_for_route authorized_guilds scope verb =
     (case scope of
        GuildScope guild_id \<Rightarrow> guild_id \<in> authorized_guilds
      | ChannelScope _ \<Rightarrow> False
      | AllowedWithoutGuild \<Rightarrow> verb = ''GET''
      | AllowedWithoutAuth \<Rightarrow> True
      | DeniedWithoutGuild \<Rightarrow> False)"

definition bot_voice_change_guild ::
  "json_lib \<Rightarrow> string \<Rightarrow> string \<Rightarrow> string \<Rightarrow> u64 option \<Rightarrow> u64 option" where
  "bot_voice_change_guild J verb path body bot_user =
     (if verb \<noteq> ''PATCH'' then None
      else
        (case dropWhile (\<lambda>segment. segment = ''api'' \<or> segment = ''v10'') (path_segments path) of
           [fst_seg, guild_seg, resource, target] \<Rightarrow>
             (case parse_snowflake guild_seg of
                None \<Rightarrow> None
              | Some guild_id \<Rightarrow>
                  let is_bot = (target = ''@me'' \<or> eq_ignore_ascii_case target ''%40me'' \<or>
                        (case bot_user of None \<Rightarrow> True | Some user \<Rightarrow> parse_snowflake target = Some user))
                  in if fst_seg \<noteq> ''guilds'' \<or> \<not> is_bot then None
                     else if resource = ''voice-states'' then Some guild_id
                     else if resource = ''members''
                     then
                       (case (if utf8_valid body then parse_object_keys J body else None) of
                          None \<Rightarrow> Some guild_id
                        | Some keys \<Rightarrow>
                            if list_ex (\<lambda>field. field \<in> keys) [''channel_id'', ''mute'', ''deaf'']
                            then Some guild_id else None)
                     else None)
         | _ \<Rightarrow> None))"

definition should_attach_bot_authorization :: "route_scope \<Rightarrow> bool \<Rightarrow> bool" where
  "should_attach_bot_authorization scope has_auth_context \<longleftrightarrow>
     has_auth_context \<and> scope \<noteq> AllowedWithoutAuth"

definition should_skip_request_header :: "string \<Rightarrow> bool" where
  "should_skip_request_header name \<longleftrightarrow>
     name \<in> {''authorization'', ''host'', ''connection'', ''transfer-encoding'', ''content-length'',
       ''accept-encoding''}"

definition should_skip_response_header :: "string \<Rightarrow> bool" where
  "should_skip_response_header name \<longleftrightarrow> name \<in> {''transfer-encoding'', ''content-length''}"

section \<open>Channels\<close>

datatype channel_guild_lookup = Found u64 | UnknownChannel | MissingGuild | LookupFailed

datatype channel_scope_decision =
    AllowChannel | UnknownChannelDecision | LookupFailedDecision | Forbidden "u64 option"

definition parse_guild_id_value :: "json \<Rightarrow> u64 option" where
  "parse_guild_id_value v =
     (case v of
        JStr s \<Rightarrow> parse_snowflake s
      | JInt n \<Rightarrow> if 0 \<le> n \<and> n < 2 ^ 64 then Some (word_of_int n) else None
      | _ \<Rightarrow> None)"

definition parse_guild_id_from_channel_payload :: "json_lib \<Rightarrow> string \<Rightarrow> u64 option" where
  "parse_guild_id_from_channel_payload J raw =
     (case parse_value J raw of
        Some (JObj obj) \<Rightarrow> Option.bind (hm_get obj ''guild_id'') parse_guild_id_value
      | _ \<Rightarrow> None)"

definition classify_channel_lookup_response :: "json_lib \<Rightarrow> u16 \<Rightarrow> string \<Rightarrow> channel_guild_lookup" where
  "classify_channel_lookup_response J status raw =
     (if status = 404 then UnknownChannel
      else if \<not> (200 \<le> status \<and> status < 300) then LookupFailed
      else
        (case parse_guild_id_from_channel_payload J raw of
           Some guild_id \<Rightarrow> Found guild_id
         | None \<Rightarrow> MissingGuild))"

definition channel_scope_decision :: "channel_guild_lookup \<Rightarrow> u64 set \<Rightarrow> channel_scope_decision" where
  "channel_scope_decision lookup authorized_guilds =
     (case lookup of
        Found guild_id \<Rightarrow>
          if guild_id \<in> authorized_guilds then AllowChannel else Forbidden (Some guild_id)
      | UnknownChannel \<Rightarrow> UnknownChannelDecision
      | MissingGuild \<Rightarrow> Forbidden None
      | LookupFailed \<Rightarrow> LookupFailedDecision)"

section \<open>Lemmas: paths\<close>

lemma percent_decode_plain:
  "CHR ''%'' \<notin> set s \<Longrightarrow> percent_decode_bytes s = Some s"
  by (induction s) auto

lemma percent_decode_nil [simp]: "percent_decode_bytes [] = Some []"
  by simp

lemma split_on_concat: "c \<notin> set a \<Longrightarrow> split_on c (a @ c # s) = a # split_on c s"
  by (induction a) auto

lemma split_on_none: "c \<notin> set a \<Longrightarrow> split_on c a = [a]"
  by (induction a) auto

text \<open>In a canonical path the scope check sees every segment, and nothing else.\<close>

lemma canonical_segments:
  assumes "is_canonical_path path"
  shows "path_segments path = split_on (CHR ''/'') (tl path)"
    and "\<forall>s\<in>set (path_segments path). canonical_segment s"
proof -
  from assms obtain rest where path: "path = CHR ''/'' # rest"
    and all: "list_all canonical_segment (split_on (CHR ''/'') rest)"
    by (auto simp: is_canonical_path_def split: list.splits)
  have ne: "s \<noteq> []" if "s \<in> set (split_on (CHR ''/'') rest)" for s
  proof
    assume "s = []"
    with all that have "canonical_segment []" by (auto simp: list_all_iff)
    then show False by (simp add: canonical_segment_def percent_decode_def)
  qed
  have "rest \<noteq> []" using ne by (cases rest) auto
  moreover have "hd rest \<noteq> CHR ''/''"
  proof
    assume "hd rest = CHR ''/''"
    with \<open>rest \<noteq> []\<close> obtain r where "rest = CHR ''/'' # r" by (cases rest) auto
    then have "[] \<in> set (split_on (CHR ''/'') rest)" by simp
    then show False using ne by blast
  qed
  ultimately have "trim_start_matches (CHR ''/'') path = rest"
    by (cases rest) (auto simp: path trim_start_matches_def)
  then show eq: "path_segments path = split_on (CHR ''/'') (tl path)"
    using ne by (simp add: path_segments_def path filter_id_conv)
  show "\<forall>s\<in>set (path_segments path). canonical_segment s"
    using all unfolding eq by (simp add: path list_all_iff)
qed

section \<open>Lemmas: scopes\<close>

lemma nth_prefix:
  "2 \<le> length xs \<Longrightarrow> \<exists>ys. xs = xs ! 0 # xs ! 1 # ys"
  "3 \<le> length xs \<Longrightarrow> \<exists>ys. xs = xs ! 0 # xs ! 1 # xs ! 2 # ys"
  "4 \<le> length xs \<Longrightarrow> \<exists>ys. xs = xs ! 0 # xs ! 1 # xs ! 2 # xs ! 3 # ys"
  by (cases xs; cases "tl xs"; cases "tl (tl xs)"; cases "tl (tl (tl xs))"; auto)+

text \<open>Which routes have a scope, by their form.\<close>

lemma scope_of_route_GuildScope:
  assumes "scope_of_route route = GuildScope g"
  shows "\<exists>n rest. parse_snowflake n = Some g \<and>
    (route = ''guilds'' # n # rest \<or> (\<exists>app. route = ''applications'' # app # ''guilds'' # n # rest))"
  using assms nth_prefix [of route]
  by (auto simp: scope_of_route_def split: if_splits option.splits)

lemma scope_of_route_ChannelScope:
  assumes "scope_of_route route = ChannelScope c"
  shows "\<exists>n rest. parse_snowflake n = Some c \<and> route = ''channels'' # n # rest"
  using assms nth_prefix(1) [of route]
  by (auto simp: scope_of_route_def split: if_splits option.splits)

lemma scope_of_route_AllowedWithoutGuild:
  assumes "scope_of_route route = AllowedWithoutGuild"
  shows "route = [''gateway'', ''bot''] \<or> route = [''users'', ''@me'']"
  using assms
  by (cases route; cases "tl route")
    (auto simp: scope_of_route_def split: if_splits option.splits)

lemma scope_of_route_AllowedWithoutAuth:
  assumes "scope_of_route route = AllowedWithoutAuth"
  shows "\<exists>kind n token rest. route = kind # n # token # rest \<and> kind \<in> {''interactions'', ''webhooks''} \<and>
    parse_snowflake n \<noteq> None \<and> token \<noteq> []"
proof -
  have "3 \<le> length route" using assms by (auto simp: scope_of_route_def split: if_splits option.splits)
  then obtain rest where "route = route ! 0 # route ! 1 # route ! 2 # rest" using nth_prefix(2) by blast
  moreover have "route ! 0 \<in> {''interactions'', ''webhooks''} \<and> parse_snowflake (route ! 1) \<noteq> None \<and> route ! 2 \<noteq> []"
    using assms by (auto simp: scope_of_route_def split: if_splits option.splits)
  ultimately show ?thesis by blast
qed

text \<open>The route behind the version prefix of a path that has a scope.\<close>

definition api_route :: "string \<Rightarrow> string list \<Rightarrow> bool" where
  "api_route path route \<longleftrightarrow>
     path_segments path = ''api'' # ''v10'' # route \<or> path_segments path = ''v10'' # route"

lemma resolve_route_scope_route:
  assumes "resolve_route_scope path = scope" and "scope \<noteq> DeniedWithoutGuild"
  shows "\<exists>route. api_route path route \<and> scope_of_route route = scope"
proof -
  have "2 \<le> length (path_segments path)"
    using assms by (auto simp: resolve_route_scope_def Let_def split: if_splits)
  then obtain a b ys where s: "path_segments path = a # b # ys" using nth_prefix(1) by blast
  then have "a = ''api'' \<and> b = ''v10'' \<and> scope_of_route ys = scope \<or>
      a = ''v10'' \<and> scope_of_route (b # ys) = scope"
    using assms by (auto simp: resolve_route_scope_def Let_def numeral_2_eq_2 split: if_splits)
  then show ?thesis unfolding api_route_def s by blast
qed

end
