(* ===== verification/Rest_Proxy.thy ===== *)
theory Rest_Proxy
  imports Rest_Routes Voice_Lock
begin

text \<open>
  \<open>handle_rest_request\<close> of \<open>src/rest_proxy.rs\<close>: a request is checked, rewritten and sent to
  Discord. The HTTP client is not part of the repository; \<open>send\<close> of the record \<open>rest_lib\<close> is its
  answer to an outgoing request, and the result of the model lists the requests that were sent.
\<close>

section \<open>Requests and responses\<close>

type_synonym headers = "(string \<times> string) list"

text \<open>\<open>rq_body\<close> is the body the client sends, \<^term>\<open>None\<close> if reading it fails.\<close>

record rest_request =
  rq_method :: string
  rq_path :: string
  rq_query :: "string option"
  rq_headers :: headers
  rq_body :: "string option"

definition MAX_REST_BODY_BYTES :: nat where "MAX_REST_BODY_BYTES = 100 * 1024 * 1024 + 64 * 1024"

text \<open>\<open>Limited::new(body, MAX_REST_BODY_BYTES).collect()\<close>.\<close>

definition collect_body :: "rest_request \<Rightarrow> string option" where
  "collect_body request =
     (case rq_body request of
        None \<Rightarrow> None
      | Some body \<Rightarrow> if length body \<le> MAX_REST_BODY_BYTES then Some body else None)"

lemma collect_body_Some:
  "collect_body request = Some body \<longleftrightarrow> rq_body request = Some body \<and> length body \<le> MAX_REST_BODY_BYTES"
  by (auto simp: collect_body_def split: option.split)

record upstream_request =
  up_method :: string
  up_url :: string
  up_headers :: headers
  up_body :: "string option"

record rest_response =
  rs_status :: u16
  rs_headers :: headers
  rs_body :: string

datatype answer = SendFailed | Answer u16 headers "string option"

text \<open>
  hyper, http and reqwest: \<open>HeaderValue::to_str\<close>, \<open>Method::from_bytes\<close>, \<open>StatusCode::from_u16\<close>
  and \<open>send\<close>.
\<close>

record rest_lib =
  rl_to_str :: "string \<Rightarrow> string option"
  rl_method_ok :: "string \<Rightarrow> bool"
  rl_status_ok :: "u16 \<Rightarrow> bool"
  rl_send :: "upstream_request \<Rightarrow> answer"

definition quote_escaped :: "string \<Rightarrow> string" where
  "quote_escaped message = replace_all message ''\"'' [CHR 0x5C, CHR ''\"'']"

definition json_response :: "u16 \<Rightarrow> string \<Rightarrow> rest_response" where
  "json_response status payload =
     \<lparr>rs_status = status, rs_headers = [(''content-type'', ''application/json'')], rs_body = payload\<rparr>"

definition json_error :: "u16 \<Rightarrow> string \<Rightarrow> rest_response" where
  "json_error status message =
     json_response status (''{\"error\":\"'' @ quote_escaped message @ ''\"}'')"

definition unknown_channel_error :: rest_response where
  "unknown_channel_error = json_response 404 ''{\"message\":\"Unknown Channel\",\"code\":10003}''"

definition response_for_channel_scope :: "channel_guild_lookup \<Rightarrow> u64 set \<Rightarrow> rest_response option" where
  "response_for_channel_scope lookup authorized_guilds =
     (case channel_scope_decision lookup authorized_guilds of
        AllowChannel \<Rightarrow> None
      | UnknownChannelDecision \<Rightarrow> Some unknown_channel_error
      | LookupFailedDecision \<Rightarrow> Some (json_error 502 ''Failed to resolve channel guild scope'')
      | Forbidden _ \<Rightarrow> Some (json_error 403 ''REST route is outside the authorized guild scope''))"

definition discord_rest_base_url :: "config \<Rightarrow> string" where
  "discord_rest_base_url cfg =
     (case cfg_http_proxy cfg of
        Some proxy \<Rightarrow>
          if starts_with proxy ''http://'' \<or> starts_with proxy ''https://'' then proxy
          else ''http://'' @ proxy
      | None \<Rightarrow> ''https://discord.com'')"

definition bot_authorization :: "config \<Rightarrow> string \<times> string" where
  "bot_authorization cfg = (''authorization'', ''Bot '' @ cfg_token cfg)"

section \<open>Looking up a channel\<close>

definition channel_request :: "config \<Rightarrow> u64 \<Rightarrow> upstream_request" where
  "channel_request cfg channel_id =
     \<lparr>up_method = ''GET'',
      up_url = discord_rest_base_url cfg @ ''/api/v10/channels/'' @ format_uint channel_id,
      up_headers = [bot_authorization cfg], up_body = None\<rparr>"

definition lookup_channel_guild_id ::
  "rest_lib \<Rightarrow> json_lib \<Rightarrow> config \<Rightarrow> u64 \<Rightarrow> channel_guild_lookup" where
  "lookup_channel_guild_id H J cfg channel_id =
     (case rl_send H (channel_request cfg channel_id) of
        SendFailed \<Rightarrow> LookupFailed
      | Answer status _ body \<Rightarrow>
          (case body of
             None \<Rightarrow> LookupFailed
           | Some raw \<Rightarrow> classify_channel_lookup_response J status raw))"

text \<open>The answer, and the request that was sent for it if any.\<close>

definition resolve_channel_guild_id ::
  "rest_lib \<Rightarrow> json_lib \<Rightarrow> config \<Rightarrow> u64 \<Rightarrow> inner \<Rightarrow> channel_guild_lookup \<times> upstream_request list" where
  "resolve_channel_guild_id H J cfg channel_id st =
     (case resolve_guild_id_for_channel st channel_id of
        Some guild_id \<Rightarrow> (Found guild_id, [])
      | None \<Rightarrow> (lookup_channel_guild_id H J cfg channel_id, [channel_request cfg channel_id]))"

section \<open>The response\<close>

definition rewrite_gateway_bot_payload :: "json_lib \<Rightarrow> config \<Rightarrow> string \<Rightarrow> string option" where
  "rewrite_gateway_bot_payload J cfg raw =
     (case parse_value J raw of
        Some (JObj obj) \<Rightarrow>
          to_json_string J (JObj (hm_insert ''url'' (JStr (cfg_externally_accessible_url cfg)) obj))
      | _ \<Rightarrow> None)"

text \<open>\<open>headers_mut().insert\<close> replaces a header that is already there.\<close>

definition build_response :: "u16 \<Rightarrow> headers \<Rightarrow> string \<Rightarrow> rest_response" where
  "build_response status headers body =
     \<lparr>rs_status = status,
      rs_headers = fold (\<lambda>(name, v) hs.
          if should_skip_response_header name then hs else hm_insert name v hs) headers [],
      rs_body = body\<rparr>"

section \<open>The request\<close>

definition normalized_path :: "string \<Rightarrow> string" where
  "normalized_path path =
     replace_all (replace_all (if starts_with path ''/v10/'' then ''/api'' @ path else path)
       ''/users/%40me'' ''/users/@me'') ''/users/%40ME'' ''/users/@me''"

definition auth_header :: "rest_lib \<Rightarrow> headers \<Rightarrow> string" where
  "auth_header H headers =
     (case Option.bind (map_of headers ''authorization'') (rl_to_str H) of
        None \<Rightarrow> [] | Some v \<Rightarrow> normalize_gateway_token v)"

definition upstream_headers :: "config \<Rightarrow> route_scope \<Rightarrow> bool \<Rightarrow> headers \<Rightarrow> headers" where
  "upstream_headers cfg scope has_auth_context headers =
     filter (\<lambda>(name, v). \<not> should_skip_request_header name) headers
     @ (if should_attach_bot_authorization scope has_auth_context then [bot_authorization cfg] else [])"

text \<open>Authentication: nothing for tokenized routes, else a context or the response that ends it.\<close>

definition request_auth ::
  "rest_lib \<Rightarrow> config \<Rightarrow> registry \<Rightarrow> route_scope \<Rightarrow> headers \<Rightarrow> rest_response + auth_context option" where
  "request_auth H cfg r scope headers =
     (if scope = AllowedWithoutAuth then Inr None
      else
        (case authenticate_gateway_token cfg r (auth_header H headers) of
           GOk ctx \<Rightarrow> Inr (Some ctx)
         | GStale \<Rightarrow> Inl (json_error 503 ''Auth backend temporarily unavailable'')
         | GInvalid \<Rightarrow> Inl (json_error 401 ''Invalid or missing credentials'')))"

text \<open>The check of the scope for a tenant: the response that ends it, and the lookups sent.\<close>

definition scope_error ::
  "rest_lib \<Rightarrow> json_lib \<Rightarrow> config \<Rightarrow> inner \<Rightarrow> auth_context option \<Rightarrow> route_scope \<Rightarrow> string \<Rightarrow>
     rest_response option \<times> upstream_request list" where
  "scope_error H J cfg st auth scope verb =
     (case auth of
        None \<Rightarrow> (None, [])
      | Some ctx \<Rightarrow>
          (case ac_principal ctx of
             Client _ \<Rightarrow>
               (case ac_authorized_guilds ctx of
                  None \<Rightarrow> (Some (json_error 403 ''Missing guild authorization''), [])
                | Some authorized_guilds \<Rightarrow>
                    (case scope of
                       ChannelScope channel_id \<Rightarrow>
                         (case resolve_channel_guild_id H J cfg channel_id st of
                            (lookup, sent) \<Rightarrow> (response_for_channel_scope lookup authorized_guilds, sent))
                     | _ \<Rightarrow>
                         (if is_client_authorized_for_route authorized_guilds scope verb then None
                          else Some (json_error 403 ''REST route is outside the authorized guild scope''),
                          [])))
           | _ \<Rightarrow> (None, [])))"

definition voice_error ::
  "json_lib \<Rightarrow> inner \<Rightarrow> auth_context option \<Rightarrow> string \<Rightarrow> string \<Rightarrow> string \<Rightarrow> rest_response option" where
  "voice_error J st auth verb path body =
     (case auth of
        Some ctx \<Rightarrow>
          (case ac_principal ctx of
             Client client_id \<Rightarrow>
               (case bot_voice_change_guild J verb path body (bot_user_id st) of
                  None \<Rightarrow> None
                | Some guild_id \<Rightarrow>
                    if voice_owner st guild_id \<noteq> Some client_id
                    then Some (json_error 403
                      ''Only the voice owner of this guild can change the bot's voice state'')
                    else None)
           | _ \<Rightarrow> None)
      | None \<Rightarrow> None)"

definition finish_response ::
  "rest_lib \<Rightarrow> json_lib \<Rightarrow> config \<Rightarrow> string \<Rightarrow> answer \<Rightarrow> rest_response" where
  "finish_response H J cfg path ans =
     (case ans of
        SendFailed \<Rightarrow> json_error 502 ''Failed to reach Discord API''
      | Answer code headers body \<Rightarrow>
          let status = (if rl_status_ok H code then code else 502) in
          (case body of
             None \<Rightarrow> json_error 502 ''Failed to read Discord API response''
           | Some raw \<Rightarrow>
               if path = ''/api/v10/gateway/bot'' \<and> 200 \<le> status \<and> status < 300
               then
                 (case rewrite_gateway_bot_payload J cfg raw of
                    None \<Rightarrow> json_error 502 ''Invalid gateway response payload''
                  | Some rewritten \<Rightarrow> build_response status headers rewritten)
               else build_response status headers raw))"

text \<open>
  The handler. \<open>st\<close> is the state when the scope is checked, \<open>st'\<close> the state after the body has
  been read: other tasks run in between.
\<close>

definition handle_rest_request ::
  "rest_lib \<Rightarrow> json_lib \<Rightarrow> config \<Rightarrow> registry \<Rightarrow> inner \<Rightarrow> inner \<Rightarrow> rest_request \<Rightarrow>
     rest_response \<times> upstream_request list" where
  "handle_rest_request H J cfg r st st' request =
     (let path = normalized_path (rq_path request) in
      if \<not> is_canonical_path path then (json_error 400 ''Non-canonical request path'', [])
      else
        let uri = (case rq_query request of None \<Rightarrow> path | Some query \<Rightarrow> path @ ''?'' @ query);
            scope = resolve_route_scope path
        in (case request_auth H cfg r scope (rq_headers request) of
              Inl response \<Rightarrow> (response, [])
            | Inr auth \<Rightarrow>
                (case scope_error H J cfg st auth scope (rq_method request) of
                   (Some response, sent) \<Rightarrow> (response, sent)
                 | (None, sent) \<Rightarrow>
                     (case collect_body request of
                        None \<Rightarrow> (json_error 413 ''Request body too large or unreadable'', sent)
                      | Some body \<Rightarrow>
                          (case voice_error J st' auth (rq_method request) path body of
                             Some response \<Rightarrow> (response, sent)
                           | None \<Rightarrow>
                               if \<not> rl_method_ok H (rq_method request)
                               then (json_error 405 ''Unsupported HTTP method'', sent)
                               else
                                 let up = \<lparr>up_method = rq_method request,
                                       up_url = discord_rest_base_url cfg @ uri,
                                       up_headers =
                                         upstream_headers cfg scope (auth \<noteq> None) (rq_headers request),
                                       up_body = (if body = [] then None else Some body)\<rparr>
                                 in (finish_response H J cfg path (rl_send H up), sent @ [up]))))))"

section \<open>Lemmas\<close>

text \<open>Everything a forwarded request went through.\<close>

lemma handle_rest_forwarded:
  assumes "handle_rest_request H J cfg r st st' rq = (response, sent)" and "up \<in> set sent"
  obtains (lookup) ctx c chan where "up = channel_request cfg chan"
      and "resolve_route_scope (normalized_path (rq_path rq)) = ChannelScope chan"
      and "authenticate_gateway_token cfg r (auth_header H (rq_headers rq)) = GOk ctx"
      and "ac_principal ctx = Client c" and "resolve_guild_id_for_channel st chan = None"
    | (main) auth body where "is_canonical_path (normalized_path (rq_path rq))"
      and "request_auth H cfg r (resolve_route_scope (normalized_path (rq_path rq))) (rq_headers rq) = Inr auth"
      and "fst (scope_error H J cfg st auth (resolve_route_scope (normalized_path (rq_path rq))) (rq_method rq)) = None"
      and "collect_body rq = Some body"
      and "voice_error J st' auth (rq_method rq) (normalized_path (rq_path rq)) body = None"
      and "rl_method_ok H (rq_method rq)"
      and "up = \<lparr>up_method = rq_method rq,
            up_url = discord_rest_base_url cfg @ normalized_path (rq_path rq) @
              (case rq_query rq of None \<Rightarrow> [] | Some query \<Rightarrow> ''?'' @ query),
            up_headers = upstream_headers cfg (resolve_route_scope (normalized_path (rq_path rq)))
              (auth \<noteq> None) (rq_headers rq),
            up_body = (if body = [] then None else Some body)\<rparr>"
proof -
  let ?path = "normalized_path (rq_path rq)"
  let ?scope = "resolve_route_scope ?path"
  have canon: "is_canonical_path ?path"
    using assms by (auto simp: handle_rest_request_def Let_def split: if_splits)
  obtain auth where auth: "request_auth H cfg r ?scope (rq_headers rq) = Inr auth"
    using assms canon by (auto simp: handle_rest_request_def Let_def split: sum.splits)
  obtain err looked where se: "scope_error H J cfg st auth ?scope (rq_method rq) = (err, looked)"
    by fastforce
  show thesis
  proof (cases "up \<in> set looked")
    case True
    with se auth show thesis
      using lookup
      by (auto simp: scope_error_def request_auth_def resolve_channel_guild_id_def
          split: option.splits session_principal.splits route_scope.splits prod.splits if_splits
            gateway_auth_result.splits)
  next
    case False
    then have err: "err = None"
      using assms canon auth se by (auto simp: handle_rest_request_def Let_def split: option.splits)
    obtain body where body: "collect_body rq = Some body"
      using assms canon auth se err False by (auto simp: handle_rest_request_def Let_def split: option.splits)
    have voice: "voice_error J st' auth (rq_method rq) ?path body = None"
      using assms canon auth se err body False by (auto simp: handle_rest_request_def Let_def split: option.splits)
    have verb: "rl_method_ok H (rq_method rq)"
      using assms canon auth se err body voice False
      by (auto simp: handle_rest_request_def Let_def split: if_splits)
    show thesis
      using assms canon auth se err body voice verb False
      by (intro main [OF canon auth _ body voice verb])
        (auto simp: handle_rest_request_def Let_def split: option.splits)
  qed
qed

end
