(* ===== verification/Rest_Safety.thy ===== *)
theory Rest_Safety
  imports Rest_Proxy Demo
begin

text \<open>The properties of the REST proxy: what a tenant can reach, with which credentials.\<close>

section \<open>Lemmas\<close>

text \<open>The routes a tenant may use, by their form; \<open>found\<close> is the guild a channel was resolved to.\<close>

inductive tenant_route ::
  "registry \<Rightarrow> string \<Rightarrow> (u64 \<Rightarrow> u64 option) \<Rightarrow> string \<Rightarrow> string list \<Rightarrow> bool"
  for r client found verb where
  guild_route: "parse_snowflake n = Some g \<Longrightarrow> client_has_guild r client g \<Longrightarrow>
    tenant_route r client found verb (''guilds'' # n # rest)"
| application_route: "parse_snowflake n = Some g \<Longrightarrow> client_has_guild r client g \<Longrightarrow>
    tenant_route r client found verb (''applications'' # app # ''guilds'' # n # rest)"
| channel_route: "parse_snowflake n = Some ch \<Longrightarrow> found ch = Some g \<Longrightarrow> client_has_guild r client g \<Longrightarrow>
    tenant_route r client found verb (''channels'' # n # rest)"
| gateway_route: "verb = ''GET'' \<Longrightarrow> tenant_route r client found verb [''gateway'', ''bot'']"
| me_route: "verb = ''GET'' \<Longrightarrow> tenant_route r client found verb [''users'', ''@me'']"

inductive_simps tenant_guild_route_simps: "tenant_route r c found verb (''guilds'' # n # rest)"

definition channel_found :: "rest_lib \<Rightarrow> json_lib \<Rightarrow> config \<Rightarrow> inner \<Rightarrow> u64 \<Rightarrow> u64 option" where
  "channel_found H J cfg st c =
     (case fst (resolve_channel_guild_id H J cfg c st) of Found g \<Rightarrow> Some g | _ \<Rightarrow> None)"

lemma response_for_channel_None:
  "response_for_channel_scope lookup gs = None \<longleftrightarrow> (\<exists>g. lookup = Found g \<and> g \<in> gs)"
  by (auto simp: response_for_channel_scope_def channel_scope_decision_def
      split: channel_guild_lookup.splits channel_scope_decision.splits if_splits)

lemma tenant_scope_passes:
  assumes auth: "authenticate_gateway_token cfg r token = GOk ctx" "ac_principal ctx = Client c"
    and scope: "scope = resolve_route_scope path" "scope \<noteq> AllowedWithoutAuth"
    and pass: "fst (scope_error H J cfg st (Some ctx) scope verb) = None"
  shows "\<exists>route. api_route path route \<and> tenant_route r c (channel_found H J cfg st) verb route"
proof -
  obtain gs where gs: "ac_authorized_guilds ctx = Some gs" "client_guilds r c = Some gs"
    using auth_client_guilds [OF auth] by auto
  have has: "client_has_guild r c g \<longleftrightarrow> g \<in> gs" for g using gs(2) by (simp add: client_has_guild_iff)
  have nd: "scope \<noteq> DeniedWithoutGuild"
    using pass auth(2) gs by (auto simp: scope_error_def is_client_authorized_for_route_def)
  then obtain route where route: "api_route path route" "scope_of_route route = scope"
    using scope(1) resolve_route_scope_route by blast
  have "tenant_route r c (channel_found H J cfg st) verb route"
  proof (cases scope)
    case (GuildScope g)
    then have "g \<in> gs" using pass auth(2) gs
      by (auto simp: scope_error_def is_client_authorized_for_route_def split: if_splits)
    then show ?thesis
      using scope_of_route_GuildScope [of route g] route(2) GuildScope has
      by (auto intro: tenant_route.intros)
  next
    case (ChannelScope ch)
    obtain lk sent where lk: "resolve_channel_guild_id H J cfg ch st = (lk, sent)" by fastforce
    then obtain g where "lk = Found g" "g \<in> gs"
      using pass auth(2) gs ChannelScope by (auto simp: scope_error_def response_for_channel_None)
    then have "channel_found H J cfg st ch = Some g" "client_has_guild r c g"
      using lk has by (simp_all add: channel_found_def)
    then show ?thesis
      using scope_of_route_ChannelScope [of route ch] route(2) ChannelScope
      by (auto intro: tenant_route.intros)
  next
    case AllowedWithoutGuild
    then have "verb = ''GET''" using pass auth(2) gs
      by (auto simp: scope_error_def is_client_authorized_for_route_def split: if_splits)
    then show ?thesis
      using scope_of_route_AllowedWithoutGuild [of route] route(2) AllowedWithoutGuild
      by (auto intro: tenant_route.intros)
  qed (use scope nd in simp_all)
  with route(1) show ?thesis by blast
qed

lemma upstream_headers_auth:
  "filter (\<lambda>(n, v). n = ''authorization'') (upstream_headers cfg scope b hs) =
     (if b \<and> scope \<noteq> AllowedWithoutAuth then [bot_authorization cfg] else [])"
  by (auto simp: upstream_headers_def should_attach_bot_authorization_def bot_authorization_def
      should_skip_request_header_def filter_empty_conv)

lemma request_auth_scope:
  assumes "request_auth H cfg r scope hs = Inr auth"
  shows "auth = None \<longleftrightarrow> scope = AllowedWithoutAuth"
  using assms by (auto simp: request_auth_def split: if_splits gateway_auth_result.splits)

section \<open>Properties\<close>

text \<open>C6: tenant isolation of the REST proxy. Whatever a request authenticated as a multi-tenant
  client makes the proxy send to Discord is one of: a lookup of the channel it named; the request
  itself, with its path unchanged, on a route of a guild the client has now, on a channel resolved
  to such a guild, or reading one of the two global routes; or a tokenized route, and then
  without any Authorization header.\<close>

theorem rest_tenant_confined:
  assumes "handle_rest_request H J cfg r st st' rq = (response, sent)" and "up \<in> set sent"
    and "authenticate_gateway_token cfg r (auth_header H (rq_headers rq)) = GOk ctx"
    and "ac_principal ctx = Client c"
  shows "(\<exists>n chan rest. up = channel_request cfg chan \<and> parse_snowflake n = Some chan \<and>
       api_route (normalized_path (rq_path rq)) (''channels'' # n # rest)) \<or>
    up_method up = rq_method rq \<and>
    up_url up = discord_rest_base_url cfg @ normalized_path (rq_path rq) @
       (case rq_query rq of None \<Rightarrow> [] | Some query \<Rightarrow> ''?'' @ query) \<and>
    (\<exists>route. api_route (normalized_path (rq_path rq)) route \<and>
       (tenant_route r c (channel_found H J cfg st) (rq_method rq) route \<or>
        (\<exists>kind n token rest. route = kind # n # token # rest \<and> kind \<in> {''interactions'', ''webhooks''} \<and>
           (\<forall>v. (''authorization'', v) \<notin> set (up_headers up)))))"
  using assms(1,2)
proof (cases rule: handle_rest_forwarded)
  case (lookup ctx' c' chan)
  obtain route where route: "api_route (normalized_path (rq_path rq)) route"
    "scope_of_route route = ChannelScope chan"
    using resolve_route_scope_route [OF lookup(2)] by auto
  from scope_of_route_ChannelScope [OF route(2)] route(1) lookup(1) show ?thesis by blast
next
  case (main auth body)
  let ?path = "normalized_path (rq_path rq)"
  have url: "up_method up = rq_method rq" "up_url up = discord_rest_base_url cfg @ ?path @
       (case rq_query rq of None \<Rightarrow> [] | Some query \<Rightarrow> ''?'' @ query)"
    using main(7) by simp_all
  show ?thesis
  proof (cases "resolve_route_scope ?path = AllowedWithoutAuth")
    case True
    then have "auth = None" using main(2) request_auth_scope by blast
    obtain route where route: "api_route ?path route" "scope_of_route route = AllowedWithoutAuth"
      using resolve_route_scope_route [OF True] by auto
    have "filter (\<lambda>(n, v). n = ''authorization'') (up_headers up) = []"
      using main(7) \<open>auth = None\<close> by (simp add: upstream_headers_auth)
    then have "\<forall>v. (''authorization'', v) \<notin> set (up_headers up)" by (auto simp: filter_empty_conv)
    with url route(1) scope_of_route_AllowedWithoutAuth [OF route(2)] show ?thesis by blast
  next
    case False
    then have "auth = Some ctx" using main(2) assms(3) by (auto simp: request_auth_def)
    then have "fst (scope_error H J cfg st (Some ctx) (resolve_route_scope ?path) (rq_method rq)) = None"
      using main(3) by simp
    from tenant_scope_passes [OF assms(3,4) refl False this] url show ?thesis by blast
  qed
qed

definition demo_rest :: "answer \<Rightarrow> rest_lib" where
  "demo_rest ans =
     \<lparr>rl_to_str = Some, rl_method_ok = (\<lambda>_. True), rl_status_ok = (\<lambda>_. True), rl_send = (\<lambda>_. ans)\<rparr>"

definition demo_request :: "string \<Rightarrow> string \<Rightarrow> rest_request" where
  "demo_request verb path =
     \<lparr>rq_method = verb, rq_path = path, rq_query = None,
      rq_headers = [(''authorization'', ''Bot a:sa''), (''accept'', ''*/*'')], rq_body = Some []\<rparr>"

definition demo_guild_request :: rest_request where
  "demo_guild_request = demo_request ''GET'' ''/v10/guilds/7/channels''"

lemma demo_guild_request_handled:
  "handle_rest_request (demo_rest SendFailed) demo_json demo_config demo_registry demo_inner demo_inner
     demo_guild_request =
   (json_error 502 ''Failed to reach Discord API'',
    [\<lparr>up_method = ''GET'', up_url = ''https://discord.com/api/v10/guilds/7/channels'',
      up_headers = [(''accept'', ''*/*''), (''authorization'', ''Bot bot'')], up_body = None\<rparr>])"
  by code_simp

lemma demo_client_auth:
  "authenticate_gateway_token demo_config demo_registry
     (auth_header (demo_rest ans) (rq_headers (demo_request verb path))) =
   GOk \<lparr>ac_principal = Client ''a'', ac_authorized_guilds = Some {7, 4194304}\<rparr>"
proof -
  have "auth_header (demo_rest ans) (rq_headers (demo_request verb path)) = ''a:sa''"
    by (simp add: auth_header_def demo_rest_def demo_request_def) code_simp
  moreover have "split_once CHR '':'' ''a:sa'' = Some (''a'', ''sa'')" by code_simp
  ultimately show ?thesis
    by (simp add: authenticate_gateway_token_def authenticate_client_with_id_def
        client_data_state_def demo_defs hm_get_def)
qed

theorem rest_tenant_confined_witness:
  "\<exists>route. api_route ''/api/v10/guilds/7/channels'' route \<and>
    tenant_route demo_registry ''a'' (channel_found (demo_rest SendFailed) demo_json demo_config demo_inner)
      ''GET'' route"
proof -
  let ?up = "\<lparr>up_method = ''GET'', up_url = ''https://discord.com/api/v10/guilds/7/channels'',
      up_headers = [(''accept'', ''*/*''), (''authorization'', ''Bot bot'')], up_body = None\<rparr>"
  have path: "normalized_path (rq_path demo_guild_request) = ''/api/v10/guilds/7/channels''" by code_simp
  have verb: "rq_method demo_guild_request = ''GET''" by code_simp
  have "\<not> (\<exists>chan. ?up = channel_request demo_config chan)" by (simp add: channel_request_def)
  moreover have auth: "authenticate_gateway_token demo_config demo_registry
     (auth_header (demo_rest SendFailed) (rq_headers demo_guild_request)) =
   GOk \<lparr>ac_principal = Client ''a'', ac_authorized_guilds = Some {7, 4194304}\<rparr>"
    unfolding demo_guild_request_def by (rule demo_client_auth)
  ultimately show ?thesis
    using rest_tenant_confined [OF demo_guild_request_handled _ auth, of ?up "''a''"]
    unfolding path verb by auto
qed



text \<open>C28: a canonical path reads the same for the scope check and for Discord: it is exactly its
  segments, each with a slash in front, and each segment percent-decodes to something that is not
  empty, not a dot segment, and without slash or backslash.\<close>

theorem canonical_path_segments:
  assumes "is_canonical_path path"
  shows "concat (map ((#) (CHR ''/'')) (path_segments path)) = path \<and>
    (\<forall>segment\<in>set (path_segments path). \<exists>decoded. percent_decode segment = Some decoded \<and>
       decoded \<notin> {[], ''.'', ''..''} \<and> set decoded \<inter> {CHR ''/'', CHR 0x5C} = {})"
proof
  obtain rest where path: "path = CHR ''/'' # rest"
    using assms by (auto simp: is_canonical_path_def split: list.splits)
  have "concat (map ((#) c) (split_on c s)) = c # s" for c and s :: string
    by (induction s) (auto split: list.splits)
  then show "concat (map ((#) (CHR ''/'')) (path_segments path)) = path"
    unfolding canonical_segments(1) [OF assms] by (simp add: path)
  show "\<forall>segment\<in>set (path_segments path). \<exists>decoded. percent_decode segment = Some decoded \<and>
       decoded \<notin> {[], ''.'', ''..''} \<and> set decoded \<inter> {CHR ''/'', CHR 0x5C} = {}"
    using canonical_segments(2) [OF assms] by (auto simp: canonical_segment_def split: option.splits)
qed

theorem canonical_path_segments_witness:
  "concat (map ((#) (CHR ''/'')) (path_segments ''/api/v10/users/@me'')) = ''/api/v10/users/@me''"
proof -
  have "is_canonical_path ''/api/v10/users/@me''" by code_simp
  from canonical_path_segments [OF this] show ?thesis by blast
qed

section \<open>The bot's voice state\<close>

lemma dropWhile_two:
  "P a \<Longrightarrow> P b \<Longrightarrow> dropWhile P (a # b # xs) = dropWhile P xs" by simp





text \<open>No body over the limit is passed on.\<close>

lemma forwarded_body_bounded:
  assumes "handle_rest_request H J cfg r st st' rq = (response, sent)" and "up \<in> set sent"
    and "up_body up = Some body"
  shows "length body \<le> MAX_REST_BODY_BYTES"
  using assms(1,2)
proof (cases rule: handle_rest_forwarded)
  case (lookup ctx c chan)
  with assms(3) show ?thesis by (simp add: channel_request_def)
next
  case (main auth body')
  with assms(3) show ?thesis by (auto simp: collect_body_Some split: if_splits)
qed

section \<open>Percent-encoded targets\<close>

text \<open>The path of the bot's own member, with every digit of its id percent-encoded.\<close>

definition encoded_digits :: "string \<Rightarrow> string" where
  "encoded_digits s = concat (map (\<lambda>c. [CHR ''%'', CHR ''3'', c]) s)"

definition encoded_member_path :: "u64 \<Rightarrow> u64 \<Rightarrow> string" where
  "encoded_member_path g u =
     ''/api/v10/guilds/'' @ format_uint g @ ''/members/'' @ encoded_digits (format_uint u)"

definition all_digits :: "string \<Rightarrow> bool" where
  "all_digits s \<longleftrightarrow> (\<forall>c\<in>set s. 48 \<le> byte c \<and> byte c \<le> 57)"

lemma all_digits_format [simp]: "all_digits (format_uint w)"
  by (auto simp: all_digits_def dest: format_uint_bytes)

lemma all_digits_avoid:
  assumes "all_digits s" and "byte c < 48 \<or> 57 < byte c"
  shows "c \<notin> set s"
  using assms by (auto simp: all_digits_def)

lemma all_digits_utf8: "all_digits s \<Longrightarrow> utf8_valid s"
  by (rule utf8_valid_ascii) (auto simp: all_digits_def)

lemma encoded_digits_avoid:
  "all_digits s \<Longrightarrow> byte c < 48 \<or> 57 < byte c \<Longrightarrow> c \<noteq> CHR ''%'' \<Longrightarrow> c \<notin> set (encoded_digits s)"
  by (auto simp: encoded_digits_def all_digits_def byte_def)

lemma encoded_digits_decode: "all_digits s \<Longrightarrow> percent_decode_bytes (encoded_digits s) = Some s"
proof (induction s)
  case Nil
  then show ?case by (simp add: encoded_digits_def)
next
  case (Cons d s)
  then have "48 \<le> byte d" "byte d \<le> 57" "all_digits s" by (auto simp: all_digits_def)
  moreover have "encoded_digits (d # s) = CHR ''%'' # CHR ''3'' # d # encoded_digits s"
    by (simp add: encoded_digits_def)
  ultimately show ?case using Cons.IH by (simp add: hex_byte_digit byte_def)
qed

lemma percent_decode_digits:
  assumes "all_digits s"
  shows "percent_decode s = Some s" and "percent_decode (encoded_digits s) = Some s"
proof -
  have "CHR ''%'' \<notin> set s" using assms by (rule all_digits_avoid) (simp add: byte_def)
  then show "percent_decode s = Some s"
    by (simp add: percent_decode_def percent_decode_plain all_digits_utf8 [OF assms])
  show "percent_decode (encoded_digits s) = Some s"
    by (simp add: percent_decode_def encoded_digits_decode [OF assms] all_digits_utf8 [OF assms])
qed

lemma canonical_digits:
  assumes "percent_decode s = Some d" and "all_digits d" and "d \<noteq> []"
  shows "canonical_segment s"
proof -
  have "CHR ''/'' \<notin> set d" "CHR 0x5C \<notin> set d" "CHR ''.'' \<notin> set d"
    using assms(2) by (rule all_digits_avoid; simp add: byte_def)+
  then show ?thesis using assms(1,3) by (auto simp: canonical_segment_def)
qed

lemma encoded_path_segments:
  "split_on (CHR ''/'') (tl (encoded_member_path g u)) =
     [''api'', ''v10'', ''guilds'', format_uint g, ''members'', encoded_digits (format_uint u)]"
proof -
  have g: "CHR ''/'' \<notin> set (format_uint g)" by (rule all_digits_avoid) (simp_all add: byte_def)
  have u: "CHR ''/'' \<notin> set (encoded_digits (format_uint u))"
    by (rule encoded_digits_avoid) (simp_all add: byte_def)
  show ?thesis
    by (simp add: encoded_member_path_def split_on_concat [OF g] split_on_none [OF u])
qed

lemma encoded_path_canonical: "is_canonical_path (encoded_member_path g u)"
proof -
  have "canonical_segment ''api''" "canonical_segment ''v10''" "canonical_segment ''guilds''"
    "canonical_segment ''members''" by code_simp+
  moreover have "canonical_segment (format_uint g)"
    by (rule canonical_digits [OF percent_decode_digits(1)]) simp_all
  moreover have "canonical_segment (encoded_digits (format_uint u))"
    by (rule canonical_digits [OF percent_decode_digits(2)]) simp_all
  ultimately have all: "list_all canonical_segment (split_on (CHR ''/'') (tl (encoded_member_path g u)))"
    unfolding encoded_path_segments by simp
  obtain rest where path: "encoded_member_path g u = CHR ''/'' # rest"
    by (simp add: encoded_member_path_def)
  from all show ?thesis unfolding path by (simp add: is_canonical_path_def)
qed

text \<open>C36: the voice check of the REST proxy is bypassed by percent-encoding the target. For every
  guild and every bot user there is a path that Discord decodes to the bot's own member, that
  passes the canonical-path check and has the guild's scope, but that
  \<open>bot_voice_change_guild\<close> does not recognise; so a tenant of the guild that does not own the
  voice connection has its request forwarded with the bot's credentials.\<close>

theorem rest_voice_check_bypassed:
  assumes "normalized_path (rq_path rq) = encoded_member_path g u" and "collect_body rq = Some body"
    and "authenticate_gateway_token cfg r (auth_header H (rq_headers rq)) = GOk ctx"
    and "ac_principal ctx = Client c" and "client_has_guild r c g"
    and "rl_method_ok H (rq_method rq)" and "bot_user_id st' = Some u"
  shows "percent_decode (encoded_digits (format_uint u)) = Some (format_uint u) \<and>
    (\<exists>response up. handle_rest_request H J cfg r st st' rq = (response, [up]) \<and>
       up_method up = rq_method rq \<and> up_body up = (if body = [] then None else Some body) \<and>
       (''authorization'', ''Bot '' @ cfg_token cfg) \<in> set (up_headers up))"
proof
  show "percent_decode (encoded_digits (format_uint u)) = Some (format_uint u)"
    by (rule percent_decode_digits) simp
  let ?p = "encoded_member_path g u" and ?t = "encoded_digits (format_uint u)"
  note canon = encoded_path_canonical [of g u]
  have seg: "path_segments ?p = [''api'', ''v10'', ''guilds'', format_uint g, ''members'', ?t]"
    using canonical_segments(1) [OF canon] encoded_path_segments [of g u] by simp
  have scope: "resolve_route_scope ?p = GuildScope g"
    by (simp add: resolve_route_scope_def seg scope_of_route_def parse_snowflake_def)
  obtain d ds where ds: "format_uint u = d # ds" by (cases "format_uint u") auto
  then have t: "?t = CHR ''%'' # CHR ''3'' # d # encoded_digits ds" by (simp add: encoded_digits_def)
  have "parse_snowflake ?t = None"
  proof (cases "parse_snowflake ?t")
    case (Some v)
    then have "CHR ''%'' = CHR ''+'' \<or> 48 \<le> byte (CHR ''%'') \<and> byte (CHR ''%'') \<le> 57"
      unfolding parse_snowflake_def by (rule parse_uint_bytes) (simp add: t)
    then show ?thesis by (simp add: byte_def)
  qed simp
  moreover have "\<not> eq_ignore_ascii_case ?t ''%40me''"
    by (simp add: t eq_ignore_ascii_case_def ascii_lower_def byte_def)
  ultimately have voice: "bot_voice_change_guild J verb ?p body (Some u) = None" for verb
    by (simp add: bot_voice_change_guild_def seg Let_def t split: option.split)
  obtain gs where gs: "ac_authorized_guilds ctx = Some gs" "g \<in> gs"
    using auth_client_guilds [OF assms(3,4)] assms(5) by (auto simp: client_has_guild_iff)
  show "\<exists>response up. handle_rest_request H J cfg r st st' rq = (response, [up]) \<and>
       up_method up = rq_method rq \<and> up_body up = (if body = [] then None else Some body) \<and>
       (''authorization'', ''Bot '' @ cfg_token cfg) \<in> set (up_headers up)"
    using assms gs canon scope voice
    by (simp add: handle_rest_request_def Let_def request_auth_def scope_error_def
        is_client_authorized_for_route_def voice_error_def upstream_headers_def
        should_attach_bot_authorization_def bot_authorization_def)
qed

theorem rest_voice_check_bypassed_witness:
  "\<exists>response up. handle_rest_request (demo_rest SendFailed) demo_json demo_config demo_registry demo_inner
      demo_inner (demo_request ''PATCH'' ''/api/v10/guilds/7/members/%34%32'') = (response, [up])"
proof -
  let ?rq = "demo_request ''PATCH'' ''/api/v10/guilds/7/members/%34%32''"
  have p: "normalized_path (rq_path ?rq) = encoded_member_path 7 (42 :: u64)" by code_simp
  have b: "collect_body ?rq = Some []" by (simp add: demo_request_def collect_body_Some)
  have c: "ac_principal \<lparr>ac_principal = Client ''a'', ac_authorized_guilds = Some {7, 4194304}\<rparr> = Client ''a''"
    by simp
  have g: "client_has_guild demo_registry ''a'' 7" by (simp add: client_has_guild_def demo_defs hm_get_def)
  have m: "rl_method_ok (demo_rest SendFailed) (rq_method ?rq)" by (simp add: demo_rest_def)
  have u: "bot_user_id demo_inner = Some 42" by (simp add: bot_user_id_def demo_inner_def)
  from rest_voice_check_bypassed [OF p b demo_client_auth c g m u] show ?thesis by blast
qed

end
