(* ===== verification/Db_Sync.thy ===== *)
theory Db_Sync
  imports Auth_Model
begin

text \<open>
  The realtime loop of \<open>src/db_config.rs\<close>: notifications of changed clients are collected and
  flushed by an incremental refresh, and a full reconcile replaces the whole registry. The
  database, which other programs write, is a list of rows; the trigger the proxy installs announces
  every write. A query and the use of its answer are two steps, between which the database and the
  queue of notifications may change.
\<close>

section \<open>State\<close>

text \<open>A running query: the refresh of some ids, or the whole snapshot, with the rows it returns.\<close>

datatype running_query = Refresh "string set" "snapshot_row list" | Snapshot "snapshot_row list"

record sync =
  sy_rows :: "snapshot_row list"
  sy_queue :: "string list"
  sy_dirty :: "string set"
  sy_should_full_reconcile :: bool
  sy_query :: "running_query option"
  sy_registry :: registry

section \<open>The arms of the \<open>select!\<close>\<close>

text \<open>The listener task trims the payload before it queues it.\<close>

definition enqueue_notification :: "string \<Rightarrow> sync \<Rightarrow> sync" where
  "enqueue_notification payload sy = sy\<lparr>sy_queue := sy_queue sy @ [trim payload]\<rparr>"

definition on_listener_event :: "string \<Rightarrow> sync \<Rightarrow> sync" where
  "on_listener_event payload sy =
     (if payload = [] then sy\<lparr>sy_should_full_reconcile := True\<rparr>
      else
        let change_event = parse_change_payload payload in
        if ce_client_id change_event = [] then sy\<lparr>sy_should_full_reconcile := True\<rparr>
        else sy\<lparr>sy_dirty := insert (ce_client_id change_event) (sy_dirty sy)\<rparr>)"

text \<open>The flush: the query for the dirty ids, then the refresh with its answer.\<close>

definition begin_flush :: "sync \<Rightarrow> sync" where
  "begin_flush sy =
     sy\<lparr>sy_query := Some (Refresh (sy_dirty sy)
          (filter (\<lambda>row. row_client_id row \<in> sy_dirty sy) (sy_rows sy)))\<rparr>"

definition finish_flush :: "string set \<Rightarrow> snapshot_row list \<Rightarrow> sync \<Rightarrow> sync" where
  "finish_flush ids rows sy =
     (let r = sy_registry sy;
          r' = r\<lparr>rg_clients := refresh_clients_by_ids rows ids (rg_clients r)\<rparr>
      in sy\<lparr>sy_registry := mark_sync_success r', sy_dirty := {}, sy_query := None\<rparr>)"

text \<open>The full reconcile. A poisoned lock keeps the registry as it is.\<close>

definition begin_reconcile :: "sync \<Rightarrow> sync" where
  "begin_reconcile sy = sy\<lparr>sy_query := Some (Snapshot (sy_rows sy))\<rparr>"

definition finish_reconcile :: "snapshot_row list \<Rightarrow> sync \<Rightarrow> sync" where
  "finish_reconcile rows sy =
     (let r = mark_sync_success (sy_registry sy);
          r' = r\<lparr>rg_clients := map_option (\<lambda>_. group_rows_into_clients rows) (rg_clients r)\<rparr>
      in sy\<lparr>sy_registry := r', sy_dirty := {}, sy_should_full_reconcile := False, sy_query := None\<rparr>)"

text \<open>\<open>SELECT 1\<close> succeeded.\<close>

definition health_check :: "sync \<Rightarrow> sync" where
  "health_check sy = sy\<lparr>sy_registry := mark_sync_success (sy_registry sy)\<rparr>"

text \<open>
  After the \<open>LISTEN\<close> the first snapshot replaces the registry: this is the state in which the loop
  starts, if the queue holds what was announced since.
\<close>

definition initial_sync :: "snapshot_row list \<Rightarrow> registry \<Rightarrow> sync" where
  "initial_sync rows r =
     \<lparr>sy_rows = rows, sy_queue = [], sy_dirty = {}, sy_should_full_reconcile = False, sy_query = None,
      sy_registry = (mark_sync_success r)\<lparr>rg_clients :=
        map_option (\<lambda>_. group_rows_into_clients rows) (rg_clients r)\<rparr>\<rparr>"

section \<open>Steps\<close>

text \<open>
  The writers of the database: a write that touches one client's rows, and an \<open>UPDATE\<close> that moves
  a row from one client to another. The trigger announces \<open>NEW.client_id\<close> (\<open>OLD\<close> for a \<open>DELETE\<close>).
\<close>

definition write_rows :: "string \<Rightarrow> string \<Rightarrow> string \<Rightarrow> snapshot_row list \<Rightarrow> sync \<Rightarrow> sync" where
  "write_rows tg_op client_id guild rows sy =
     enqueue_notification (trigger_payload tg_op client_id guild) (sy\<lparr>sy_rows := rows\<rparr>)"

datatype sync_label =
    Db_Write string
  | Db_Move string string
  | Clock u64
  | Notified
  | Flush_Begin | Flush_End | Reconcile_Tick | Reconcile_Begin | Reconcile_End | Health

text \<open>Ids that survive the wire format: not empty, no tab, and no white space at the end of a payload.\<close>

definition plain_change :: "string \<Rightarrow> string \<Rightarrow> string \<Rightarrow> bool" where
  "plain_change tg_op client_id guild \<longleftrightarrow>
     client_id \<noteq> [] \<and> tab \<notin> set tg_op \<and> tab \<notin> set client_id \<and>
     trim (trigger_payload tg_op client_id guild) = trigger_payload tg_op client_id guild"

inductive sync_step :: "sync_label \<Rightarrow> sync \<Rightarrow> sync \<Rightarrow> bool" where
  db_write: "plain_change tg_op c g \<Longrightarrow> \<forall>c'. c' \<noteq> c \<longrightarrow> rows_of c' rows = rows_of c' (sy_rows sy) \<Longrightarrow>
    sync_step (Db_Write c) sy (write_rows tg_op c g rows sy)"
| db_move: "plain_change ''UPDATE'' b g \<Longrightarrow>
    \<forall>c'. c' \<noteq> a \<longrightarrow> c' \<noteq> b \<longrightarrow> rows_of c' rows = rows_of c' (sy_rows sy) \<Longrightarrow>
    sync_step (Db_Move a b) sy (write_rows ''UPDATE'' b g rows sy)"
| clock: "sync_step (Clock t) sy (sy\<lparr>sy_registry := (sy_registry sy)\<lparr>rg_unix_now := Some t\<rparr>\<rparr>)"
| notified: "sy_query sy = None \<Longrightarrow> \<not> sy_should_full_reconcile sy \<Longrightarrow> sy_queue sy = p # ps \<Longrightarrow>
    sync_step Notified sy (on_listener_event p (sy\<lparr>sy_queue := ps\<rparr>))"
| flush_begin: "sy_query sy = None \<Longrightarrow> \<not> sy_should_full_reconcile sy \<Longrightarrow> sy_dirty sy \<noteq> {} \<Longrightarrow>
    sync_step Flush_Begin sy (begin_flush sy)"
| flush_end: "sy_query sy = Some (Refresh ids rows) \<Longrightarrow>
    sync_step Flush_End sy (finish_flush ids rows sy)"
| reconcile_tick: "sy_query sy = None \<Longrightarrow>
    sync_step Reconcile_Tick sy (sy\<lparr>sy_should_full_reconcile := True\<rparr>)"
| reconcile_begin: "sy_query sy = None \<Longrightarrow> sy_should_full_reconcile sy \<Longrightarrow>
    sync_step Reconcile_Begin sy (begin_reconcile sy)"
| reconcile_end: "sy_query sy = Some (Snapshot rows) \<Longrightarrow>
    sync_step Reconcile_End sy (finish_reconcile rows sy)"
| health: "sy_query sy = None \<Longrightarrow> \<not> sy_should_full_reconcile sy \<Longrightarrow>
    sync_step Health sy (health_check sy)"

inductive_cases sync_stepE: "sync_step l sy sy'"

section \<open>The invariant\<close>

text \<open>What the registry should say about a client, what it says, and who still has to be looked at.\<close>

definition registry_entry :: "sync \<Rightarrow> string \<Rightarrow> client_config option" where
  "registry_entry sy c =
     (case rg_clients (sy_registry sy) of None \<Rightarrow> None | Some m \<Rightarrow> hm_get m c)"

definition db_entry :: "snapshot_row list \<Rightarrow> string \<Rightarrow> client_config option" where
  "db_entry rows c = entry_of_rows (rows_of c rows)"

definition announced :: "sync \<Rightarrow> string \<Rightarrow> bool" where
  "announced sy c \<longleftrightarrow>
     (\<exists>p\<in>set (sy_queue sy). p = [] \<or> ce_client_id (parse_change_payload p) \<in> {[], c})"

definition sync_inv :: "sync \<Rightarrow> bool" where
  "sync_inv sy \<longleftrightarrow>
     (case rg_clients (sy_registry sy) of
        None \<Rightarrow> True
      | Some m \<Rightarrow>
          hm_wf m \<and>
          (case sy_query sy of
             None \<Rightarrow> \<forall>c. hm_get m c = db_entry (sy_rows sy) c \<or> announced sy c \<or>
               c \<in> sy_dirty sy \<or> sy_should_full_reconcile sy
           | Some (Refresh ids rows) \<Rightarrow>
               ids = sy_dirty sy \<and> ids \<noteq> {} \<and> \<not> sy_should_full_reconcile sy \<and>
               (\<exists>seen. rows = filter (\<lambda>row. row_client_id row \<in> ids) seen \<and>
                  (\<forall>c. c \<in> ids \<longrightarrow> db_entry seen c = db_entry (sy_rows sy) c \<or> announced sy c)) \<and>
               (\<forall>c. c \<notin> ids \<longrightarrow> hm_get m c = db_entry (sy_rows sy) c \<or> announced sy c)
           | Some (Snapshot rows) \<Rightarrow>
               \<forall>c. db_entry rows c = db_entry (sy_rows sy) c \<or> announced sy c))"

lemma mark_sync_clients [simp]: "rg_clients (mark_sync_success r) = rg_clients r"
  by (simp add: mark_sync_success_def split: option.split)

lemma parse_trimmed:
  assumes "plain_change tg_op c g"
  shows "trim (trigger_payload tg_op c g) \<noteq> []"
    and "ce_client_id (parse_change_payload (trim (trigger_payload tg_op c g))) = c"
  using assms parse_trigger_payload [of tg_op c g]
  by (auto simp: plain_change_def trigger_payload_def)

lemma announced_write:
  assumes "plain_change tg_op c g"
  shows "announced (write_rows tg_op c g rows sy) c' \<longleftrightarrow> announced sy c' \<or> c' = c"
  using parse_trimmed [OF assms] assms
  by (auto simp: announced_def write_rows_def enqueue_notification_def plain_change_def)

lemma sync_inv_write:
  assumes "sync_inv sy" and w: "plain_change tg_op c g"
    and same: "\<forall>c'. c' \<noteq> c \<longrightarrow> rows_of c' rows = rows_of c' (sy_rows sy)"
  shows "sync_inv (write_rows tg_op c g rows sy)"
proof -
  have *: "db_entry (sy_rows (write_rows tg_op c g rows sy)) c' = db_entry (sy_rows sy) c' \<or> c' = c" for c'
    using same by (auto simp: db_entry_def write_rows_def enqueue_notification_def)
  have frame: "sy_query (write_rows tg_op c g rows sy) = sy_query sy"
    "sy_dirty (write_rows tg_op c g rows sy) = sy_dirty sy"
    "sy_should_full_reconcile (write_rows tg_op c g rows sy) = sy_should_full_reconcile sy"
    "sy_registry (write_rows tg_op c g rows sy) = sy_registry sy"
    by (simp_all add: write_rows_def enqueue_notification_def)
  show ?thesis
    using assms(1) * unfolding sync_inv_def frame announced_write [OF w]
    by (auto split: option.splits running_query.splits) metis+
qed

lemma sync_inv_notified:
  assumes "sync_inv sy" and "sy_query sy = None" and "sy_queue sy = p # ps"
  shows "sync_inv (on_listener_event p (sy\<lparr>sy_queue := ps\<rparr>))"
  using assms
  by (auto simp: sync_inv_def on_listener_event_def Let_def announced_def split: option.splits)

lemma sync_inv_flush_end:
  assumes "sync_inv sy" and "sy_query sy = Some (Refresh ids rows)"
  shows "sync_inv (finish_flush ids rows sy)"
proof (cases "rg_clients (sy_registry sy)")
  case None
  then show ?thesis by (simp add: sync_inv_def finish_flush_def Let_def refresh_clients_by_ids_def)
next
  case (Some m)
  from assms Some obtain seen where wf: "hm_wf m" and ids: "ids \<noteq> {}"
    and rows: "rows = filter (\<lambda>row. row_client_id row \<in> ids) seen"
    and inside: "\<And>c. c \<in> ids \<Longrightarrow> db_entry seen c = db_entry (sy_rows sy) c \<or> announced sy c"
    and outside: "\<And>c. c \<notin> ids \<Longrightarrow> hm_get m c = db_entry (sy_rows sy) c \<or> announced sy c"
    by (auto simp: sync_inv_def)
  obtain m' where m': "refresh_clients_by_ids rows ids (Some m) = Some m'"
    using ids by (simp add: refresh_clients_by_ids_def)
  have "hm_wf m'" using m' wf ids by (auto simp: refresh_clients_by_ids_def)
  moreover have "hm_get m' c = db_entry (sy_rows sy) c \<or> announced sy c" for c
    using refresh_get [OF wf, of ids seen m' c] m' rows inside [of c] outside [of c]
    by (auto simp: db_entry_def split: if_splits)
  ultimately show ?thesis
    using Some m' by (auto simp: sync_inv_def finish_flush_def Let_def announced_def)
qed

lemma sync_step_inv:
  assumes "sync_step l sy sy'" and "sync_inv sy" and "\<nexists>a b. l = Db_Move a b"
  shows "sync_inv sy'"
  using assms(1)
proof (cases rule: sync_step.cases)
  case db_write
  with assms(2) show ?thesis by (simp add: sync_inv_write)
next
  case db_move
  with assms(3) show ?thesis by blast
next
  case notified
  with assms(2) show ?thesis by (simp add: sync_inv_notified)
next
  case flush_end
  with assms(2) show ?thesis by (simp add: sync_inv_flush_end)
next
  case clock
  with assms(2) show ?thesis
    by (auto simp: sync_inv_def announced_def split: option.splits running_query.splits)
next
  case flush_begin
  with assms(2) show ?thesis
    by (auto simp: sync_inv_def begin_flush_def announced_def split: option.splits)
next
  case reconcile_tick
  with assms(2) show ?thesis by (auto simp: sync_inv_def split: option.splits)
next
  case reconcile_begin
  with assms(2) show ?thesis
    by (auto simp: sync_inv_def begin_reconcile_def split: option.splits)
next
  case reconcile_end
  with assms(2) show ?thesis
    by (auto simp: sync_inv_def finish_reconcile_def Let_def announced_def db_entry_def group_rows_get
        split: option.splits)
next
  case health
  with assms(2) show ?thesis
    by (auto simp: sync_inv_def health_check_def announced_def split: option.splits)
qed

lemma initial_sync_inv: "sync_inv (initial_sync rows r)"
  by (auto simp: sync_inv_def initial_sync_def db_entry_def group_rows_get split: option.splits)

interpretation sys: invariant_system sync_step "\<lambda>l. \<nexists>a b. l = Db_Move a b" sync_inv
  by unfold_locales (rule sync_step_inv)

lemma sync_trace_inv:
  assumes "trace sync_step ls sy sy'" and "sync_inv sy" and "\<forall>a b. Db_Move a b \<notin> set ls"
  shows "sync_inv sy'"
  by (rule sys.trace_inv [OF assms(1) _ assms(2)]) (use assms(3) in blast)

end
