(* ===== verification/Db_Query.thy ===== *)
theory Db_Query
  imports Db_Config "HOL-Library.Multiset"
begin

text \<open>
  The query behind a snapshot (\<open>SELECT_CLIENTS_SQL\<close> and \<open>load_clients_snapshot\<close> of
  \<open>src/db_config.rs\<close>): which orders of the table's rows its \<open>ORDER BY\<close> allows.
\<close>

section \<open>The table\<close>

text \<open>A row with the two columns that only the order reads.\<close>

record db_row = snapshot_row +
  dr_updated_at :: "nat option"
  dr_created_at :: "nat option"

definition snapshot_client_row_from_row :: "db_row \<Rightarrow> snapshot_row" where
  "snapshot_client_row_from_row row = snapshot_row.truncate row"

section \<open>The order\<close>

text \<open>
  \<open>updated_at DESC NULLS LAST, created_at DESC\<close>: a missing \<open>created_at\<close> comes first, the default for
  a descending column. The first column of the order only groups the rows by client.
\<close>

definition updated_rank :: "db_row \<Rightarrow> nat" where
  "updated_rank row = (case dr_updated_at row of None \<Rightarrow> 0 | Some t \<Rightarrow> Suc t)"

fun created_before :: "nat option \<Rightarrow> nat option \<Rightarrow> bool" where
  "created_before None b \<longleftrightarrow> True"
| "created_before (Some s) None \<longleftrightarrow> False"
| "created_before (Some s) (Some t) \<longleftrightarrow> t \<le> s"

definition comes_before :: "db_row \<Rightarrow> db_row \<Rightarrow> bool" where
  "comes_before a b \<longleftrightarrow>
     updated_rank b < updated_rank a \<or>
     updated_rank a = updated_rank b \<and> created_before (dr_created_at a) (dr_created_at b)"

definition select_clients :: "db_row list \<Rightarrow> db_row list \<Rightarrow> bool" where
  "select_clients table rows \<longleftrightarrow> mset rows = mset table \<and>
     sorted_wrt (\<lambda>a b. row_client_id a = row_client_id b \<longrightarrow> comes_before a b) rows"

definition load_clients_snapshot :: "db_row list \<Rightarrow> clients" where
  "load_clients_snapshot rows = group_rows_into_clients (map snapshot_client_row_from_row rows)"

section \<open>Lemmas\<close>

lemma truncate_fields [simp]:
  "row_client_id (snapshot_client_row_from_row row) = row_client_id row"
  "row_secret (snapshot_client_row_from_row row) = row_secret row"
  "row_guild_id (snapshot_client_row_from_row row) = row_guild_id row"
  by (simp_all add: snapshot_client_row_from_row_def snapshot_row.truncate_def)

text \<open>The rows of a table that count for a client.\<close>

definition readable :: "string \<Rightarrow> db_row \<Rightarrow> bool" where
  "readable c row \<longleftrightarrow> row_client_id row = c \<and> (parse_uint (row_guild_id row) :: u64 option) \<noteq> None"

definition db_row_guild :: "db_row \<Rightarrow> u64" where
  "db_row_guild row = the (parse_uint (row_guild_id row))"

lemma rows_of_loaded:
  "rows_of c (map snapshot_client_row_from_row rows) =
     map snapshot_client_row_from_row (filter (readable c) rows)"
  by (simp add: rows_of_def readable_def [abs_def] filter_map comp_def)

lemma selected_first:
  assumes "select_clients table rows" and "filter (readable c) rows = newest # older"
  shows "newest \<in> set table" and "readable c newest"
    and "\<And>row. row \<in> set table \<Longrightarrow> readable c row \<Longrightarrow> row = newest \<or> comes_before newest row"
proof -
  have set: "set rows = set table" using assms(1) by (auto simp: select_clients_def dest: mset_eq_setD)
  have mem: "set (newest # older) = {row \<in> set rows. readable c row}" by (simp add: assms(2) [symmetric])
  then show first: "newest \<in> set table" "readable c newest" using set by auto
  have "sorted_wrt (\<lambda>a b. row_client_id a = row_client_id b \<longrightarrow> comes_before a b) (filter (readable c) rows)"
    using assms(1) by (intro sorted_wrt_filter) (simp add: select_clients_def)
  then have later: "\<forall>row\<in>set older. row_client_id newest = row_client_id row \<longrightarrow> comes_before newest row"
    by (simp add: assms(2))
  fix row
  assume "row \<in> set table" and r: "readable c row"
  then have "row \<in> set (newest # older)" using mem set by auto
  with later first(2) r show "row = newest \<or> comes_before newest row" by (auto simp: readable_def)
qed

lemma loaded_entry:
  "hm_get (load_clients_snapshot rows) c = entry_of_rows (map snapshot_client_row_from_row (filter (readable c) rows))"
  by (simp add: load_clients_snapshot_def group_rows_get rows_of_loaded)

end
