(* ===== verification/Registry_Safety.thy ===== *)
theory Registry_Safety
  imports Db_Sync Db_Query Demo
begin

text \<open>
  The properties of authentication and of the client registry: who is let in, with which guilds,
  and how the registry follows the database.
\<close>

section \<open>Authentication\<close>



text \<open>A token and the same token behind \<open>Bot\<close> name the same credentials, for every token
  without white space.\<close>

theorem bot_prefix_is_ignored:
  assumes "no_ws t" and "t \<noteq> []"
  shows "normalize_gateway_token (''Bot '' @ t) = t \<and> normalize_gateway_token t = t"
  using normalize_plain [OF assms] split_whitespace_bot [OF assms]
  by (simp add: normalize_gateway_token_def)

theorem bot_prefix_is_ignored_witness: "normalize_gateway_token ''Bot a:sa'' = ''a:sa''"
proof -
  have "no_ws ''a:sa''" unfolding no_ws_def by (simp add: less_Suc_eq numeral_eq_Suc ascii_ws_def byte_def)
  with bot_prefix_is_ignored [of "''a:sa''"] show ?thesis by simp
qed

section \<open>Rows and entries\<close>

text \<open>The registry built from the rows of the database. The entry of a client is made of its own
  rows with a readable guild id: the secret of the newest of them, the guilds of exactly the rows
  with that secret (so a row with an old secret gives no access), the first URL and the earliest
  wake time among them; a client without such a row has no entry.\<close>

theorem registry_of_rows:
  "hm_wf (group_rows_into_clients rows) \<and>
   hm_get (group_rows_into_clients rows) c =
     (case rows_of c rows of
        [] \<Rightarrow> None
      | newest # older \<Rightarrow>
          Some \<lparr>cl_secret = row_secret newest,
            cl_guilds = row_guild ` {row \<in> set (rows_of c rows). row_secret row = row_secret newest},
            cl_reachable_url = find_map row_reachable_url
              (filter (\<lambda>row. row_secret row = row_secret newest) (rows_of c rows)),
            cl_next_wake_at = fold (\<lambda>row w. earliest_wake w (row_next_wake_at row))
              (filter (\<lambda>row. row_secret row = row_secret newest) (rows_of c rows)) None\<rparr>)"
proof
  show "hm_wf (group_rows_into_clients rows)" by simp
  have "set (filter P xs) = {x \<in> set xs. P x}" for P and xs :: "snapshot_row list" by auto
  then show "hm_get (group_rows_into_clients rows) c = (case rows_of c rows of
        [] \<Rightarrow> None
      | newest # older \<Rightarrow>
          Some \<lparr>cl_secret = row_secret newest,
            cl_guilds = row_guild ` {row \<in> set (rows_of c rows). row_secret row = row_secret newest},
            cl_reachable_url = find_map row_reachable_url
              (filter (\<lambda>row. row_secret row = row_secret newest) (rows_of c rows)),
            cl_next_wake_at = fold (\<lambda>row w. earliest_wake w (row_next_wake_at row))
              (filter (\<lambda>row. row_secret row = row_secret newest) (rows_of c rows)) None\<rparr>)"
    unfolding group_rows_get entry_of_rows_def Let_def by (auto split: list.split)
qed

text \<open>C21: the registry a snapshot gives, whatever of the orders the query allows the database picks. A
  client with no readable row has no entry. Otherwise its secret is that of a row that no other of
  its readable rows is newer than, by \<open>updated_at\<close> and then \<open>created_at\<close>, and its guilds are exactly
  those of its rows with that secret: a row with an outdated secret gives no access.\<close>

theorem registry_of_table:
  assumes "select_clients table rows"
  shows "hm_wf (load_clients_snapshot rows) \<and>
    (case hm_get (load_clients_snapshot rows) c of
       None \<Rightarrow> (\<nexists>row. row \<in> set table \<and> readable c row)
     | Some cl \<Rightarrow> \<exists>newest. newest \<in> set table \<and> readable c newest \<and> cl_secret cl = row_secret newest \<and>
         (\<forall>row. row \<in> set table \<and> readable c row \<longrightarrow> row = newest \<or> comes_before newest row) \<and>
         cl_guilds cl =
           {db_row_guild row | row. row \<in> set table \<and> readable c row \<and> row_secret row = row_secret newest})"
proof
  show "hm_wf (load_clients_snapshot rows)" by (simp add: load_clients_snapshot_def)
  have set: "set rows = set table" using assms by (auto simp: select_clients_def dest: mset_eq_setD)
  let ?mine = "filter (readable c) rows"
  show "case hm_get (load_clients_snapshot rows) c of
      None \<Rightarrow> (\<nexists>row. row \<in> set table \<and> readable c row)
    | Some cl \<Rightarrow> \<exists>newest. newest \<in> set table \<and> readable c newest \<and> cl_secret cl = row_secret newest \<and>
        (\<forall>row. row \<in> set table \<and> readable c row \<longrightarrow> row = newest \<or> comes_before newest row) \<and>
        cl_guilds cl =
          {db_row_guild row | row. row \<in> set table \<and> readable c row \<and> row_secret row = row_secret newest}"
  proof (cases ?mine)
    case Nil
    then have "\<forall>row\<in>set table. \<not> readable c row" using set by (auto simp: filter_empty_conv)
    with Nil show ?thesis by (auto simp: loaded_entry entry_of_rows_def)
  next
    case (Cons newest older)
    note first = selected_first [OF assms Cons]
    have mem: "row \<in> set (newest # older) \<longleftrightarrow> row \<in> set table \<and> readable c row" for row
      by (simp only: Cons [symmetric] set_filter set mem_Collect_eq)
    obtain cl where cl: "hm_get (load_clients_snapshot rows) c = Some cl" "cl_secret cl = row_secret newest"
      "cl_guilds cl = row_guild ` set (filter (\<lambda>x. row_secret x = row_secret newest)
        (map snapshot_client_row_from_row (newest # older)))"
      by (simp add: loaded_entry Cons entry_of_rows_def Let_def)
    have guild: "row_guild (snapshot_client_row_from_row row) = db_row_guild row" for row
      by (simp add: row_guild_def db_row_guild_def)
    have "set (filter (\<lambda>x. row_secret x = row_secret newest) (map snapshot_client_row_from_row (newest # older))) =
        snapshot_client_row_from_row ` {row \<in> set (newest # older). row_secret row = row_secret newest}"
      by auto
    then have "cl_guilds cl = db_row_guild ` {row \<in> set (newest # older). row_secret row = row_secret newest}"
      unfolding cl(3) by (simp only: image_image guild)
    then have "cl_guilds cl =
        {db_row_guild row | row. row \<in> set table \<and> readable c row \<and> row_secret row = row_secret newest}"
      using mem by auto
    with cl(1,2) first show ?thesis by auto
  qed
qed

definition demo_db_row :: "string \<Rightarrow> string \<Rightarrow> nat \<Rightarrow> db_row" where
  "demo_db_row secret guild updated =
     \<lparr>row_client_id = ''a'', row_secret = secret, row_guild_id = guild, row_reachable_url = None,
      row_next_wake_at = None, dr_updated_at = Some updated, dr_created_at = Some 0\<rparr>"

theorem registry_of_table_witness:
  "\<exists>cl. hm_get (load_clients_snapshot [demo_db_row ''new'' ''8'' 9, demo_db_row ''old'' ''7'' 5]) ''a'' = Some cl \<and>
     cl_secret cl = ''new'' \<and> cl_guilds cl = {8}"
proof -
  let ?table = "[demo_db_row ''old'' ''7'' 5, demo_db_row ''new'' ''8'' 9]"
  let ?rows = "[demo_db_row ''new'' ''8'' 9, demo_db_row ''old'' ''7'' 5]"
  have n: "(parse_uint ''7'' :: u64 option) = Some 7" "(parse_uint ''8'' :: u64 option) = Some 8" by code_simp+
  have sel: "select_clients ?table ?rows"
    by (simp add: select_clients_def comes_before_def updated_rank_def demo_db_row_def)
  have r: "row \<in> set ?table \<and> readable ''a'' row \<longleftrightarrow> row \<in> set ?table" for row
    by (auto simp: readable_def demo_db_row_def n)
  note t = registry_of_table [OF sel, of "''a''", THEN conjunct2]
  have "hm_get (load_clients_snapshot ?rows) ''a'' \<noteq> None"
  proof
    assume none: "hm_get (load_clients_snapshot ?rows) ''a'' = None"
    have "\<nexists>row. row \<in> set ?table \<and> readable ''a'' row" using t unfolding none option.case .
    with r show False by (meson list.set_intros(1))
  qed
  then obtain cl where h: "hm_get (load_clients_snapshot ?rows) ''a'' = Some cl" by blast
  from t [unfolded h option.case] obtain newest where cl: "newest \<in> set ?table" "cl_secret cl = row_secret newest"
    and before: "\<forall>row. row \<in> set ?table \<and> readable ''a'' row \<longrightarrow> row = newest \<or> comes_before newest row"
    and guilds: "cl_guilds cl =
      {db_row_guild row | row. row \<in> set ?table \<and> readable ''a'' row \<and> row_secret row = row_secret newest}"
    by blast
  have "newest = demo_db_row ''new'' ''8'' 9"
    using cl(1) before [rule_format, of "demo_db_row ''new'' ''8'' 9"]
    by (auto simp: comes_before_def updated_rank_def demo_db_row_def readable_def n)
  then have "row_secret newest = ''new''" by (simp add: demo_db_row_def)
  moreover have "{row. row \<in> set ?table \<and> readable ''a'' row \<and> row_secret row = ''new''} = {demo_db_row ''new'' ''8'' 9}"
    by (auto simp: demo_db_row_def readable_def n)
  moreover have "db_row_guild (demo_db_row ''new'' ''8'' 9) = 8" by (simp add: demo_db_row_def db_row_guild_def n)
  ultimately show ?thesis using h cl guilds by (simp add: setcompr_eq_image)
qed

section \<open>The registry follows the database\<close>

definition quiet :: "sync \<Rightarrow> bool" where
  "quiet sy \<longleftrightarrow> sy_queue sy = [] \<and> sy_dirty sy = {} \<and> \<not> sy_should_full_reconcile sy \<and> sy_query sy = None"

text \<open>Incremental sync loses nothing. Start the loop on a snapshot and let writers change the
  rows of clients, in any order with the steps of the loop, also between a query and the use of
  its answer. Whenever the loop has nothing left to do, the registry says about every client
  exactly what the rows of the database say.\<close>

theorem sync_converges:
  assumes "trace sync_step ls (initial_sync rows r) sy" and "\<forall>a b. Db_Move a b \<notin> set ls"
    and "quiet sy" and "rg_clients (sy_registry sy) = Some clients"
  shows "hm_get clients c = hm_get (group_rows_into_clients (sy_rows sy)) c"
proof -
  have "sync_inv sy" using sync_trace_inv [OF assms(1) initial_sync_inv assms(2)] .
  then show ?thesis
    using assms(3,4) by (simp add: sync_inv_def quiet_def announced_def db_entry_def group_rows_get)
qed

definition demo_row :: "string \<Rightarrow> string \<Rightarrow> snapshot_row" where
  "demo_row c guild =
     \<lparr>row_client_id = c, row_secret = ''s'', row_guild_id = guild, row_reachable_url = None,
      row_next_wake_at = None\<rparr>"

lemma demo_plain: "plain_change ''INSERT'' ''b'' ''8''" "plain_change ''UPDATE'' ''b'' ''7''"
  by code_simp+

lemma demo_parse:
  "trim (trigger_payload ''INSERT'' ''b'' ''8'') \<noteq> []"
  "ce_client_id (parse_change_payload (trim (trigger_payload ''INSERT'' ''b'' ''8''))) = ''b''"
  by code_simp+

theorem sync_converges_witness:
  "\<exists>(sy :: sync) clients. rg_clients (sy_registry sy) = Some clients \<and> sy_rows sy = [demo_row ''a'' ''7'', demo_row ''b'' ''8''] \<and>
     hm_get clients ''b'' = hm_get (group_rows_into_clients [demo_row ''a'' ''7'', demo_row ''b'' ''8'']) ''b''"
proof -
  let ?old = "[demo_row ''a'' ''7'']" and ?new = "[demo_row ''a'' ''7'', demo_row ''b'' ''8'']"
  let ?p = "trigger_payload ''INSERT'' ''b'' ''8''"
  define s0 where "s0 = initial_sync ?old demo_registry"
  define s1 where "s1 = write_rows ''INSERT'' ''b'' ''8'' ?new s0"
  define s2 where "s2 = on_listener_event (trim ?p) (s1\<lparr>sy_queue := []\<rparr>)"
  define s3 where "s3 = begin_flush s2"
  define s4 where "s4 = finish_flush {''b''} [demo_row ''b'' ''8''] s3"
  have s2: "s2 = s1\<lparr>sy_queue := [], sy_dirty := {''b''}\<rparr>"
    using demo_parse by (simp add: s2_def on_listener_event_def Let_def s1_def s0_def initial_sync_def
        write_rows_def enqueue_notification_def)
  have q: "sy_queue s1 = [trim ?p]" "sy_query s1 = None" "\<not> sy_should_full_reconcile s1"
    by (simp_all add: s1_def s0_def initial_sync_def write_rows_def enqueue_notification_def)
  have s3: "sy_query s3 = Some (Refresh {''b''} [demo_row ''b'' ''8''])"
    by (simp add: s3_def begin_flush_def s2 s1_def s0_def initial_sync_def write_rows_def
        enqueue_notification_def demo_row_def)
  have "sync_step (Db_Write ''b'') s0 s1"
    unfolding s1_def
    by (rule db_write [OF demo_plain(1)]) (auto simp: s0_def initial_sync_def rows_of_def demo_row_def)
  moreover have "sync_step Notified s1 s2" unfolding s2_def using q by (intro notified)
  moreover have "sync_step Flush_Begin s2 s3" unfolding s3_def using q by (intro flush_begin) (simp_all add: s2)
  moreover have "sync_step Flush_End s3 s4" unfolding s4_def by (rule flush_end [OF s3])
  ultimately have tr: "trace sync_step [Db_Write ''b'', Notified, Flush_Begin, Flush_End] s0 s4" by auto
  have quiet: "quiet s4"
    by (simp add: quiet_def s4_def finish_flush_def Let_def s3_def begin_flush_def s2 q)
  have rows: "sy_rows s4 = ?new"
    by (simp add: s4_def finish_flush_def Let_def s3_def begin_flush_def s2 s1_def write_rows_def enqueue_notification_def)
  obtain clients where cl: "rg_clients (sy_registry s4) = Some clients"
    by (simp add: s4_def finish_flush_def Let_def s3_def begin_flush_def s2 s1_def s0_def initial_sync_def
        write_rows_def enqueue_notification_def refresh_clients_by_ids_def demo_registry_def)
  show ?thesis
    using sync_converges [OF tr [unfolded s0_def] _ quiet cl, of "''b''"] cl rows
    by (intro exI [of _ s4] exI [of _ clients]) simp
qed

text \<open>An \<open>UPDATE\<close> that changes a row's client id leaves the old client its access. The trigger
  announces \<open>NEW.client_id\<close> only, so after the refresh the loop has nothing left to do, while the
  registry still holds the entry of a client that has no row any more.\<close>

theorem moved_row_keeps_access:
  assumes "quiet sy" and "rg_clients (sy_registry sy) = Some m" and "hm_wf m"
    and "hm_get m a = Some entry" and "a \<noteq> b" and "plain_change ''UPDATE'' b g"
    and "rows_of a rows = []"
    and "sy1 = write_rows ''UPDATE'' b g rows sy"
    and "sy2 = on_listener_event (hd (sy_queue sy1)) (sy1\<lparr>sy_queue := tl (sy_queue sy1)\<rparr>)"
    and "sy3 = finish_flush {b} (filter (\<lambda>row. row_client_id row \<in> {b}) (sy_rows sy2)) (begin_flush sy2)"
  shows "quiet sy3 \<and> hm_get (group_rows_into_clients (sy_rows sy3)) a = None \<and>
    (\<exists>m3. rg_clients (sy_registry sy3) = Some m3 \<and> hm_get m3 a = Some entry)"
proof -
  note parse = parse_trimmed [OF assms(6)]
  have "b \<noteq> []" using assms(6) by (simp add: plain_change_def)
  then have sy2: "sy2 = sy\<lparr>sy_rows := rows, sy_dirty := {b}\<rparr>"
    using assms(1,8,9) parse
    by (simp add: quiet_def write_rows_def enqueue_notification_def on_listener_event_def Let_def)
  obtain m3 where m3: "refresh_clients_by_ids (filter (\<lambda>row. row_client_id row \<in> {b}) rows) {b} (Some m) = Some m3"
    by (simp add: refresh_clients_by_ids_def)
  have "hm_get m3 a = Some entry"
    using refresh_get [OF assms(3), of "{b}" rows m3 a] m3 assms(4,5) by simp
  moreover have "rg_clients (sy_registry sy3) = Some m3" "sy_rows sy3 = rows" "quiet sy3"
    using assms(1,2,10) m3 by (simp_all add: finish_flush_def begin_flush_def Let_def sy2 quiet_def)
  moreover have "hm_get (group_rows_into_clients rows) a = None"
    using assms(7) by (simp add: group_rows_get entry_of_rows_def)
  ultimately show ?thesis by simp
qed

theorem moved_row_keeps_access_witness:
  "\<exists>(sy :: sync) m entry. rows_of ''a'' (sy_rows sy) = [] \<and> rg_clients (sy_registry sy) = Some m \<and>
     hm_get m ''a'' = Some entry \<and> quiet sy"
proof -
  let ?sy = "initial_sync [demo_row ''a'' ''7''] demo_registry" and ?rows = "[demo_row ''b'' ''7'']"
  let ?m = "group_rows_into_clients [demo_row ''a'' ''7'']"
  have e: "hm_get ?m ''a'' = Some \<lparr>cl_secret = ''s'', cl_guilds = {7}, cl_reachable_url = None, cl_next_wake_at = None\<rparr>"
  proof -
    have "(parse_uint ''7'' :: u64 option) = Some 7" by code_simp
    then show ?thesis
      by (simp add: group_rows_get rows_of_def entry_of_rows_def demo_row_def row_guild_def)
  qed
  have q: "quiet ?sy" "rg_clients (sy_registry ?sy) = Some ?m"
    by (simp_all add: quiet_def initial_sync_def demo_registry_def)
  have "rows_of ''a'' ?rows = []" by (simp add: rows_of_def demo_row_def)
  from moved_row_keeps_access [OF q group_rows_wf e _ demo_plain(2) this refl refl refl]
  obtain sy3 m3 where s: "quiet sy3" "rg_clients (sy_registry sy3) = Some m3" "hm_get m3 ''a'' \<noteq> None"
    "hm_get (group_rows_into_clients (sy_rows sy3)) ''a'' = None" by auto
  from s(4) have "rows_of ''a'' (sy_rows sy3) = []"
    by (auto simp: group_rows_get entry_of_rows_def Let_def split: list.splits)
  with s show ?thesis by blast
qed

text \<open>A notification without a guild id is misread. The listener trims the payload, which drops
  the tab behind the client id; the rest has two parts, is taken for an old payload that is only a
  client id, and marks a client id as changed that nobody has.\<close>

theorem trimmed_payload_misread:
  "parse_change_payload (trim (trigger_payload ''DELETE'' ''client'' [])) =
     \<lparr>ce_operation = Unknown, ce_client_id = ''DELETE'' @ [tab] @ ''client'', ce_guild_id = None\<rparr>"
proof -
  have "splitn 3 tab (trim (trigger_payload ''DELETE'' ''client'' [])) = [''DELETE'' @ [], ''client'']"
    by code_simp
  moreover have "trim (trigger_payload ''DELETE'' ''client'' []) = ''DELETE'' @ [tab] @ ''client''"
    by code_simp
  ultimately show ?thesis by (simp add: parse_change_payload_def Let_def)
qed

section \<open>Configuration\<close>

text \<open>Every resource the cache keeps is kept fresh. With any choice of cache switches, the event
  types the proxy parses include all those that create, change or delete a cached resource.\<close>

theorem cached_resources_kept_fresh:
  assumes "resource \<in> resource_types c"
  shows "kept_fresh_by resource \<subseteq> event_type_flags c"
  using assms
  by (cases resource) (simp_all add: resource_types_def event_type_flags_def kept_fresh_by_def flags_if_iff)

theorem cached_resources_kept_fresh_witness:
  "{F_CHANNEL_CREATE, F_CHANNEL_DELETE, F_CHANNEL_UPDATE} \<subseteq> event_type_flags default_cache"
proof -
  have "R_CHANNEL \<in> resource_types default_cache"
    by (simp add: resource_types_def flags_if_iff default_cache_def)
  from cached_resources_kept_fresh [OF this] show ?thesis by (simp add: kept_fresh_by_def)
qed

end
