(* ===== verification/Stream_Safety.thy ===== *)
theory Stream_Safety
  imports Forwarder Demo
begin

text \<open>
  The properties of the event stream: what a message from Discord does to the broadcasts and the
  offline buffers, and what a connected client gets of them.
\<close>

section \<open>One message from Discord\<close>

text \<open>C15: a round of the event loop. Exactly the dispatch events that arrive while the shard is
  READY, other than READY and RESUMED themselves, are broadcast, once, on the shard they came from
  and behind what was broadcast before; a message or thread event with a guild is also put, as the
  newest, into the bounded buffer of every client that is authorized for the guild and not
  connected, and into no other buffer.\<close>

theorem dispatch_round:
  assumes "i < length (shards st)" and "wf_registry r"
    and "events tw J cfg now r shutdown i msg ready st = Ret (flow, ready', effects, st')"
  shows "map sh_events (shards st') = (map sh_events (shards st))[i := sh_events (shards st ! i) @
      (case relayed ready msg of
         None \<Rightarrow> []
       | Some (event, payload, e) \<Rightarrow>
           [\<lparr>bm_payload = payload, bm_sequence = ge_sequence e, bm_guild_id = ge_guild_id e,
             bm_audience = audience_for r (tracked J event payload e st) event (ge_guild_id e)\<rparr>])] \<and>
    (\<forall>c. offline_events st' c =
      (case relayed ready msg of
         None \<Rightarrow> offline_events st c
       | Some (event, payload, e) \<Rightarrow>
           if should_buffer_event event \<and> (\<exists>g. ge_guild_id e = Some g \<and> client_has_guild r c g) \<and>
             \<not> is_client_connected st c
           then (if OFFLINE_EVENT_BUFFER_LIMIT \<le> length (offline_events st c)
                 then tl (offline_events st c) else offline_events st c)
             @ [\<lparr>be_payload = payload, be_sequence = ge_sequence e, be_guild_id = ge_guild_id e\<rparr>]
           else offline_events st c))"
  using round_effects(1) [OF assms] round_effects(2) [OF assms]
  by (cases "relayed ready msg")
    (auto simp: broadcast_of_round_def relay_message_def buffer_of_round_def buffered_for_def)

definition demo_twilight :: "unit twilight" where
  "demo_twilight = \<lparr>tw_parse = (\<lambda>_ _. Inr None), tw_update = (\<lambda>_ gc. gc)\<rparr>"

definition demo_payload :: string where
  "demo_payload = ''{\"t\":\"MESSAGE_CREATE\",\"s\":5,\"op\":0,\"d\":{\"guild_id\":\"7\"}}''"

definition demo_event :: gateway_event where
  "demo_event =
     \<lparr>ge_event_type = Some (EventTypeInfo ''MESSAGE_CREATE'' 6 20), ge_op = OpInfo 0 33 34,
      ge_sequence = Some (SequenceInfo 5 26 27), ge_guild_id = Some 7, ge_channel_id = None\<rparr>"

lemma demo_scan: "from_json demo_payload = Some demo_event"
  by code_simp

theorem dispatch_round_witness:
  "\<exists>st'. events demo_twilight demo_json demo_config 0 demo_registry False 0 (MsgText demo_payload) True demo_inner
      = Ret (Continue, True, [], st') \<and>
    map sh_events (shards st') =
      [[\<lparr>bm_payload = demo_payload, bm_sequence = Some (SequenceInfo 5 26 27), bm_guild_id = Some 7,
         bm_audience = AudGuild\<rparr>], []] \<and>
    offline_events st' ''b'' =
      [\<lparr>be_payload = demo_payload, be_sequence = Some (SequenceInfo 5 26 27), be_guild_id = Some 7\<rparr>]"
proof -
  have i: "0 < length (shards demo_inner)" by (simp add: demo_inner_def)
  have rel: "relayed True (MsgText demo_payload) = Some (''MESSAGE_CREATE'', demo_payload, demo_event)"
    by (simp add: relayed_def demo_scan) (simp add: demo_event_def)
  obtain effs st' where e: "relay_event demo_json 0 demo_registry 0 ''MESSAGE_CREATE'' demo_payload demo_event demo_inner
      = (effs, st')" by fastforce
  then have "effs = []"
    by (simp add: relay_event_def Let_def buffer_event_for_disconnected_clients_def demo_event_def
        demo_registry_def demo_clients_def should_show_wake_typing_def buffer_for_client_def
        demo_client_def split: prod.splits bool.splits if_splits)
  with e have round: "events demo_twilight demo_json demo_config 0 demo_registry False 0 (MsgText demo_payload) True demo_inner
      = Ret (Continue, True, [], st')"
    by (auto simp: events_def demo_scan handle_event_def apply_parsed_def demo_twilight_def demo_event_def)
  have "client_has_guild demo_registry ''b'' 7" "\<not> is_client_connected demo_inner ''b''"
    "offline_events demo_inner ''b'' = []"
    by (simp_all add: client_has_guild_def is_client_connected_def connection_count_def offline_events_def
        demo_defs hm_get_def)
  moreover have "map sh_events (shards demo_inner) = [[], []]" "sh_events (shards demo_inner ! 0) = []"
    by (simp_all add: demo_inner_def demo_shard_def)
  ultimately show ?thesis
    using dispatch_round [OF i _ round] round
    by (intro exI [of _ st'])
      (simp add: rel, simp add: demo_event_def audience_for_def should_buffer_event_def
        OFFLINE_EVENT_BUFFER_LIMIT_def)
qed

text \<open>C10: the voice token stays with the owner. When a VOICE_SERVER_UPDATE is relayed, a connection of
  a multi-tenant client is sent the event only if that client owned the guild's voice connection
  and was authorized for the guild when the event arrived, and still is when it is sent.\<close>

theorem voice_token_only_to_owner:
  assumes "i < length (shards st)" and "wf_registry r"
    and "events tw J cfg now r shutdown i msg ready st = Ret (flow, ready', effects, st')"
    and "relayed ready msg = Some (''VOICE_SERVER_UPDATE'', payload, e)"
    and "fw_client_id fw = Some c" and "fw_authorized_guilds fw \<noteq> None"
    and "forwards later fw (last (sh_events (shards st' ! i)))"
  shows "\<exists>g. ge_guild_id e = Some g \<and> voice_owner st g = Some c \<and> client_has_guild r c g \<and>
    client_has_guild later c g"
proof -
  have "map sh_events (shards st') ! i = sh_events (shards st ! i) @ broadcast_of_round J r st ready msg"
    unfolding round_effects(1) [OF assms(1-3)] using assms(1) by simp
  moreover have "length (map sh_events (shards st')) = length (map sh_events (shards st))"
    unfolding round_effects(1) [OF assms(1-3)] by simp
  ultimately have "last (sh_events (shards st' ! i)) = relay_message J r st (''VOICE_SERVER_UPDATE'', payload, e)"
    using assms(1,4) by (simp add: broadcast_of_round_def)
  then have "forwards later fw (relay_message J r st (''VOICE_SERVER_UPDATE'', payload, e))"
    using assms(7) by simp
  from forwards_tenant [OF this assms(6,5)] show ?thesis
    by (auto simp: relay_message_def audience_for_def tracked_def split: option.splits if_splits)
qed

definition demo_voice_payload :: string where
  "demo_voice_payload = ''{\"t\":\"VOICE_SERVER_UPDATE\",\"s\":6,\"op\":0,\"d\":{\"guild_id\":\"7\"}}''"

definition demo_voice_event :: gateway_event where
  "demo_voice_event =
     \<lparr>ge_event_type = Some (EventTypeInfo ''VOICE_SERVER_UPDATE'' 6 25), ge_op = OpInfo 0 38 39,
      ge_sequence = Some (SequenceInfo 6 31 32), ge_guild_id = Some 7, ge_channel_id = None\<rparr>"

lemma demo_voice_scan: "from_json demo_voice_payload = Some demo_voice_event"
  by code_simp

definition demo_in_voice :: inner where
  "demo_in_voice = demo_inner\<lparr>voice_owners := [(7, demo_owner ''b'' True)]\<rparr>"

definition demo_forward :: forward_args where
  "demo_forward =
     \<lparr>fw_session_id = ''sid'', fw_shard = 0, fw_send_guilds = True, fw_authorized_guilds = Some {7},
      fw_client_id = Some ''b''\<rparr>"

theorem voice_token_only_to_owner_witness:
  "voice_owner demo_in_voice 7 = Some ''b'' \<and>
   (\<exists>effects st'. events demo_twilight demo_json demo_config 0 demo_registry False 0
      (MsgText demo_voice_payload) True demo_in_voice = Ret (Continue, True, effects, st') \<and>
     forwards demo_registry demo_forward (last (sh_events (shards st' ! 0))))"
proof -
  let ?x = "(''VOICE_SERVER_UPDATE'', demo_voice_payload, demo_voice_event)"
  have i: "0 < length (shards demo_in_voice)" by (simp add: demo_in_voice_def demo_inner_def)
  have rel: "relayed True (MsgText demo_voice_payload) = Some ?x"
    by (simp add: relayed_def demo_voice_scan) (simp add: demo_voice_event_def)
  obtain effects st' where "relay_event demo_json 0 demo_registry 0 ''VOICE_SERVER_UPDATE'' demo_voice_payload
      demo_voice_event demo_in_voice = (effects, st')" by fastforce
  then have e: "events demo_twilight demo_json demo_config 0 demo_registry False 0 (MsgText demo_voice_payload)
      True demo_in_voice = Ret (Continue, True, effects, st')"
    by (auto simp: events_def demo_voice_scan handle_event_def apply_parsed_def demo_twilight_def
        demo_voice_event_def)
  have "map sh_events (shards st') = [[relay_message demo_json demo_registry demo_in_voice ?x], []]"
    using round_effects(1) [OF i demo_wf(3) e]
    by (simp add: broadcast_of_round_def rel demo_in_voice_def demo_inner_def demo_shard_def)
  then obtain sh where "shards st' ! 0 = sh"
    "sh_events sh = [relay_message demo_json demo_registry demo_in_voice ?x]" by (cases "shards st'") auto
  moreover have "forwards demo_registry demo_forward (relay_message demo_json demo_registry demo_in_voice ?x)"
    by code_simp
  ultimately have f: "forwards demo_registry demo_forward (last (sh_events (shards st' ! 0)))" by simp
  have m: "fw_client_id demo_forward = Some ''b''" "fw_authorized_guilds demo_forward \<noteq> None"
    by (simp_all add: demo_forward_def)
  from voice_token_only_to_owner [OF i demo_wf(3) e rel m f] have "voice_owner demo_in_voice 7 = Some ''b''"
    by (simp add: demo_voice_event_def)
  with e f show ?thesis by blast
qed

text \<open>Every broadcast and every buffered event carries the sequence position and the guild that
  the scanner finds in its own text. This holds in the state the proxy starts in and after every
  round, so the rewriting of sequence numbers never cuts a payload in a wrong place.\<close>

theorem stream_scanned_invariant:
  assumes "stream_ok st" and "i < length (shards st)" and "wf_registry r"
    and "events tw J cfg now r shutdown i msg ready st = Ret (flow, ready', effects, st')"
  shows "stream_ok st'"
  by (rule stream_ok_round [OF assms])

lemma demo_stream_ok: "stream_ok demo_inner"
  by (auto simp: stream_ok_def demo_inner_def demo_shard_def offline_events_def)

lemma demo_round:
  "\<exists>effects st'. events demo_twilight demo_json demo_config 0 demo_registry False 0 (MsgText demo_payload) True demo_inner
      = Ret (Continue, True, effects, st')"
proof -
  obtain effs st' where "relay_event demo_json 0 demo_registry 0 ''MESSAGE_CREATE'' demo_payload demo_event demo_inner
      = (effs, st')" by fastforce
  then show ?thesis
    by (auto simp: events_def demo_scan handle_event_def apply_parsed_def demo_twilight_def demo_event_def)
qed

theorem stream_scanned_invariant_witness:
  "\<exists>flow ready' effects st'. events demo_twilight demo_json demo_config 0 demo_registry False 0
     (MsgText demo_payload) True demo_inner = Ret (flow, ready', effects, st') \<and> stream_ok st'"
proof -
  obtain effects st' where e: "events demo_twilight demo_json demo_config 0 demo_registry False 0
     (MsgText demo_payload) True demo_inner = Ret (Continue, True, effects, st')"
    using demo_round by blast
  have "0 < length (shards demo_inner)" by (simp add: demo_inner_def)
  from stream_scanned_invariant [OF demo_stream_ok this demo_wf(3) e] e show ?thesis by blast
qed

text \<open>The loop of a shard stops the process for one reason only: a message whose event name is
  READY but that is no READY payload. It has no infinite branch.\<close>

theorem dispatch_panics_only_on_bad_ready:
  "(events tw J cfg now r shutdown i msg ready st = Panic \<longleftrightarrow>
     (\<exists>p e info. msg = MsgText p \<and> from_json p = Some e \<and> ge_event_type e = Some info \<and>
        event_name info = ''READY'' \<and> parse_ready J p = None)) \<and>
   events tw J cfg now r shutdown i msg ready st \<noteq> Diverge"
  by (intro conjI; rule round_panic)

section \<open>What a connected client gets\<close>

text \<open>C31: the greeting of a fresh session. It is a READY followed by one message per cached guild of
  the session, in the cache's order. READY carries the new session id and lists exactly the cached
  and the unavailable guilds the session is authorized for; the messages are numbered one by one
  from \<open>seq + 1\<close>.\<close>

theorem greeting_correct:
  assumes "\<And>j. to_json_string J j \<noteq> None" and "fw_send_guilds fw"
  shows "\<exists>ready_d jsons. greeting J fw ready gc seq =
      Ret (map (\<lambda>j. the (to_json_string J j)) jsons, seq + of_nat (length jsons)) \<and>
    length jsons = Suc (length (filter (\<lambda>g. is_authorized (fw_authorized_guilds fw) (cg_id g)) (gc_guilds gc))) \<and>
    (\<forall>k < length jsons. json_field ''s'' (jsons ! k) = Some (JInt (uint (seq + 1 + of_nat k)))) \<and>
    json_field ''t'' (hd jsons) = Some (JStr ''READY'') \<and> json_field ''d'' (hd jsons) = Some (JObj ready_d) \<and>
    hm_get ready_d ''session_id'' = Some (JStr (fw_session_id fw)) \<and>
    (\<exists>ids. hm_get ready_d ''guilds'' = Some (JArr (map guild_id_to_json ids)) \<and>
       set ids = {g. is_authorized (fw_authorized_guilds fw) g \<and>
         ((\<exists>guild\<in>set (gc_guilds gc). cg_id guild = g \<and> cg_unavailable guild \<noteq> Some True) \<or>
          g \<in> set (gc_unavailable_guilds gc))})"
proof (intro exI conjI allI impI)
  let ?jsons = "greeting_jsons fw ready gc seq"
  show "greeting J fw ready gc seq =
      Ret (map (\<lambda>j. the (to_json_string J j)) ?jsons, seq + of_nat (length ?jsons))"
    by (rule greeting_Ret [OF assms])
  show "length ?jsons = Suc (length (filter (\<lambda>g. is_authorized (fw_authorized_guilds fw) (cg_id g)) (gc_guilds gc)))"
    by (simp add: greeting_jsons_def sent_guilds_def)
  show "json_field ''s'' (?jsons ! k) = Some (JInt (uint (seq + 1 + of_nat k)))" if "k < length ?jsons" for k
    using that by (rule greeting_jsons_s)
  show "json_field ''t'' (hd ?jsons) = Some (JStr ''READY'')"
    "json_field ''d'' (hd ?jsons) = Some (JObj (ready_object fw ready gc))"
    by (simp_all add: greeting_jsons_def)
  show "hm_get (ready_object fw ready gc) ''session_id'' = Some (JStr (fw_session_id fw))"
    by (simp add: ready_object_def)
  show "hm_get (ready_object fw ready gc) ''guilds'' =
      Some (JArr (map guild_id_to_json (ready_guild_ids gc (fw_authorized_guilds fw))))"
    by (simp add: ready_object_def)
qed (rule set_ready_guild_ids)

theorem greeting_correct_witness:
  "\<exists>texts. greeting demo_json demo_forward [] (sh_guilds (shards demo_inner ! 0)) 0 = Ret (texts, 2)"
proof -
  have "\<And>j. to_json_string demo_json j \<noteq> None" "fw_send_guilds demo_forward"
    by (simp_all add: demo_json_def demo_forward_def)
  from greeting_correct [OF this, of "[]" "sh_guilds (shards demo_inner ! 0)" 0]
  obtain jsons where "greeting demo_json demo_forward [] (sh_guilds (shards demo_inner ! 0)) 0 =
      Ret (map (\<lambda>j. the (to_json_string demo_json j)) jsons, 0 + of_nat (length jsons))"
    "length jsons = Suc (length (filter (\<lambda>g. is_authorized (fw_authorized_guilds demo_forward) (cg_id g))
       (gc_guilds (sh_guilds (shards demo_inner ! 0)))))" by blast
  then show ?thesis
    by (simp add: demo_inner_def demo_shard_def demo_guild_def demo_forward_def is_authorized_def)
qed

text \<open>Tenant isolation of the live stream. Every text that the forwarding task of a multi-tenant
  client sends is, up to its sequence number, a received event of a guild that the client is
  authorized for at the moment of sending, with an audience that admits the client.\<close>

theorem tenant_stream_confined:
  assumes "\<forall>r m. (r, Received m) \<in> set rs \<longrightarrow> scanned (bm_payload m) (bm_sequence m) (bm_guild_id m)"
    and "fw_client_id fw = Some c" and "fw_authorized_guilds fw \<noteq> None"
    and "forward_live fw rs seq = Ret (texts, seq')" and "t \<in> set texts"
  shows "\<exists>r m g. (r, Received m) \<in> set rs \<and> same_but_sequence (bm_payload m) t \<and>
    bm_guild_id m = Some g \<and> client_has_guild r c g \<and> audience_admits (bm_audience m) (Some c)"
proof -
  obtain texts' where "forward_live fw rs seq = Ret (texts', last_number seq texts')"
    and all: "list_all2 (\<lambda>m t. same_but_sequence (bm_payload m) t) (passing fw rs) texts'"
    using forward_live_numbered [OF assms(1), of fw seq] by blast
  then have "texts' = texts" using assms(4) by simp
  with all assms(5) obtain m where m: "m \<in> set (passing fw rs)" "same_but_sequence (bm_payload m) t"
    by (metis list_all2_conv_all_nth in_set_conv_nth)
  obtain r where "(r, Received m) \<in> set rs" "forwards r fw m" using passing_sound [OF m(1)] by blast
  with forwards_tenant [OF _ assms(3,2)] m(2) show ?thesis by blast
qed

definition demo_message :: broadcast_message where
  "demo_message =
     \<lparr>bm_payload = demo_payload, bm_sequence = Some (SequenceInfo 5 26 27), bm_guild_id = Some 7,
      bm_audience = AudGuild\<rparr>"

lemma demo_message_scanned:
  "scanned (bm_payload demo_message) (bm_sequence demo_message) (bm_guild_id demo_message)"
  by (simp add: scanned_def demo_message_def demo_scan) (simp add: demo_event_def)

lemma demo_live:
  "forward_live demo_forward [(demo_registry, Received demo_message)] 8 =
     Ret ([''{\"t\":\"MESSAGE_CREATE\",\"s\":9,\"op\":0,\"d\":{\"guild_id\":\"7\"}}''], 9)"
  by code_simp

theorem tenant_stream_confined_witness:
  "\<exists>r m g. (r, Received m) \<in> set [(demo_registry, Received demo_message)] \<and> bm_guild_id m = Some g \<and>
     client_has_guild r ''b'' g"
proof -
  have s: "\<forall>r m. (r, Received m) \<in> set [(demo_registry, Received demo_message)] \<longrightarrow>
      scanned (bm_payload m) (bm_sequence m) (bm_guild_id m)"
    using demo_message_scanned by auto
  have "fw_client_id demo_forward = Some ''b''" "fw_authorized_guilds demo_forward \<noteq> None"
    by (simp_all add: demo_forward_def)
  from tenant_stream_confined [OF s this demo_live] show ?thesis by fastforce
qed

text \<open>C14: sequence numbers a client sees count up without a gap. From a stream whose events the proxy
  scanned itself, the replay of the offline buffer and the live loop never panic, every text with
  a sequence number has the next one, starting behind \<open>seq\<close>, and differs from the event it comes
  from in nothing but that number.\<close>

theorem client_sequence_numbers:
  assumes "\<forall>b\<in>set evs. scanned (be_payload b) (be_sequence b) (be_guild_id b)"
    and "\<forall>r m. (r, Received m) \<in> set rs \<longrightarrow> scanned (bm_payload m) (bm_sequence m) (bm_guild_id m)"
  shows "\<exists>replayed live seq1. replay_events r fw evs seq = Ret (replayed, seq1) \<and>
    forward_live fw rs seq1 = Ret (live, last_number seq (replayed @ live)) \<and>
    numbered_from seq (replayed @ live) \<and>
    list_all2 same_but_sequence
      (map be_payload (filter (replays r fw) evs) @ map bm_payload (passing fw rs)) (replayed @ live)"
proof -
  obtain replayed where r: "replay_events r fw evs seq = Ret (replayed, last_number seq replayed)"
    "numbered_from seq replayed"
    "list_all2 (\<lambda>b t. same_but_sequence (be_payload b) t) (filter (replays r fw) evs) replayed"
    using replay_events_numbered [OF assms(1), of r fw seq] by blast
  obtain live where l: "forward_live fw rs (last_number seq replayed) =
      Ret (live, last_number (last_number seq replayed) live)"
    "numbered_from (last_number seq replayed) live"
    "list_all2 (\<lambda>m t. same_but_sequence (bm_payload m) t) (passing fw rs) live"
    using forward_live_numbered [OF assms(2), of fw "last_number seq replayed"] by blast
  have "list_all2 same_but_sequence (map be_payload (filter (replays r fw) evs)) replayed"
    "list_all2 same_but_sequence (map bm_payload (passing fw rs)) live"
    using r(3) l(3) by (simp_all add: list_all2_map1)
  then show ?thesis
    using r l by (auto simp: numbered_append last_number_append intro: list_all2_appendI)
qed

theorem client_sequence_numbers_witness:
  "\<exists>replayed live seq1.
    replay_events demo_registry demo_forward
      [\<lparr>be_payload = demo_payload, be_sequence = Some (SequenceInfo 5 26 27), be_guild_id = Some 7\<rparr>] 8
      = Ret (replayed, seq1) \<and>
    numbered_from 8 (replayed @ live)"
proof -
  let ?b = "\<lparr>be_payload = demo_payload, be_sequence = Some (SequenceInfo 5 26 27), be_guild_id = Some 7\<rparr>"
  have b: "\<forall>b\<in>set [?b]. scanned (be_payload b) (be_sequence b) (be_guild_id b)"
    using demo_message_scanned by (simp add: demo_message_def)
  have m: "\<forall>r m. (r, Received m) \<in> set [(demo_registry, Received demo_message)] \<longrightarrow>
      scanned (bm_payload m) (bm_sequence m) (bm_guild_id m)"
    using demo_message_scanned by auto
  from client_sequence_numbers [OF b m, of demo_registry demo_forward 8] show ?thesis by blast
qed

section \<open>The offline buffer\<close>

text \<open>C33: whatever number of events was buffered for a client since its buffer was empty, draining
  gives the most recent ones, at most \<open>OFFLINE_EVENT_BUFFER_LIMIT\<close>, in the order they came; after
  that the buffer is empty, and pushing never made it longer than the limit.\<close>

theorem offline_buffer_keeps_latest:
  assumes "offline_events st c = []"
  shows "fst (drain_offline_events_for_client c (fold (push_offline_event_for_client c) es st)) =
      drop (length es - 200) es \<and>
    offline_events (snd (drain_offline_events_for_client c (fold (push_offline_event_for_client c) es st))) c = [] \<and>
    length (offline_events (fold (push_offline_event_for_client c) es st) c) \<le> 200"
  using buf.drain_after_pushes [OF assms, of es] buf.fold_push_bounded [of st c es] assms
  by (simp add: OFFLINE_EVENT_BUFFER_LIMIT_def)

theorem offline_buffer_keeps_latest_witness:
  "fst (drain_offline_events_for_client ''b'' (fold (push_offline_event_for_client ''b'')
     [\<lparr>be_payload = ''x'', be_sequence = None, be_guild_id = Some 7\<rparr>] demo_inner)) =
   [\<lparr>be_payload = ''x'', be_sequence = None, be_guild_id = Some 7\<rparr>]"
proof -
  have "offline_events demo_inner ''b'' = []" by (simp add: offline_events_def demo_inner_def)
  from offline_buffer_keeps_latest [OF this, of "[\<lparr>be_payload = ''x'', be_sequence = None, be_guild_id = Some 7\<rparr>]"]
  show ?thesis by simp
qed

text \<open>C40: an event can be lost while a client connects. The client counts as connected before its
  forwarding task has subscribed; an event relayed in between is not buffered for it, and the
  receiver starts behind it, so the client gets it neither from the replay nor live.\<close>

theorem event_lost_while_connecting:
  assumes "i < length (shards st)" and "wf_registry r"
    and "is_client_connected st c" and "offline_events st c = []"
    and "relayed ready msg = Some x"
    and "events tw J cfg now r shutdown i msg ready st = Ret (flow, ready', effects, st')"
    and "fw_client_id fw = Some c"
  shows "replay_offline r' fw seq st' = Ret ([], seq, st'\<lparr>offline_event_buffers := hm_remove c (offline_event_buffers st')\<rparr>) \<and>
    drop (subscribe (shards st' ! i)) (sh_events (shards st' ! i)) = [] \<and>
    relay_message J r st x \<in> set (sh_events (shards st' ! i))"
proof (intro conjI)
  have "offline_events st' c = []"
    unfolding round_effects(2) [OF assms(1,2,6)]
    using assms(3,4) by (auto simp: buffer_of_round_def buffered_for_def split: option.splits)
  then show "replay_offline r' fw seq st' = Ret ([], seq, st'\<lparr>offline_event_buffers := hm_remove c (offline_event_buffers st')\<rparr>)"
    using assms(7) by (simp add: replay_offline_def drain_offline_events_for_client_def)
  show "drop (subscribe (shards st' ! i)) (sh_events (shards st' ! i)) = []"
    by (simp add: subscribe_def)
  have "length (map sh_events (shards st')) = length (map sh_events (shards st))"
    unfolding round_effects(1) [OF assms(1,2,6)] by simp
  moreover have "map sh_events (shards st') ! i = sh_events (shards st ! i) @ broadcast_of_round J r st ready msg"
    unfolding round_effects(1) [OF assms(1,2,6)] using assms(1) by simp
  ultimately show "relay_message J r st x \<in> set (sh_events (shards st' ! i))"
    using assms(1,5) by (simp add: broadcast_of_round_def)
qed

definition demo_connecting :: inner where
  "demo_connecting = demo_inner\<lparr>active_client_connections := [(''b'', 1)]\<rparr>"

theorem event_lost_while_connecting_witness:
  "\<exists>effects st'. events demo_twilight demo_json demo_config 0 demo_registry False 0 (MsgText demo_payload) True
      demo_connecting = Ret (Continue, True, effects, st') \<and>
    (\<exists>st''. replay_offline demo_registry demo_forward 2 st' = Ret ([], 2, st''))"
proof -
  obtain effects st' where "relay_event demo_json 0 demo_registry 0 ''MESSAGE_CREATE'' demo_payload demo_event
      demo_connecting = (effects, st')" by fastforce
  then have e: "events demo_twilight demo_json demo_config 0 demo_registry False 0 (MsgText demo_payload) True
      demo_connecting = Ret (Continue, True, effects, st')"
    by (auto simp: events_def demo_scan handle_event_def apply_parsed_def demo_twilight_def demo_event_def)
  have rel: "relayed True (MsgText demo_payload) = Some (''MESSAGE_CREATE'', demo_payload, demo_event)"
    by (simp add: relayed_def demo_scan) (simp add: demo_event_def)
  have "0 < length (shards demo_connecting)" "is_client_connected demo_connecting ''b''"
    "offline_events demo_connecting ''b'' = []" "fw_client_id demo_forward = Some ''b''"
    by (simp_all add: demo_connecting_def demo_inner_def is_client_connected_def connection_count_def
        offline_events_def demo_forward_def hm_get_def)
  with event_lost_while_connecting [OF _ demo_wf(3) _ _ rel e, of "''b''" demo_forward demo_registry 2] e
  show ?thesis by blast
qed

end
