(* ===== verification/Wake_Safety.thy ===== *)
theory Wake_Safety
  imports Wake_Model Demo
begin

text \<open>
  The properties of waking: which clients a poll for scheduled wakes wakes, that the cooldown holds
  from one poll to the next, and that the typing loop of a woken client is bounded.
\<close>

section \<open>Scheduled wakes\<close>

definition wake_cooled :: "instant \<Rightarrow> inner \<Rightarrow> string \<Rightarrow> bool" where
  "wake_cooled now st c \<longleftrightarrow>
     (case hm_get (last_wake_attempts st) c of None \<Rightarrow> True | Some at \<Rightarrow> at + secs 10 \<le> now)"

lemma should_wake_fst: "fst (should_wake_client now c (secs 10) st) \<longleftrightarrow> wake_cooled now st c"
  by (auto simp: should_wake_client_def wake_cooled_def duration_since_def secs_def split: option.splits)

lemma tick_mem:
  assumes "wf_registry r"
  shows "e \<in> set (fst (scheduled_wakes_tick wall now r st)) \<longleftrightarrow>
    (\<exists>clients c cfg. rg_clients r = Some clients \<and> hm_get clients c = Some cfg \<and>
       fst (scheduled_wake wall now c cfg st) = Some e)"
  using collect_effects_mem [of "scheduled_wake wall now" _ e st] scheduled_wake_own
    wf_registryD [OF assms]
  by (auto simp: scheduled_wakes_tick_def split: option.splits)

text \<open>A client that was woken has its attempt recorded at the time of the poll.\<close>

lemma scheduled_wake_attempts:
  "hm_get (last_wake_attempts (snd (scheduled_wake wall now c cfg st))) c' =
     (if c' = c \<and> (\<exists>t. cl_next_wake_at cfg = Some t \<and> due_at t \<le> wall) \<and>
         \<not> is_client_connected st c \<and> wake_cooled now st c
      then Some now else hm_get (last_wake_attempts st) c')"
  by (auto simp: scheduled_wake_def should_wake_client_def wake_cooled_def duration_since_def secs_def
      split: option.splits prod.splits bool.splits if_splits)

lemma tick_attempts:
  assumes "hm_wf clients" and "hm_get clients c = Some cfg"
    and "fst (scheduled_wake wall now c cfg st) = Some e"
  shows "hm_get (last_wake_attempts (snd (collect_effects (scheduled_wake wall now) clients st))) c = Some now"
proof -
  let ?g = "\<lambda>c cfg (connected :: string \<Rightarrow> bool) at.
      if (\<exists>t. cl_next_wake_at cfg = Some t \<and> due_at t \<le> wall) \<and> \<not> connected c \<and>
         (case at of None \<Rightarrow> True | Some a \<Rightarrow> a + secs 10 \<le> now)
      then Some now else at"
  have "hm_get (last_wake_attempts (snd (collect_effects (scheduled_wake wall now) clients st))) c =
      (case hm_get clients c of None \<Rightarrow> hm_get (last_wake_attempts st) c
       | Some cfg \<Rightarrow> ?g c cfg (is_client_connected st) (hm_get (last_wake_attempts st) c))"
  proof (rule collect_effects_view [where V = "\<lambda>st. hm_get (last_wake_attempts st)" and g = ?g
        and K = is_client_connected, OF _ _ assms(1)])
    show "is_client_connected (snd (scheduled_wake wall now c cfg st)) = is_client_connected st" for c cfg st
      using scheduled_wake_snd [of wall now c cfg st] by auto
    show "hm_get (last_wake_attempts (snd (scheduled_wake wall now c cfg st))) c' =
        (if c' = c then ?g c cfg (is_client_connected st) (hm_get (last_wake_attempts st) c)
         else hm_get (last_wake_attempts st) c')" for c cfg st c'
      by (cases "c' = c") (simp_all add: scheduled_wake_attempts wake_cooled_def)
  qed
  moreover have "wake_cooled now st c" "\<not> is_client_connected st c"
    "\<exists>t. cl_next_wake_at cfg = Some t \<and> due_at t \<le> wall"
    using assms(3) by (auto simp: scheduled_wake_fst should_wake_fst)
  ultimately show ?thesis using assms(2) by (simp add: wake_cooled_def)
qed

text \<open>When a client is due: 30 seconds ahead of its time, unless that is before the epoch.\<close>

definition wake_due :: "instant \<Rightarrow> instant \<Rightarrow> registry \<Rightarrow> inner \<Rightarrow> string \<Rightarrow> client_config \<Rightarrow> bool" where
  "wake_due wall now r st c cfg \<longleftrightarrow>
     (\<exists>clients t. rg_clients r = Some clients \<and> hm_get clients c = Some cfg \<and> cl_next_wake_at cfg = Some t \<and>
        (if secs 30 \<le> t then t \<le> wall + secs 30 else t \<le> wall) \<and>
        \<not> is_client_connected st c \<and> wake_cooled now st c)"

lemma tick_wakes:
  assumes "wf_registry r"
  shows "WakeClient c url token \<in> set (fst (scheduled_wakes_tick wall now r st)) \<longleftrightarrow>
    (\<exists>cfg. wake_due wall now r st c cfg \<and> cl_reachable_url cfg = Some url \<and> token = c @ '':'' @ cl_secret cfg)"
proof -
  have due: "(if secs 30 \<le> t then t \<le> wall + secs 30 else t \<le> wall) \<longleftrightarrow> due_at t \<le> wall" for t
    by (auto simp: due_at_def TASK_WAKE_LEAD_def)
  show ?thesis
    unfolding tick_mem [OF assms] scheduled_wake_fst should_wake_fst wake_due_def due wake_token_def
    by auto
qed

text \<open>C34: a poll wakes exactly the clients that are due (30 seconds ahead of their time), are not
  connected, were not woken in the last ten seconds and have a URL, with their own credentials; and
  no client it woke is woken again by a poll less than ten seconds later, whatever the registry
  says by then.\<close>

theorem scheduled_wakes_exact:
  assumes "wf_registry r" and "wf_registry r'" and "now' < now + secs 10"
  shows "(WakeClient c url token \<in> set (fst (scheduled_wakes_tick wall now r st)) \<longleftrightarrow>
      (\<exists>cfg. wake_due wall now r st c cfg \<and> cl_reachable_url cfg = Some url \<and>
         token = c @ '':'' @ cl_secret cfg)) \<and>
    \<not> (WakeClient c url token \<in> set (fst (scheduled_wakes_tick wall now r st)) \<and>
       WakeClient c url' token' \<in>
         set (fst (scheduled_wakes_tick wall' now' r' (snd (scheduled_wakes_tick wall now r st)))))"
proof (intro conjI notI tick_wakes [OF assms(1)]; elim conjE)
  let ?st = "snd (scheduled_wakes_tick wall now r st)"
  assume first: "WakeClient c url token \<in> set (fst (scheduled_wakes_tick wall now r st))"
    and "WakeClient c url' token' \<in> set (fst (scheduled_wakes_tick wall' now' r' ?st))"
  then have "wake_cooled now' ?st c" unfolding tick_wakes [OF assms(2)] by (auto simp: wake_due_def)
  moreover obtain clients cfg where "rg_clients r = Some clients" "hm_get clients c = Some cfg"
    "fst (scheduled_wake wall now c cfg st) = Some (WakeClient c url token)"
    using first unfolding tick_mem [OF assms(1)] scheduled_wake_fst by auto
  then have "hm_get (last_wake_attempts ?st) c = Some now"
    using tick_attempts wf_registryD [OF assms(1)] by (auto simp: scheduled_wakes_tick_def)
  ultimately show False using assms(3) by (auto simp: wake_cooled_def)
qed

definition demo_due :: registry where
  "demo_due = demo_registry\<lparr>rg_clients := Some
     [(''a'', (demo_client ''sa'' {7})\<lparr>cl_reachable_url := Some ''http://a'', cl_next_wake_at := Some (secs 100)\<rparr>)]\<rparr>"

theorem scheduled_wakes_exact_witness:
  "WakeClient ''a'' ''http://a'' ''a:sa'' \<in> set (fst (scheduled_wakes_tick (secs 70) 0 demo_due demo_inner)) \<and>
   WakeClient ''a'' ''http://a'' ''a:sa'' \<notin>
     set (fst (scheduled_wakes_tick (secs 79) (secs 9) demo_due (snd (scheduled_wakes_tick (secs 70) 0 demo_due demo_inner))))"
proof -
  have wf: "wf_registry demo_due" by (simp add: demo_due_def demo_registry_def wf_registry_def hm_wf_def)
  have soon: "secs 9 < 0 + secs 10" by (simp add: secs_def)
  have "WakeClient ''a'' ''http://a'' ''a:sa'' \<in> set (fst (scheduled_wakes_tick (secs 70) 0 demo_due demo_inner))"
    by code_simp
  with scheduled_wakes_exact [OF wf wf soon] show ?thesis by blast
qed

section \<open>The typing loop\<close>

text \<open>The typing loop of a woken client ends, whenever the client connects. It sends at most
  five pulses, at least seven seconds apart, none of them after 35 seconds and none while the
  client is connected; only the channel id 0 stops the process.\<close>

theorem wake_typing_bounded:
  assumes "channel_id \<noteq> 0"
  shows "\<exists>ts. wake_typing connected took channel_id 0 = Ret ts \<and> length ts \<le> 5 \<and>
    sorted_wrt (\<lambda>t u. t + secs 7 \<le> u) ts \<and> (\<forall>t\<in>set ts. t < secs 35 \<and> \<not> connected t)"
proof -
  obtain ts where "wake_typing connected took channel_id 0 = Ret ts"
    "\<forall>t\<in>set ts. t < TYPING_MAX \<and> \<not> connected t"
    "sorted_wrt (\<lambda>t u. t + TYPING_PULSE \<le> u) ts"
    "ts = [] \<or> length ts * TYPING_PULSE < TYPING_MAX + TYPING_PULSE"
    using wake_typing_pulses [OF assms, of connected took 0] by auto
  then show ?thesis by (auto simp: TYPING_PULSE_def TYPING_MAX_def secs_def)
qed

theorem wake_typing_bounded_witness:
  "\<exists>ts. wake_typing (\<lambda>t. secs 10 \<le> t) (\<lambda>_. 0) 70 0 = Ret ts \<and> length ts \<le> 5"
  using wake_typing_bounded [of 70 "\<lambda>t. secs 10 \<le> t" "\<lambda>_. 0"] by auto

end
