(* ===== verification/Scanner_Safety.thy ===== *)
theory Scanner_Safety
  imports Deserializer
begin

text \<open>
  What the payload scanner does on text that is not laid out the way it expects. It is the only
  parser between a gateway payload and the decision which tenants get it.
\<close>

definition forged_prefix :: string where
  "forged_prefix =
     ''{\"t\":\"MESSAGE_CREATE\",\"s\":5,\"op\":0,\"d\":{\"content\":\"guild_id\",\"channel_id\":\"''"

text \<open>A message of channel \<open>c\<close> of guild \<open>g\<close> whose text is the word \<open>guild_id\<close>.\<close>

definition forged_message :: "u64 \<Rightarrow> u64 \<Rightarrow> string" where
  "forged_message c g =
     forged_prefix @ format_uint c @ ''\",\"guild_id\":\"'' @ format_uint g @ ''\"}}''"

lemma forged_guild_scan: "find_data_field_u64 (forged_message c g) ''guild_id'' = Some c"
proof -
  let ?tail = "'',\"guild_id\":\"'' @ format_uint g @ ''\"}}''"
  have d: "find_str forged_prefix ''\"d\":'' = Some 35"
    and k: "find_str (drop 35 forged_prefix) (''\"'' @ ''guild_id'' @ ''\"'') = Some 15"
    and l: "35 \<le> length forged_prefix"
    and r: "drop 25 (drop 35 forged_prefix) = '',\"channel_id\":\"''" by code_simp+
  have slice: "drop 35 (forged_message c g) =
      drop 35 forged_prefix @ format_uint c @ ''\"'' @ ?tail"
    using l by (simp add: forged_message_def)
  show ?thesis
  proof (rule find_data_field_quoted)
    show "find_str (forged_message c g) ''\"d\":'' = Some 35"
      unfolding forged_message_def by (rule find_str_append [OF d]) simp
    show "find_str (drop 35 (forged_message c g)) (''\"'' @ ''guild_id'' @ ''\"'') = Some 15"
      unfolding slice by (rule find_str_append [OF k]) simp
    have "25 \<le> length (drop 35 forged_prefix)" by (simp add: forged_prefix_def)
    then show "drop (15 + length ''guild_id'' + 2) (drop 35 (forged_message c g)) =
        '',\"channel_id\"'' @ '':\"'' @ format_uint c @ ''\"'' @ ?tail"
      unfolding slice using r by (simp del: drop_drop)
    show "\<forall>c\<in>set '',\"channel_id\"''. byte c < 128 \<and> c \<noteq> CHR '':''" by (simp add: byte_def)
  qed
qed

lemma forged_opcode: "find_opcode (forged_message c g) = Some (OpInfo 0 33 34)"
proof -
  have "find_integer (forged_message c g) ''\"op\":'' = Some (0 :: u8, 33, 34)"
  proof (rule find_integerI)
    have "find_str forged_prefix ''\"op\":'' = Some 28" by code_simp
    then show "find_str (forged_message c g) ''\"op\":'' = Some 28"
      unfolding forged_message_def by (rule find_str_append) simp
    have p: "j < length forged_prefix \<Longrightarrow> forged_message c g ! j = forged_prefix ! j" for j
      by (simp add: forged_message_def nth_append)
    show "is_char_boundary (forged_message c g) 33" "is_char_boundary (forged_message c g) 34"
      "forged_message c g ! 34 \<in> {CHR '','', CHR ''}''}"
      using p [of 33] p [of 34]
      by (simp_all add: forged_message_def is_char_boundary_def is_cont_def byte_def forged_prefix_def)
    show "\<forall>j. 33 \<le> j \<and> j < 34 \<longrightarrow> forged_message c g ! j \<notin> {CHR '','', CHR ''}''}"
    proof (intro allI impI)
      fix j :: nat
      assume "33 \<le> j \<and> j < 34"
      then have "j = 33" by linarith
      then show "forged_message c g ! j \<notin> {CHR '','', CHR ''}''}"
        using p [of 33] by (simp add: forged_prefix_def)
    qed
    have "drop 33 (take 34 (forged_message c g)) = ''0''"
      by (simp add: forged_message_def forged_prefix_def)
    then show "parse_uint (drop 33 (take 34 (forged_message c g))) = Some (0 :: u8)" by code_simp
  qed (simp_all add: forged_message_def forged_prefix_def)
  then show ?thesis by (simp add: find_opcode_def)
qed

text \<open>C37: the scanner reads text, not JSON. The guild of an event is the number behind the first
  quoted \<open>guild_id\<close>, be it a key or a value: a message whose text is that word is routed by its
  channel's id as if that were the guild's. And a number must follow its colon at once: with a
  blank behind \<open>"op":\<close> the whole payload is refused.\<close>

theorem scanner_reads_text:
  "(\<exists>e. from_json (forged_message c g) = Some e \<and> ge_guild_id e = Some c) \<and>
   \<not> (find_str p ''\"op\":'' = Some i \<and> p ! (i + 5) = CHR '' '' \<and> from_json p \<noteq> None)"
proof
  show "\<exists>e. from_json (forged_message c g) = Some e \<and> ge_guild_id e = Some c"
    by (simp add: from_json_def forged_opcode find_guild_id_def forged_guild_scan Let_def)
  show "\<not> (find_str p ''\"op\":'' = Some i \<and> p ! (i + 5) = CHR '' '' \<and> from_json p \<noteq> None)"
    using find_integer_ws [of p "''\"op\":''" i, where 'n = 8]
    by (auto simp: from_json_def find_opcode_def eval_nat_numeral)
qed

end
