(* ===== verification/Socket_Writer.thy ===== *)
theory Socket_Writer
  imports Client_Loop
begin

text \<open>
  The task that writes a client's queue to its socket: \<open>compress_full\<close>, \<open>ZlibState\<close>,
  \<open>send_in_time\<close> and \<open>sink_from_queue\<close> of \<open>src/server.rs\<close>. zlib is flate2's and a parameter; so is what
  becomes of each write to the socket.
\<close>

section \<open>The compressor\<close>

datatype zlib_flush = FlushNone | FlushSync
datatype zlib_status = ZOk | ZBufError | ZStreamEnd

text \<open>
  A vector with its capacity. \<open>compress_vec\<close> writes into the spare capacity and gives an error, or the
  new state, what it wrote and a status; \<open>zl_grow\<close> is the capacity \<open>reserve\<close> chooses.
\<close>

record vec =
  vec_data :: string
  vec_cap :: nat

record 'z zlib_lib =
  zl_new :: 'z
  zl_total_in :: "'z \<Rightarrow> nat"
  zl_compress :: "'z \<Rightarrow> string \<Rightarrow> zlib_flush \<Rightarrow> nat \<Rightarrow> ('z \<times> string \<times> zlib_status) option"
  zl_grow :: "nat \<Rightarrow> nat \<Rightarrow> nat"

definition TRAILER :: string where "TRAILER = [CHR 0x00, CHR 0x00, CHR 0xFF, CHR 0xFF]"

definition ends_with :: "string \<Rightarrow> string \<Rightarrow> bool" where
  "ends_with s p \<longleftrightarrow> length p \<le> length s \<and> drop (length s - length p) s = p"

definition spare :: "vec \<Rightarrow> nat" where "spare v = vec_cap v - length (vec_data v)"

definition reserve :: "'z zlib_lib \<Rightarrow> nat \<Rightarrow> vec \<Rightarrow> vec" where
  "reserve Z n v =
     (if n \<le> spare v then v else v\<lparr>vec_cap := zl_grow Z (vec_cap v) (length (vec_data v) + n)\<rparr>)"

definition compress_vec ::
  "'z zlib_lib \<Rightarrow> 'z \<Rightarrow> string \<Rightarrow> zlib_flush \<Rightarrow> vec \<Rightarrow> ('z \<times> vec \<times> zlib_status) option" where
  "compress_vec Z z input flush v =
     map_option (\<lambda>(z', out, status). (z', v\<lparr>vec_data := vec_data v @ out\<rparr>, status))
       (zl_compress Z z input flush (spare v))"

text \<open>The two loops; an error is an \<open>unwrap\<close> that panics, not ending is the value \<^term>\<open>None\<close>.\<close>

partial_function (option) compress_input ::
  "'z zlib_lib \<Rightarrow> string \<Rightarrow> nat \<Rightarrow> 'z \<Rightarrow> vec \<Rightarrow> ('z \<times> vec) outcome option" where
  "compress_input Z input before_in z output =
     (if zl_total_in Z z - before_in < length input
      then
        (case compress_vec Z z (drop (zl_total_in Z z - before_in) input) FlushNone output of
           None \<Rightarrow> Some Panic
         | Some (z', output', status) \<Rightarrow>
             if status = ZOk then compress_input Z input before_in z' output'
             else if status = ZBufError then compress_input Z input before_in z' (reserve Z 4096 output')
             else Some (Ret (z', output')))
      else Some (Ret (z, output)))"

partial_function (option) flush_output ::
  "'z zlib_lib \<Rightarrow> 'z \<Rightarrow> vec \<Rightarrow> ('z \<times> vec) outcome option" where
  "flush_output Z z output =
     (if ends_with (vec_data output) TRAILER then Some (Ret (z, output))
      else
        (case compress_vec Z z [] FlushSync (reserve Z 5 output) of
           None \<Rightarrow> Some Panic
         | Some (z', output', status) \<Rightarrow>
             if status = ZStreamEnd then Some (Ret (z', output')) else flush_output Z z' output'))"

definition returned :: "'a outcome option \<Rightarrow> 'a outcome" where
  "returned r = (case r of None \<Rightarrow> Diverge | Some x \<Rightarrow> x)"

definition compress_full :: "'z zlib_lib \<Rightarrow> 'z \<Rightarrow> vec \<Rightarrow> string \<Rightarrow> ('z \<times> vec) outcome" where
  "compress_full Z z output input =
     obind (returned (compress_input Z input (zl_total_in Z z) z output))
       (\<lambda>(z', output'). returned (flush_output Z z' output'))"

record 'z zlib_state =
  zs_compress :: 'z
  zs_buffer :: vec

definition new_zlib_state :: "'z zlib_lib \<Rightarrow> 'z zlib_state" where
  "new_zlib_state Z = \<lparr>zs_compress = zl_new Z, zs_buffer = \<lparr>vec_data = [], vec_cap = 32 * 1024\<rparr>\<rparr>"

definition compress_and_send ::
  "'z zlib_lib \<Rightarrow> string \<Rightarrow> 'z zlib_state \<Rightarrow> (string \<times> 'z zlib_state) outcome" where
  "compress_and_send Z input zs =
     omap (\<lambda>(z', v'). (vec_data v', \<lparr>zs_compress = z', zs_buffer = v'\<rparr>))
       (compress_full Z (zs_compress zs) ((zs_buffer zs)\<lparr>vec_data := []\<rparr>) input)"

section \<open>The queue\<close>

definition SINK_SEND_TIMEOUT :: duration where "SINK_SEND_TIMEOUT = secs 30"
definition MAX_CLIENT_MESSAGE_BYTES :: nat where "MAX_CLIENT_MESSAGE_BYTES = 8 * 1024"

text \<open>A frame on the wire; what the socket makes of a write: taken after a time, an error, or never.\<close>

datatype frame = TextFrame string | BinaryFrame string | CloseFrame u16 string

datatype write_answer = Taken duration | WriteError | NeverTaken

text \<open>Whether the task goes on, ends with \<open>Ok\<close>, or ends with the error.\<close>

datatype writer_flow = Writing | Ended | Failed

definition frame_of :: "ws_message \<Rightarrow> frame" where
  "frame_of m = (case m of WsText s \<Rightarrow> TextFrame s | WsClose code reason \<Rightarrow> CloseFrame code reason)"

text \<open>The payload of a close message is its code, big-endian, and the reason.\<close>

definition into_payload :: "ws_message \<Rightarrow> string" where
  "into_payload m =
     (case m of
        WsText s \<Rightarrow> s
      | WsClose code reason \<Rightarrow>
          char_of (unat code div 256) # char_of (unat code mod 256) # reason)"

record 'z writer =
  wr_use_zlib :: bool
  wr_zlib :: "'z zlib_state option"
  wr_pending :: bool
  wr_wire :: "frame list"

text \<open>\<open>send_in_time\<close>: a write that takes longer than \<open>SINK_SEND_TIMEOUT\<close> ends the task.\<close>

definition send_in_time :: "write_answer \<Rightarrow> frame \<Rightarrow> 'z writer \<Rightarrow> writer_flow \<times> 'z writer" where
  "send_in_time answer f w =
     (case answer of
        Taken d \<Rightarrow> if d \<le> SINK_SEND_TIMEOUT then (Writing, w\<lparr>wr_wire := wr_wire w @ [f]\<rparr>) else (Ended, w)
      | WriteError \<Rightarrow> (Failed, w)
      | NeverTaken \<Rightarrow> (Ended, w))"

text \<open>One message; the zlib state is created when it is first needed.\<close>

definition write_message ::
  "'z zlib_lib \<Rightarrow> write_answer \<Rightarrow> ws_message \<Rightarrow> 'z writer \<Rightarrow> (writer_flow \<times> 'z writer) outcome" where
  "write_message Z answer m w =
     (if wr_use_zlib w
      then omap (\<lambda>(compressed, zs').
          send_in_time answer (BinaryFrame compressed) (w\<lparr>wr_zlib := Some zs'\<rparr>))
        (compress_and_send Z (into_payload m)
          (case wr_zlib w of None \<Rightarrow> new_zlib_state Z | Some zs \<Rightarrow> zs))
      else Ret (send_in_time answer (frame_of m) w))"

text \<open>
  What the \<open>select!\<close> yields: the compression decision (\<^term>\<open>None\<close> when its sender is dropped), a
  message with the answer its write gets, or the end of the queue. The decision is asked for once.
\<close>

datatype writer_event = Decided "bool option option" | Queued write_answer ws_message | QueueClosed

fun writer_loop ::
  "'z zlib_lib \<Rightarrow> writer_event list \<Rightarrow> 'z writer \<Rightarrow> (writer_flow \<times> 'z writer) outcome" where
  "writer_loop Z [] w = Ret (Writing, w)"
| "writer_loop Z (Decided d # evs) w =
     (if wr_pending w
      then writer_loop Z evs
        (w\<lparr>wr_use_zlib := wr_use_zlib w \<or> d = Some (Some True), wr_pending := False\<rparr>)
      else writer_loop Z evs w)"
| "writer_loop Z (QueueClosed # evs) w = Ret (Ended, w)"
| "writer_loop Z (Queued answer m # evs) w =
     obind (write_message Z answer m w) (\<lambda>(flow, w').
       if flow = Writing then writer_loop Z evs w' else Ret (flow, w'))"

definition sink_from_queue ::
  "'z zlib_lib \<Rightarrow> bool \<Rightarrow> write_answer \<Rightarrow> writer_event list \<Rightarrow> (writer_flow \<times> 'z writer) outcome" where
  "sink_from_queue Z use_zlib hello_answer evs =
     obind (write_message Z hello_answer (WsText HELLO)
         \<lparr>wr_use_zlib = use_zlib, wr_zlib = None, wr_pending = True, wr_wire = []\<rparr>) (\<lambda>(flow, w).
       if flow = Writing then writer_loop Z evs w else Ret (flow, w))"

end
