(* ===== verification/Writer_Stream.thy ===== *)
theory Writer_Stream
  imports Socket_Writer
begin

text \<open>
  What the socket writer's binary frames say: a contract for a lossless compressor, and that the
  frames of a connection, put together, inflate to the payloads they stand for.
\<close>

section \<open>The contract of a lossless compressor\<close>

text \<open>
  \<open>written z\<close> and \<open>consumed z\<close> are what has gone out of and into a stream in state \<open>z\<close>, \<open>owed z\<close> what a
  sync flush would still write, and \<open>valid z\<close> holds of the states a stream can be in. As zlib
  documents it, inflating all output of a flushed stream gives all its input.
\<close>

definition lossless ::
  "'z zlib_lib \<Rightarrow> ('z \<Rightarrow> bool) \<Rightarrow> ('z \<Rightarrow> string) \<Rightarrow> ('z \<Rightarrow> string) \<Rightarrow> ('z \<Rightarrow> string) \<Rightarrow> (string \<Rightarrow> string) \<Rightarrow> bool" where
  "lossless Z valid owed written consumed inflate \<longleftrightarrow>
     valid (zl_new Z) \<and> written (zl_new Z) = [] \<and> consumed (zl_new Z) = [] \<and>
     (\<forall>z input flush n z' out status.
        valid z \<and> zl_compress Z z input flush n = Some (z', out, status) \<longrightarrow>
        valid z' \<and> zl_total_in Z z \<le> zl_total_in Z z' \<and> zl_total_in Z z' \<le> zl_total_in Z z + length input \<and>
        status \<noteq> ZStreamEnd \<and> written z' = written z @ out \<and>
        consumed z' = consumed z @ take (zl_total_in Z z' - zl_total_in Z z) input) \<and>
     (\<forall>z. valid z \<longrightarrow> inflate (written z @ owed z) = consumed z)"

lemma lossless_new:
  "lossless Z valid owed written consumed inflate \<Longrightarrow>
     valid (zl_new Z) \<and> written (zl_new Z) = [] \<and> consumed (zl_new Z) = []"
  by (simp add: lossless_def)

lemma lossless_inflate:
  "lossless Z valid owed written consumed inflate \<Longrightarrow> valid z \<Longrightarrow> inflate (written z @ owed z) = consumed z"
  by (simp add: lossless_def)

lemma lossless_step:
  assumes "lossless Z valid owed written consumed inflate" and "valid z"
    and "compress_vec Z z input flush v = Some (z', v', status)"
  obtains out where "valid z'" and "zl_total_in Z z \<le> zl_total_in Z z'"
    and "zl_total_in Z z' \<le> zl_total_in Z z + length input" and "status \<noteq> ZStreamEnd"
    and "vec_data v' = vec_data v @ out" and "written z' = written z @ out"
    and "consumed z' = consumed z @ take (zl_total_in Z z' - zl_total_in Z z) input"
proof -
  from assms(3) obtain out where c: "zl_compress Z z input flush (spare v) = Some (z', out, status)"
    and v': "v' = v\<lparr>vec_data := vec_data v @ out\<rparr>" by (auto simp: compress_vec_def)
  from assms(1) have "valid z \<and> zl_compress Z z input flush (spare v) = Some (z', out, status) \<longrightarrow>
      valid z' \<and> zl_total_in Z z \<le> zl_total_in Z z' \<and> zl_total_in Z z' \<le> zl_total_in Z z + length input \<and>
      status \<noteq> ZStreamEnd \<and> written z' = written z @ out \<and>
      consumed z' = consumed z @ take (zl_total_in Z z' - zl_total_in Z z) input"
    unfolding lossless_def by blast
  with assms(2) c v' show thesis by (intro that [of out]) simp_all
qed

section \<open>One message\<close>

text \<open>What a stretch of the loops does: the vector grows by what the stream writes.\<close>

definition stretch ::
  "('z \<Rightarrow> bool) \<Rightarrow> ('z \<Rightarrow> string) \<Rightarrow> 'z \<Rightarrow> vec \<Rightarrow> 'z \<Rightarrow> vec \<Rightarrow> bool" where
  "stretch valid written z v z' v' \<longleftrightarrow> valid z' \<and>
     (\<exists>out. vec_data v' = vec_data v @ out \<and> written z' = written z @ out)"

lemma stretch_refl: "valid z \<Longrightarrow> stretch valid written z v z v"
  by (simp add: stretch_def)

lemma stretch_trans:
  "stretch valid written z v z1 v1 \<Longrightarrow> stretch valid written z1 v1 z2 v2 \<Longrightarrow> stretch valid written z v z2 v2"
  by (auto simp: stretch_def)

lemma stretch_reserve [simp]:
  "stretch valid written z (reserve Z n v) z' v' \<longleftrightarrow> stretch valid written z v z' v'"
  "stretch valid written z v z' (reserve Z n v') \<longleftrightarrow> stretch valid written z v z' v'"
  by (simp_all add: stretch_def reserve_def)

lemma compress_input_stream:
  assumes "compress_input Z input before_in z v = Some r"
    and "lossless Z valid owed written consumed inflate" and "valid z" and "before_in \<le> zl_total_in Z z"
    and "r = Ret (z', v')" and "zl_total_in Z z \<le> before_in + length input"
  shows "stretch valid written z v z' v' \<and> zl_total_in Z z' = before_in + length input \<and>
    consumed z' = consumed z @ drop (zl_total_in Z z - before_in) input"
  using assms
proof (induction Z input before_in z v r rule: compress_input.raw_induct [rotated, consumes 1, case_names step])
  case (step self Z input before_in z v r)
  let ?off = "zl_total_in Z z - before_in"
  show ?case
  proof (cases "?off < length input")
    case False
    with step(2,4,5,6,7) show ?thesis by (auto simp: stretch_refl)
  next
    case True
    with step(2,6) obtain z1 v1 status where c: "compress_vec Z z (drop ?off input) FlushNone v = Some (z1, v1, status)"
      by (auto split: option.splits)
    from lossless_step [OF step(3,4) c] obtain out where s: "valid z1" "zl_total_in Z z \<le> zl_total_in Z z1"
      "zl_total_in Z z1 \<le> zl_total_in Z z + length (drop ?off input)" "status \<noteq> ZStreamEnd"
      "vec_data v1 = vec_data v @ out" "written z1 = written z @ out"
      "consumed z1 = consumed z @ take (zl_total_in Z z1 - zl_total_in Z z) (drop ?off input)" .
    have first: "stretch valid written z v z1 v1" using s by (auto simp: stretch_def)
    have bounds: "before_in \<le> zl_total_in Z z1" "zl_total_in Z z1 \<le> before_in + length input"
      using s(2,3) step(5,7) True by auto
    have whole: "take (zl_total_in Z z1 - zl_total_in Z z) (drop ?off input) @ drop (zl_total_in Z z1 - before_in) input =
        drop ?off input"
    proof -
      have "zl_total_in Z z1 - before_in = (zl_total_in Z z1 - zl_total_in Z z) + ?off" using s(2) step(5) by simp
      then have "drop (zl_total_in Z z1 - before_in) input = drop (zl_total_in Z z1 - zl_total_in Z z) (drop ?off input)"
        by simp
      then show ?thesis by (simp only: append_take_drop_id)
    qed
    define v2 where "v2 = (if status = ZOk then v1 else reserve Z 4096 v1)"
    have "self Z input before_in z1 v2 = Some r"
      using step(2) True c s(4) by (cases status) (auto simp: v2_def)
    from step(1) [OF this step(3) s(1) bounds(1) step(6) bounds(2)]
    have "stretch valid written z1 v2 z' v'" "zl_total_in Z z' = before_in + length input"
      "consumed z' = consumed z1 @ drop (zl_total_in Z z1 - before_in) input" by simp_all
    moreover from this(1) have "stretch valid written z1 v1 z' v'" by (simp add: v2_def split: if_splits)
    ultimately show ?thesis using stretch_trans [OF first] s(7) whole by simp
  qed
qed

lemma flush_output_stream:
  assumes "flush_output Z z v = Some r"
    and "lossless Z valid owed written consumed inflate" and "valid z" and "r = Ret (z', v')"
  shows "stretch valid written z v z' v' \<and> consumed z' = consumed z"
  using assms
proof (induction Z z v r rule: flush_output.raw_induct [rotated, consumes 1, case_names step])
  case (step self Z z v r)
  show ?case
  proof (cases "ends_with (vec_data v) TRAILER")
    case True
    with step(2,4,5) show ?thesis by (auto simp: stretch_refl)
  next
    case False
    with step(2,5) obtain z1 v1 status where c: "compress_vec Z z [] FlushSync (reserve Z 5 v) = Some (z1, v1, status)"
      by (auto split: option.splits)
    from lossless_step [OF step(3,4) c] obtain out where s: "valid z1" "status \<noteq> ZStreamEnd"
      "vec_data v1 = vec_data (reserve Z 5 v) @ out" "written z1 = written z @ out"
      "consumed z1 = consumed z @ take (zl_total_in Z z1 - zl_total_in Z z) []" .
    have "stretch valid written z (reserve Z 5 v) z1 v1" using s by (auto simp: stretch_def)
    then have "stretch valid written z v z1 v1" by simp
    moreover have "self Z z1 v1 = Some r" using step(2) False c s(2) by simp
    from step(1) [OF this step(3) s(1) step(5)] have "stretch valid written z1 v1 z' v'" "consumed z' = consumed z1"
      by simp_all
    ultimately show ?thesis using s(5) stretch_trans by fastforce
  qed
qed

lemma compress_full_stream:
  assumes "compress_full Z z v input = Ret (z', v')"
    and ok: "lossless Z valid owed written consumed inflate" and "valid z"
  shows "stretch valid written z v z' v' \<and> consumed z' = consumed z @ input"
proof -
  from assms(1) obtain z1 v1 where 1: "compress_input Z input (zl_total_in Z z) z v = Some (Ret (z1, v1))"
    and 2: "flush_output Z z1 v1 = Some (Ret (z', v'))"
    by (auto simp: compress_full_def returned_def split: option.splits)
  from compress_input_stream [OF 1 ok assms(3) _ refl]
  have s1: "stretch valid written z v z1 v1" "consumed z1 = consumed z @ input" by simp_all
  then have "valid z1" by (simp add: stretch_def)
  from flush_output_stream [OF 2 ok this refl] s1 show ?thesis by (auto intro: stretch_trans)
qed

section \<open>The queue\<close>

definition messages :: "writer_event list \<Rightarrow> ws_message list" where
  "messages evs = List.map_filter (\<lambda>ev. case ev of Queued _ m \<Rightarrow> Some m | _ \<Rightarrow> None) evs"

lemma messages_simps [simp]:
  "messages [] = []" "messages (Queued a m # evs) = m # messages evs"
  "messages (Decided d # evs) = messages evs" "messages (QueueClosed # evs) = messages evs"
  by (simp_all add: messages_def List.map_filter_simps)

lemma send_in_time_cases:
  "send_in_time answer f w = (flow, w') \<Longrightarrow>
     if flow = Writing then w' = w\<lparr>wr_wire := wr_wire w @ [f]\<rparr> else w' = w"
  by (auto simp: send_in_time_def split: write_answer.splits if_splits)

text \<open>
  \<open>carries w bs ps\<close>: the writer's stream has written exactly the frames \<open>bs\<close> and taken in exactly the
  payloads \<open>ps\<close>; \<open>carried\<close> is how both grow from one state to a later one.
\<close>

definition carries ::
  "('z \<Rightarrow> bool) \<Rightarrow> ('z \<Rightarrow> string) \<Rightarrow> ('z \<Rightarrow> string) \<Rightarrow> 'z writer \<Rightarrow> string list \<Rightarrow> string list \<Rightarrow> bool" where
  "carries valid written consumed w bs ps \<longleftrightarrow>
     (case wr_zlib w of
        None \<Rightarrow> bs = [] \<and> ps = []
      | Some zs \<Rightarrow> valid (zs_compress zs) \<and> written (zs_compress zs) = concat bs \<and>
          consumed (zs_compress zs) = concat ps)"

definition carried ::
  "('z \<Rightarrow> bool) \<Rightarrow> ('z \<Rightarrow> string) \<Rightarrow> ('z \<Rightarrow> string) \<Rightarrow> 'z writer \<Rightarrow> 'z writer \<Rightarrow> string list \<Rightarrow> string list \<Rightarrow> bool" where
  "carried valid written consumed w w' bs ps \<longleftrightarrow>
     (\<forall>bs0 ps0. carries valid written consumed w bs0 ps0 \<longrightarrow>
        carries valid written consumed w' (bs0 @ bs) (ps0 @ ps))"

lemma carried_same: "wr_zlib w' = wr_zlib w \<Longrightarrow> carried valid written consumed w w' [] []"
  by (simp add: carried_def carries_def)

lemma carried_start: "carried valid written consumed w w' bs ps \<Longrightarrow> wr_zlib w = None \<Longrightarrow> carries valid written consumed w' bs ps"
  by (force simp: carried_def carries_def)

lemma carried_trans:
  "carried valid written consumed w w1 bs ps \<Longrightarrow> carried valid written consumed w1 w' bs' ps' \<Longrightarrow>
     carried valid written consumed w w' (bs @ bs') (ps @ ps')"
  unfolding carried_def by (metis append_assoc)

lemma carried_compressed:
  assumes ok: "lossless Z valid owed written consumed inflate"
    and c: "compress_and_send Z input (case wr_zlib w of None \<Rightarrow> new_zlib_state Z | Some zs \<Rightarrow> zs) = Ret (b, zs')"
    and "wr_zlib w' = Some zs'"
  shows "carried valid written consumed w w' [b] [input]"
  unfolding carried_def
proof (intro allI impI)
  fix bs0 ps0
  define zs where "zs = (case wr_zlib w of None \<Rightarrow> new_zlib_state Z | Some zs \<Rightarrow> zs)"
  assume "carries valid written consumed w bs0 ps0"
  then have before: "valid (zs_compress zs)" "written (zs_compress zs) = concat bs0"
    "consumed (zs_compress zs) = concat ps0"
    using lossless_new [OF ok]
    by (auto simp: carries_def zs_def new_zlib_state_def split: option.splits)
  from c obtain z' v' where f: "compress_full Z (zs_compress zs) ((zs_buffer zs)\<lparr>vec_data := []\<rparr>) input = Ret (z', v')"
    "b = vec_data v'" "zs' = \<lparr>zs_compress = z', zs_buffer = v'\<rparr>"
    by (auto simp: compress_and_send_def zs_def)
  from compress_full_stream [OF f(1) ok before(1)] before f(2,3) assms(3)
  show "carries valid written consumed w' (bs0 @ [b]) (ps0 @ [input])"
    by (auto simp: carries_def stretch_def)
qed

lemma carries_inflates:
  "lossless Z valid owed written consumed inflate \<Longrightarrow> carries valid written consumed w bs ps \<Longrightarrow>
     case wr_zlib w of None \<Rightarrow> bs = [] | Some zs \<Rightarrow> inflate (concat bs @ owed (zs_compress zs)) = concat ps"
  using lossless_inflate by (fastforce simp: carries_def split: option.splits)

text \<open>
  \<open>sends flow ms w w'\<close>: between the two states the messages \<open>ms\<close> went out in order, first as they are and
  then as frames of the stream; all of them, with the stream keeping up, when the task still writes.
\<close>

definition sends ::
  "('z writer \<Rightarrow> 'z writer \<Rightarrow> string list \<Rightarrow> string list \<Rightarrow> bool) \<Rightarrow>
     writer_flow \<Rightarrow> ws_message list \<Rightarrow> 'z writer \<Rightarrow> 'z writer \<Rightarrow> bool" where
  "sends K flow ms w w' \<longleftrightarrow>
     (\<exists>n bs. wr_wire w' = wr_wire w @ map frame_of (take n ms) @ map BinaryFrame bs \<and>
        n + length bs \<le> length ms \<and> (wr_use_zlib w \<longrightarrow> n = 0) \<and> (bs \<noteq> [] \<longrightarrow> wr_use_zlib w') \<and>
        (flow = Writing \<longrightarrow> n + length bs = length ms \<and> K w w' bs (map into_payload (drop n ms))))"

lemma sends_none: "flow \<noteq> Writing \<or> ms = [] \<and> K w w' [] [] \<Longrightarrow> wr_wire w' = wr_wire w \<Longrightarrow> sends K flow ms w w'"
  unfolding sends_def by (intro exI [of _ 0] exI [of _ "[]"]) auto

lemma sends_plain:
  assumes "sends K flow ms w1 w'" and "wr_wire w1 = wr_wire w @ [frame_of m]" and "\<not> wr_use_zlib w"
    and "\<And>bs ps. K w1 w' bs ps \<Longrightarrow> K w w' bs ps"
  shows "sends K flow (m # ms) w w'"
proof -
  from assms(1) obtain n bs where "wr_wire w' = wr_wire w1 @ map frame_of (take n ms) @ map BinaryFrame bs"
    "n + length bs \<le> length ms" "bs \<noteq> [] \<longrightarrow> wr_use_zlib w'"
    "flow = Writing \<longrightarrow> n + length bs = length ms \<and> K w1 w' bs (map into_payload (drop n ms))"
    by (auto simp: sends_def)
  with assms(2-4) show ?thesis unfolding sends_def by (intro exI [of _ "Suc n"] exI [of _ bs]) auto
qed

lemma sends_compressed:
  assumes "sends K flow ms w1 w'" and "wr_wire w1 = wr_wire w @ [BinaryFrame b]"
    and "wr_use_zlib w1" and "wr_use_zlib w1 \<longrightarrow> wr_use_zlib w'"
    and "\<And>bs ps. K w1 w' bs ps \<Longrightarrow> K w w' (b # bs) (into_payload m # ps)"
  shows "sends K flow (m # ms) w w'"
proof -
  from assms(1,3) obtain bs where "wr_wire w' = wr_wire w1 @ map BinaryFrame bs"
    "length bs \<le> length ms" "flow = Writing \<longrightarrow> length bs = length ms \<and> K w1 w' bs (map into_payload ms)"
    by (auto simp: sends_def)
  with assms(2-5) show ?thesis unfolding sends_def by (intro exI [of _ 0] exI [of _ "b # bs"]) auto
qed

lemma sends_decided:
  assumes "sends K flow ms w1 w'" and "wr_wire w1 = wr_wire w" and "wr_use_zlib w \<longrightarrow> wr_use_zlib w1"
    and "\<And>bs ps. K w1 w' bs ps \<Longrightarrow> K w w' bs ps"
  shows "sends K flow ms w w'"
proof -
  from assms(1) obtain n bs where "wr_wire w' = wr_wire w1 @ map frame_of (take n ms) @ map BinaryFrame bs"
    "n + length bs \<le> length ms" "bs \<noteq> [] \<longrightarrow> wr_use_zlib w'" "wr_use_zlib w1 \<longrightarrow> n = 0"
    "flow = Writing \<longrightarrow> n + length bs = length ms \<and> K w1 w' bs (map into_payload (drop n ms))"
    by (auto simp: sends_def)
  with assms(2-4) show ?thesis unfolding sends_def by (intro exI [of _ n] exI [of _ bs]) auto
qed

section \<open>The loop\<close>

text \<open>The stream keeps up, for whichever lossless compressor.\<close>

definition keeps_up ::
  "'z zlib_lib \<Rightarrow> ('z \<Rightarrow> bool) \<Rightarrow> ('z \<Rightarrow> string) \<Rightarrow> ('z \<Rightarrow> string) \<Rightarrow> ('z \<Rightarrow> string) \<Rightarrow> (string \<Rightarrow> string) \<Rightarrow>
     'z writer \<Rightarrow> 'z writer \<Rightarrow> string list \<Rightarrow> string list \<Rightarrow> bool" where
  "keeps_up Z valid owed written consumed inflate w w' bs ps \<longleftrightarrow>
     (lossless Z valid owed written consumed inflate \<longrightarrow> carried valid written consumed w w' bs ps)"

lemma keeps_up_trans:
  "keeps_up Z V O' W C I w w1 bs ps \<Longrightarrow> keeps_up Z V O' W C I w1 w' bs' ps' \<Longrightarrow>
     keeps_up Z V O' W C I w w' (bs @ bs') (ps @ ps')"
  by (auto simp: keeps_up_def intro: carried_trans)

lemma keeps_up_same: "wr_zlib w' = wr_zlib w \<Longrightarrow> keeps_up Z V O' W C I w w' [] []"
  by (simp add: keeps_up_def carried_same)

lemma keeps_up_after:
  "keeps_up Z V O' W C I w w1 [] [] \<Longrightarrow> keeps_up Z V O' W C I w1 w' bs ps \<Longrightarrow> keeps_up Z V O' W C I w w' bs ps"
  using keeps_up_trans [of Z V O' W C I w w1 "[]" "[]" w' bs ps] by simp

end
