(* ===== verification/Writer_Safety.thy ===== *)
theory Writer_Safety
  imports Writer_Stream
begin

text \<open>
  The properties of the socket writer: order and completeness of what a client is sent, the end of
  the compression loops, and close codes under compression.
\<close>

section \<open>The contract of zlib\<close>

text \<open>
  What the loops rely on, as zlib documents it. \<open>owed z\<close> is what a sync flush would still write. Without
  room nothing happens. With room, input makes progress: some of it is consumed, and then the flush
  has to end with the empty block, or pending bytes are written. A sync flush writes what is owed as
  far as there is room. No call fails or ends the stream.
\<close>

definition deflate_ok :: "'z zlib_lib \<Rightarrow> ('z \<Rightarrow> string) \<Rightarrow> bool" where
  "deflate_ok Z owed \<longleftrightarrow>
     (\<forall>cap n. n \<le> zl_grow Z cap n) \<and>
     (\<forall>z input. input \<noteq> [] \<longrightarrow> zl_compress Z z input FlushNone 0 = Some (z, [], ZBufError)) \<and>
     (\<forall>z input n. input \<noteq> [] \<and> 0 < n \<longrightarrow>
        (\<exists>z' out status k. zl_compress Z z input FlushNone n = Some (z', out, status) \<and>
           status \<noteq> ZStreamEnd \<and> k \<le> length input \<and> zl_total_in Z z' = zl_total_in Z z + k \<and>
           (if k = 0 then out \<noteq> [] \<and> owed z = out @ owed z' else ends_with (owed z') TRAILER))) \<and>
     (\<forall>z n. 0 < n \<longrightarrow>
        (\<exists>z' status. zl_compress Z z [] FlushSync n = Some (z', take n (owed z), status) \<and>
           status \<noteq> ZStreamEnd \<and> zl_total_in Z z' = zl_total_in Z z \<and> owed z' = drop n (owed z)))"

lemma deflate_no_room:
  "deflate_ok Z owed \<Longrightarrow> input \<noteq> [] \<Longrightarrow> spare v = 0 \<Longrightarrow>
     compress_vec Z z input FlushNone v = Some (z, v, ZBufError)"
  by (simp add: deflate_ok_def compress_vec_def)

lemma deflate_input:
  assumes "deflate_ok Z owed" and "input \<noteq> []" and "0 < spare v"
  obtains z' v' status k where "compress_vec Z z input FlushNone v = Some (z', v', status)"
    and "status \<noteq> ZStreamEnd" and "k \<le> length input" and "zl_total_in Z z' = zl_total_in Z z + k"
    and "if k = 0 then length (owed z') < length (owed z) else ends_with (owed z') TRAILER"
proof -
  from assms obtain z' out status k where "zl_compress Z z input FlushNone (spare v) = Some (z', out, status)"
    "status \<noteq> ZStreamEnd" "k \<le> length input" "zl_total_in Z z' = zl_total_in Z z + k"
    "if k = 0 then out \<noteq> [] \<and> owed z = out @ owed z' else ends_with (owed z') TRAILER"
    unfolding deflate_ok_def by meson
  then show thesis by (intro that [of z' _ status k]) (auto simp: compress_vec_def)
qed

lemma deflate_flush:
  assumes "deflate_ok Z owed" and "0 < spare v"
  obtains z' v' status where "compress_vec Z z [] FlushSync v = Some (z', v', status)"
    and "status \<noteq> ZStreamEnd" and "zl_total_in Z z' = zl_total_in Z z"
    and "vec_data v' @ owed z' = vec_data v @ owed z" and "length (owed z') = length (owed z) - spare v"
proof -
  from assms obtain z' status where
    "zl_compress Z z [] FlushSync (spare v) = Some (z', take (spare v) (owed z), status)"
    "status \<noteq> ZStreamEnd" "zl_total_in Z z' = zl_total_in Z z" "owed z' = drop (spare v) (owed z)"
    unfolding deflate_ok_def by meson
  then show thesis
    by (intro that [of z' "v\<lparr>vec_data := vec_data v @ take (spare v) (owed z)\<rparr>" status])
      (simp_all add: compress_vec_def)
qed

lemma spare_reserve: "deflate_ok Z owed \<Longrightarrow> n \<le> spare (reserve Z n v)"
proof -
  assume "deflate_ok Z owed"
  then have "length (vec_data v) + n \<le> zl_grow Z (vec_cap v) (length (vec_data v) + n)"
    unfolding deflate_ok_def by blast
  then have "n \<le> zl_grow Z (vec_cap v) (length (vec_data v) + n) - length (vec_data v)" by linarith
  then show ?thesis by (simp add: reserve_def spare_def)
qed

lemma reserve_data [simp]: "vec_data (reserve Z n v) = vec_data v"
  by (simp add: reserve_def)

section \<open>The compression loops end\<close>

text \<open>The rank that each pass of the input loop uses up.\<close>

definition input_rank :: "'z zlib_lib \<Rightarrow> ('z \<Rightarrow> string) \<Rightarrow> nat \<Rightarrow> (('z \<times> vec) \<times> 'z \<times> vec) set" where
  "input_rank Z owed goal = measures
     [\<lambda>(z, v). goal - zl_total_in Z z, \<lambda>(z, v). length (owed z), \<lambda>(z, v). if spare v = 0 then 1 else 0]"

lemma input_rank_wf: "wf (input_rank Z owed goal)"
  by (simp add: input_rank_def)

lemma compress_input_pass:
  assumes ok: "deflate_ok Z owed" and before: "before_in \<le> zl_total_in Z z"
    and more: "zl_total_in Z z < before_in + length input"
  obtains z1 v1 where "compress_input Z input before_in z v = compress_input Z input before_in z1 v1"
    and "((z1, v1), z, v) \<in> input_rank Z owed (before_in + length input)"
    and "before_in \<le> zl_total_in Z z1" and "zl_total_in Z z1 \<le> before_in + length input"
    and "zl_total_in Z z1 = before_in + length input \<Longrightarrow> ends_with (owed z1) TRAILER"
proof -
  let ?rest = "drop (zl_total_in Z z - before_in) input"
  have inside: "zl_total_in Z z - before_in < length input" using before more by simp
  then have rest: "?rest \<noteq> []" "length ?rest = before_in + length input - zl_total_in Z z"
    using before by auto
  show thesis
  proof (cases "spare v = 0")
    case room: True
    have "0 < spare (reserve Z 4096 v)" using spare_reserve [OF ok, of 4096 v] by simp
    moreover have "compress_input Z input before_in z v = compress_input Z input before_in z (reserve Z 4096 v)"
      by (subst compress_input.simps) (simp add: inside deflate_no_room [OF ok rest(1) room])
    ultimately show thesis using room before more by (intro that) (auto simp: input_rank_def)
  next
    case False
    then obtain z1 v1 status k where c: "compress_vec Z z ?rest FlushNone v = Some (z1, v1, status)"
      "status \<noteq> ZStreamEnd" "k \<le> length ?rest" "zl_total_in Z z1 = zl_total_in Z z + k"
      "if k = 0 then length (owed z1) < length (owed z) else ends_with (owed z1) TRAILER"
      using deflate_input [OF ok rest(1), of v z] by blast
    define v2 where "v2 = (if status = ZOk then v1 else reserve Z 4096 v1)"
    have "compress_input Z input before_in z v = compress_input Z input before_in z1 v2"
      using inside c(1,2) by (subst compress_input.simps) (cases status; simp add: v2_def)
    moreover have "((z1, v2), z, v) \<in> input_rank Z owed (before_in + length input)"
      using c(3-5) rest(2) more by (auto simp: input_rank_def split: if_splits)
    ultimately show thesis using before more c(3-5) rest(2) by (intro that) (auto split: if_splits)
  qed
qed

lemma compress_input_done:
  "zl_total_in Z z = before_in + length input \<Longrightarrow> compress_input Z input before_in z v = Some (Ret (z, v))"
  by (subst compress_input.simps) simp

lemma compress_input_returns:
  assumes ok: "deflate_ok Z owed" and "before_in \<le> zl_total_in Z z"
    and "zl_total_in Z z \<le> before_in + length input"
  shows "\<exists>z' v'. compress_input Z input before_in z v = Some (Ret (z', v')) \<and>
    zl_total_in Z z' = before_in + length input \<and>
    (zl_total_in Z z < before_in + length input \<longrightarrow> ends_with (owed z') TRAILER)"
  using assms(2,3)
proof (induction "(z, v)" arbitrary: z v rule: wf_induct_rule [OF input_rank_wf [of Z owed "before_in + length input"]])
  case 1
  show ?case
  proof (cases "zl_total_in Z z < before_in + length input")
    case False
    with 1 compress_input_done [of Z z before_in input v] show ?thesis by simp
  next
    case True
    then obtain z1 v1 where pass: "compress_input Z input before_in z v = compress_input Z input before_in z1 v1"
      "((z1, v1), z, v) \<in> input_rank Z owed (before_in + length input)"
      "before_in \<le> zl_total_in Z z1" "zl_total_in Z z1 \<le> before_in + length input"
      "zl_total_in Z z1 = before_in + length input \<Longrightarrow> ends_with (owed z1) TRAILER"
      using compress_input_pass [OF ok 1(2)] by blast
    from 1(1) [OF pass(2-4)] obtain z' v' where "compress_input Z input before_in z1 v1 = Some (Ret (z', v'))"
      "zl_total_in Z z' = before_in + length input"
      "zl_total_in Z z1 < before_in + length input \<longrightarrow> ends_with (owed z') TRAILER" by blast
    with pass compress_input_done [of Z z1 before_in input v1] show ?thesis
      by (cases "zl_total_in Z z1 = before_in + length input") auto
  qed
qed

lemma ends_with_append: "ends_with s p \<Longrightarrow> ends_with (r @ s) p"
  by (auto simp: ends_with_def)

lemma flush_output_returns:
  assumes ok: "deflate_ok Z owed" and "ends_with (vec_data v @ owed z) TRAILER"
  shows "\<exists>z' v'. flush_output Z z v = Some (Ret (z', v')) \<and> zl_total_in Z z' = zl_total_in Z z \<and>
    ends_with (vec_data v') TRAILER \<and> vec_data v' @ owed z' = vec_data v @ owed z"
  using assms(2)
proof (induction "length (owed z)" arbitrary: z v rule: less_induct)
  case less
  show ?case
  proof (cases "ends_with (vec_data v) TRAILER")
    case True
    then show ?thesis by (subst flush_output.simps) simp
  next
    case False
    then have some: "owed z \<noteq> []" using less.prems by auto
    have "5 \<le> spare (reserve Z 5 v)" by (rule spare_reserve [OF ok])
    then have room: "0 < spare (reserve Z 5 v)" by simp
    obtain z1 v1 status where c: "compress_vec Z z [] FlushSync (reserve Z 5 v) = Some (z1, v1, status)"
      "status \<noteq> ZStreamEnd" "zl_total_in Z z1 = zl_total_in Z z"
      "vec_data v1 @ owed z1 = vec_data v @ owed z" "length (owed z1) = length (owed z) - spare (reserve Z 5 v)"
      using deflate_flush [OF ok room, of z] by auto
    have "length (owed z1) < length (owed z)" using c(5) room some by simp
    moreover have "ends_with (vec_data v1 @ owed z1) TRAILER" using less.prems c(4) by simp
    ultimately obtain z' v' where "flush_output Z z1 v1 = Some (Ret (z', v'))" "zl_total_in Z z' = zl_total_in Z z1"
      "ends_with (vec_data v') TRAILER" "vec_data v' @ owed z' = vec_data v1 @ owed z1"
      using less.hyps by blast
    with False c show ?thesis by (subst flush_output.simps) simp
  qed
qed

lemma compress_full_result:
  assumes ok: "deflate_ok Z owed" and "input \<noteq> []"
  shows "\<exists>z' v'. compress_full Z z v input = Ret (z', v') \<and>
    zl_total_in Z z' = zl_total_in Z z + length input \<and> ends_with (vec_data v') TRAILER \<and>
    ends_with (vec_data v' @ owed z') TRAILER"
proof -
  obtain z1 v1 where 1: "compress_input Z input (zl_total_in Z z) z v = Some (Ret (z1, v1))"
    "zl_total_in Z z1 = zl_total_in Z z + length input" "ends_with (owed z1) TRAILER"
    using compress_input_returns [OF ok, of "zl_total_in Z z" z input v] assms(2) by auto
  obtain z2 v2 where "flush_output Z z1 v1 = Some (Ret (z2, v2))" "zl_total_in Z z2 = zl_total_in Z z1"
    "ends_with (vec_data v2) TRAILER" "vec_data v2 @ owed z2 = vec_data v1 @ owed z1"
    using flush_output_returns [OF ok ends_with_append [OF 1(3)]] by blast
  with 1 show ?thesis by (auto simp: compress_full_def returned_def intro: ends_with_append)
qed

section \<open>What is on the wire\<close>

lemma write_message_cases:
  assumes "write_message Z answer m w = Ret (flow, w')"
  shows "wr_use_zlib w' = wr_use_zlib w"
    and "flow \<noteq> Writing \<Longrightarrow> wr_wire w' = wr_wire w"
    and "flow = Writing \<Longrightarrow> \<not> wr_use_zlib w \<Longrightarrow> w' = w\<lparr>wr_wire := wr_wire w @ [frame_of m]\<rparr>"
    and "flow = Writing \<Longrightarrow> wr_use_zlib w \<Longrightarrow>
      \<exists>b. wr_wire w' = wr_wire w @ [BinaryFrame b] \<and> keeps_up Z V U W C I w w' [b] [into_payload m]"
proof -
  obtain f w0 where send: "send_in_time answer f w0 = (flow, w')"
    and w0: "wr_wire w0 = wr_wire w" "wr_use_zlib w0 = wr_use_zlib w" "\<not> wr_use_zlib w \<Longrightarrow> f = frame_of m \<and> w0 = w"
    and keep: "wr_use_zlib w \<Longrightarrow>
      \<exists>b. f = BinaryFrame b \<and> (\<forall>w2. wr_zlib w2 = wr_zlib w0 \<longrightarrow> keeps_up Z V U W C I w w2 [b] [into_payload m])"
  proof (cases "wr_use_zlib w")
    case True
    then obtain b zs where c: "compress_and_send Z (into_payload m)
        (case wr_zlib w of None \<Rightarrow> new_zlib_state Z | Some zs \<Rightarrow> zs) = Ret (b, zs)"
      "send_in_time answer (BinaryFrame b) (w\<lparr>wr_zlib := Some zs\<rparr>) = (flow, w')"
      using assms by (auto simp: write_message_def)
    have "keeps_up Z V U W C I w w2 [b] [into_payload m]" if "wr_zlib w2 = Some zs" for w2
      using carried_compressed [OF _ c(1) that] by (simp add: keeps_up_def)
    with True c(2) show thesis by (intro that [of "BinaryFrame b" "w\<lparr>wr_zlib := Some zs\<rparr>"]) auto
  qed (use assms that [of "frame_of m" w] in \<open>simp add: write_message_def\<close>)
  note c = send_in_time_cases [OF send]
  show "wr_use_zlib w' = wr_use_zlib w" using c w0 by (simp split: if_splits)
  show "wr_wire w' = wr_wire w" if "flow \<noteq> Writing" using c w0 that by simp
  show "w' = w\<lparr>wr_wire := wr_wire w @ [frame_of m]\<rparr>" if "flow = Writing" "\<not> wr_use_zlib w"
    using c w0(3) that by simp
  show "\<exists>b. wr_wire w' = wr_wire w @ [BinaryFrame b] \<and> keeps_up Z V U W C I w w' [b] [into_payload m]"
    if "flow = Writing" "wr_use_zlib w"
    using c w0(1) keep that by auto
qed

lemma writer_loop_use_zlib:
  "writer_loop Z evs w = Ret (flow, w') \<Longrightarrow>
     (wr_use_zlib w \<longrightarrow> wr_use_zlib w') \<and>
     (wr_use_zlib w' \<longrightarrow> wr_use_zlib w \<or> Decided (Some (Some True)) \<in> set evs)"
proof (induction Z evs w rule: writer_loop.induct)
  case (4 Z answer m evs w)
  then show ?case using write_message_cases(1) by (fastforce split: if_splits)
qed (fastforce split: if_splits)+

lemma write_message_sends:
  assumes wr: "write_message Z answer m w = Ret (Writing, w1)"
    and more: "wr_use_zlib w1 \<longrightarrow> wr_use_zlib w'"
    and ih: "sends (keeps_up Z V U W C I) flow ms w1 w'"
  shows "sends (keeps_up Z V U W C I) flow (m # ms) w w'"
proof (cases "wr_use_zlib w")
  case False
  with write_message_cases(3) [OF wr] have w1: "w1 = w\<lparr>wr_wire := wr_wire w @ [frame_of m]\<rparr>" by blast
  show ?thesis
    by (rule sends_plain [OF ih _ False])
      (use w1 in \<open>auto intro: keeps_up_after [OF keeps_up_same, where ?w1.0 = w1]\<close>)
next
  case zlib: True
  from write_message_cases(4) [OF wr refl zlib, of V U W C I] obtain b where
    b: "wr_wire w1 = wr_wire w @ [BinaryFrame b]" "keeps_up Z V U W C I w w1 [b] [into_payload m]" by blast
  show ?thesis
    using ih b(1)
    by (rule sends_compressed)
      (use zlib write_message_cases(1) [OF wr] more keeps_up_trans [OF b(2)] in auto)
qed

lemma writer_loop_sends:
  assumes "writer_loop Z evs w = Ret (flow, w')"
  shows "sends (keeps_up Z V U W C I) flow (messages evs) w w'"
  using assms
proof (induction evs arbitrary: w)
  case Nil
  then show ?case by (auto intro!: sends_none simp: keeps_up_same)
next
  case (Cons ev evs)
  show ?case
  proof (cases ev)
    case (Decided d)
    define w1 where "w1 = (if wr_pending w
        then w\<lparr>wr_use_zlib := wr_use_zlib w \<or> d = Some (Some True), wr_pending := False\<rparr> else w)"
    have "writer_loop Z evs w1 = Ret (flow, w')"
      using Cons.prems by (simp add: Decided w1_def split: if_splits)
    note ih = Cons.IH [OF this]
    have w1: "wr_wire w1 = wr_wire w" "wr_use_zlib w \<longrightarrow> wr_use_zlib w1" "wr_zlib w1 = wr_zlib w"
      by (simp_all add: w1_def)
    have "sends (keeps_up Z V U W C I) flow (messages evs) w w'"
      by (rule sends_decided [OF ih w1(1,2)]) (rule keeps_up_after [OF keeps_up_same [OF w1(3)]])
    with Decided show ?thesis by simp
  next
    case (Queued answer m)
    then obtain fl w1 where wr: "write_message Z answer m w = Ret (fl, w1)"
      and rest: "(if fl = Writing then writer_loop Z evs w1 else Ret (fl, w1)) = Ret (flow, w')"
      using Cons.prems by auto
    show ?thesis
    proof (cases "fl = Writing")
      case False
      with rest write_message_cases(2) [OF wr] show ?thesis by (auto intro: sends_none)
    next
      case True
      with rest have loop: "writer_loop Z evs w1 = Ret (flow, w')" by simp
      from write_message_sends [OF wr [unfolded True] _ Cons.IH [OF loop]] writer_loop_use_zlib [OF loop] Queued
      show ?thesis by simp
    qed
  next
    case QueueClosed
    with Cons.prems show ?thesis by (auto intro: sends_none)
  qed
qed

lemma sink_loop:
  "sink_from_queue Z use_zlib answer evs = writer_loop Z (Queued answer (WsText HELLO) # evs)
     \<lparr>wr_use_zlib = use_zlib, wr_zlib = None, wr_pending = True, wr_wire = []\<rparr>"
  by (simp add: sink_from_queue_def)

lemma sink_sends:
  assumes "sink_from_queue Z use_zlib answer evs = Ret (flow, w)" and ms: "ms = WsText HELLO # messages evs"
  obtains n bs where "wr_wire w = map frame_of (take n ms) @ map BinaryFrame bs"
    and "n + length bs \<le> length ms" and "use_zlib \<Longrightarrow> n = 0"
    and "\<not> use_zlib \<Longrightarrow> Decided (Some (Some True)) \<notin> set evs \<Longrightarrow> bs = []"
    and "flow = Writing \<Longrightarrow> n + length bs = length ms"
    and "flow = Writing \<Longrightarrow> lossless Z V U W C I \<Longrightarrow> carries V W C w bs (map into_payload (drop n ms))"
proof -
  let ?w = "\<lparr>wr_use_zlib = use_zlib, wr_zlib = None, wr_pending = True, wr_wire = []\<rparr>"
  note loop = assms(1) [unfolded sink_loop]
  from writer_loop_sends [OF loop, of V U W C I] obtain n bs where
    "wr_wire w = map frame_of (take n ms) @ map BinaryFrame bs" "n + length bs \<le> length ms" "use_zlib \<longrightarrow> n = 0"
    "bs \<noteq> [] \<longrightarrow> wr_use_zlib w" "flow = Writing \<longrightarrow> n + length bs = length ms \<and>
      keeps_up Z V U W C I ?w w bs (map into_payload (drop n ms))"
    by (auto simp: sends_def ms)
  then show thesis
    using writer_loop_use_zlib [OF loop] by (intro that [of n bs]) (auto simp: keeps_up_def carried_start)
qed

text \<open>When the queue is closed the task ends, with what it has written so far.\<close>

lemma writer_loop_closed:
  "writer_loop Z evs w = Ret (Writing, w') \<Longrightarrow> writer_loop Z (evs @ QueueClosed # rest) w = Ret (Ended, w')"
  by (induction Z evs w rule: writer_loop.induct) (fastforce split: if_splits)+

lemma sink_closed:
  "sink_from_queue Z use_zlib answer evs = Ret (Writing, w) \<Longrightarrow>
     sink_from_queue Z use_zlib answer (evs @ QueueClosed # rest) = Ret (Ended, w)"
  using writer_loop_closed [of Z "Queued answer (WsText HELLO) # evs"] by (simp only: sink_loop append_Cons)





section \<open>It returns\<close>

definition frames_end :: "'z writer \<Rightarrow> bool" where
  "frames_end w \<longleftrightarrow> (\<forall>b. BinaryFrame b \<in> set (wr_wire w) \<longrightarrow> ends_with b TRAILER)"

lemma write_message_returns:
  assumes ok: "deflate_ok Z owed" and "into_payload m \<noteq> []" and "frames_end w"
  shows "\<exists>flow w'. write_message Z answer m w = Ret (flow, w') \<and> frames_end w'"
proof (cases "wr_use_zlib w")
  case False
  have "frames_end w'" if "send_in_time answer (frame_of m) w = (flow, w')" for flow w'
    using send_in_time_cases [OF that] assms(3)
    by (auto simp: frames_end_def frame_of_def split: ws_message.splits if_splits)
  with False show ?thesis
    by (cases "send_in_time answer (frame_of m) w") (simp add: write_message_def)
next
  case True
  define zs where "zs = (case wr_zlib w of None \<Rightarrow> new_zlib_state Z | Some zs \<Rightarrow> zs)"
  obtain z' v' where c: "compress_full Z (zs_compress zs) ((zs_buffer zs)\<lparr>vec_data := []\<rparr>) (into_payload m) = Ret (z', v')"
    "ends_with (vec_data v') TRAILER" using compress_full_result [OF ok assms(2)] by blast
  let ?w = "w\<lparr>wr_zlib := Some \<lparr>zs_compress = z', zs_buffer = v'\<rparr>\<rparr>"
  have "frames_end w'" if "send_in_time answer (BinaryFrame (vec_data v')) ?w = (flow, w')" for flow w'
    using send_in_time_cases [OF that] assms(3) c(2) by (auto simp: frames_end_def split: if_splits)
  with True c(1) show ?thesis
    by (cases "send_in_time answer (BinaryFrame (vec_data v')) ?w")
      (simp add: write_message_def compress_and_send_def zs_def)
qed

lemma writer_loop_returns:
  assumes ok: "deflate_ok Z owed" and "\<forall>m\<in>set (messages evs). into_payload m \<noteq> []" and "frames_end w"
  shows "\<exists>flow w'. writer_loop Z evs w = Ret (flow, w') \<and> frames_end w'"
  using assms(2,3)
proof (induction evs arbitrary: w)
  case Nil
  then show ?case by simp
next
  case (Cons ev evs)
  show ?case
  proof (cases ev)
    case (Decided d)
    have "frames_end (w\<lparr>wr_use_zlib := b, wr_pending := False\<rparr>)" for b
      using Cons.prems(2) by (simp add: frames_end_def)
    with Cons Decided show ?thesis by simp
  next
    case (Queued answer m)
    obtain flow w' where "write_message Z answer m w = Ret (flow, w')" "frames_end w'"
      using write_message_returns [OF ok _ Cons.prems(2), of m answer] Cons.prems(1) Queued by auto
    with Cons Queued show ?thesis by (cases "flow = Writing") auto
  qed (use Cons.prems in simp)
qed

lemma sink_returns:
  assumes "deflate_ok Z owed" and "\<forall>m\<in>set (messages evs). into_payload m \<noteq> []"
  shows "\<exists>flow w. sink_from_queue Z use_zlib answer evs = Ret (flow, w) \<and> frames_end w"
  unfolding sink_loop
  by (rule writer_loop_returns [OF assms(1)])
    (use assms(2) in \<open>simp_all add: into_payload_def HELLO_def frames_end_def\<close>)

section \<open>A compressor to try things on\<close>

text \<open>
  It puts \<open>d\<close> before every character, keeps everything until a flush and ends each chunk with the trailer.
  Its state is what it has taken in, what it has written and what it owes.
\<close>

definition demo_chunk :: "string \<Rightarrow> string" where
  "demo_chunk s = concat (map (\<lambda>c. [CHR ''d'', c]) s) @ TRAILER"

definition demo_zlib :: "(string \<times> string \<times> string) zlib_lib" where
  "demo_zlib =
     \<lparr>zl_new = ([], [], []), zl_total_in = (\<lambda>(taken, written, owed). length taken),
      zl_compress = (\<lambda>(taken, written, owed) input flush n.
        case flush of
          FlushNone \<Rightarrow>
            if n = 0 then Some ((taken, written, owed), [], ZBufError)
            else Some ((taken @ input, written, owed @ demo_chunk input), [], ZOk)
        | FlushSync \<Rightarrow> Some ((taken, written @ take n owed, drop n owed), take n owed, ZOk)),
      zl_grow = (\<lambda>cap n. n)\<rparr>"

definition demo_owed :: "string \<times> string \<times> string \<Rightarrow> string" where "demo_owed z = snd (snd z)"
definition demo_written :: "string \<times> string \<times> string \<Rightarrow> string" where "demo_written z = fst (snd z)"

definition demo_valid :: "string \<times> string \<times> string \<Rightarrow> bool" where
  "demo_valid z \<longleftrightarrow> (\<exists>chunks. demo_written z @ demo_owed z = concat (map demo_chunk chunks) \<and> fst z = concat chunks)"

fun demo_inflate :: "string \<Rightarrow> string" where
  "demo_inflate [] = []"
| "demo_inflate [c] = []"
| "demo_inflate (c # d # s) = (if c = CHR ''d'' then d # demo_inflate s else demo_inflate (d # s))"

lemma demo_inflate_skip: "c \<noteq> CHR ''d'' \<Longrightarrow> demo_inflate (c # s) = demo_inflate s"
  by (cases s) simp_all

lemma demo_inflate_chunk: "demo_inflate (demo_chunk s @ r) = s @ demo_inflate r"
  by (induction s) (simp_all add: demo_chunk_def TRAILER_def demo_inflate_skip)

lemma demo_inflate_chunks: "demo_inflate (concat (map demo_chunk chunks)) = concat chunks"
  by (induction chunks) (simp_all add: demo_inflate_chunk)

lemma demo_zlib_ok: "deflate_ok demo_zlib demo_owed"
  by (auto simp: deflate_ok_def demo_zlib_def demo_owed_def demo_chunk_def ends_with_def)

lemma demo_zlib_lossless: "lossless demo_zlib demo_valid demo_owed demo_written fst demo_inflate"
proof -
  have "demo_valid (taken @ input, written, owed @ demo_chunk input)" if "demo_valid (taken, written, owed)"
    for taken input written owed
  proof -
    from that obtain chunks where "written @ owed = concat (map demo_chunk chunks)" "taken = concat chunks"
      by (auto simp: demo_valid_def demo_written_def demo_owed_def)
    then have "written @ owed @ demo_chunk input = concat (map demo_chunk (chunks @ [input]))"
      "taken @ input = concat (chunks @ [input])" by simp_all
    then show ?thesis unfolding demo_valid_def demo_written_def demo_owed_def fst_conv snd_conv by blast
  qed
  moreover have "demo_valid (taken, written @ take n owed, drop n owed)" if "demo_valid (taken, written, owed)"
    for taken written owed n
    using that by (simp add: demo_valid_def demo_written_def demo_owed_def)
  moreover have "demo_valid ([], [], [])"
    unfolding demo_valid_def demo_written_def demo_owed_def by (intro exI [of _ "[]"]) simp
  moreover have "demo_inflate (demo_written z @ demo_owed z) = fst z" if "demo_valid z" for z
    using that by (auto simp: demo_valid_def demo_inflate_chunks)
  ultimately show ?thesis
    unfolding lossless_def demo_zlib_def
    by (auto simp: demo_written_def split: zlib_flush.splits if_splits)
qed

lemma demo_zlib_new: "zl_new demo_zlib = ([], [], [])"
  by (simp add: demo_zlib_def)

lemma demo_compress_full:
  assumes "input \<noteq> []" and "vec_data v = []" and "length (demo_chunk input) \<le> spare v"
  shows "compress_full demo_zlib (taken, written, []) v input =
    Ret ((taken @ input, written @ demo_chunk input, []), v\<lparr>vec_data := demo_chunk input\<rparr>)"
proof -
  have room: "0 < spare v" "5 \<le> spare v"
    using assms(1,3) by (cases input; simp add: demo_chunk_def TRAILER_def)+
  have "compress_input demo_zlib input (length taken) (taken, written, []) v =
      Some (Ret ((taken @ input, written, demo_chunk input), v))"
    using assms(1) room by (subst compress_input.simps, subst compress_input.simps)
      (simp add: compress_vec_def demo_zlib_def)
  moreover have "flush_output demo_zlib (taken @ input, written, demo_chunk input) v =
      Some (Ret ((taken @ input, written @ demo_chunk input, []), v\<lparr>vec_data := demo_chunk input\<rparr>))"
    using assms(2,3) room(2)
    by (subst flush_output.simps, subst flush_output.simps)
      (simp add: compress_vec_def demo_zlib_def reserve_def ends_with_def demo_chunk_def TRAILER_def)
  ultimately show ?thesis by (simp add: compress_full_def returned_def demo_zlib_def)
qed

section \<open>Properties\<close>

text \<open>C12: the queue reaches the client in order and whole. Whatever the socket does and whenever the
  compression is decided, what is on the wire is HELLO and the queued messages in their order, each once:
  a first part as they are and the rest as binary frames, nothing left out. It is all of them as long as
  the task runs, and then the binary frames, put together with what a flush would still write, inflate
  to exactly the payloads they stand for; closing the queue then ends the task with nothing lost. A
  client that asked for \<open>zlib-stream\<close> gets binary frames only. Without any request for compression every message is sent as
  it is.\<close>

theorem writer_keeps_order:
  assumes "sink_from_queue Z use_zlib answer evs = Ret (flow, w)"
    and "lossless Z valid owed written consumed inflate"
  shows "\<exists>plain binaries.
    wr_wire w = map frame_of (take plain (WsText HELLO # messages evs)) @ map BinaryFrame binaries \<and>
    plain + length binaries \<le> length (WsText HELLO # messages evs) \<and>
    (flow = Writing \<longrightarrow>
       plain + length binaries = length (WsText HELLO # messages evs) \<and>
       (case wr_zlib w of
          None \<Rightarrow> binaries = []
        | Some zs \<Rightarrow> inflate (concat binaries @ owed (zs_compress zs)) =
            concat (map into_payload (drop plain (WsText HELLO # messages evs)))) \<and>
       sink_from_queue Z use_zlib answer (evs @ QueueClosed # rest) = Ret (Ended, w)) \<and>
    (use_zlib \<longrightarrow> plain = 0) \<and>
    (\<not> use_zlib \<and> Decided (Some (Some True)) \<notin> set evs \<longrightarrow> binaries = [])"
proof -
  obtain n bs where *: "wr_wire w = map frame_of (take n (WsText HELLO # messages evs)) @ map BinaryFrame bs"
    "n + length bs \<le> length (WsText HELLO # messages evs)" "use_zlib \<Longrightarrow> n = 0"
    "\<not> use_zlib \<Longrightarrow> Decided (Some (Some True)) \<notin> set evs \<Longrightarrow> bs = []"
    "flow = Writing \<Longrightarrow> n + length bs = length (WsText HELLO # messages evs)"
    "flow = Writing \<Longrightarrow> carries valid written consumed w bs (map into_payload (drop n (WsText HELLO # messages evs)))"
    using sink_sends [OF assms(1) refl, where V = valid and U = owed and W = written and C = consumed and I = inflate]
      assms(2) by blast
  have "case wr_zlib w of None \<Rightarrow> bs = [] | Some zs \<Rightarrow> inflate (concat bs @ owed (zs_compress zs)) =
      concat (map into_payload (drop n (WsText HELLO # messages evs)))" if "flow = Writing"
    using *(6) [OF that] carries_inflates [OF assms(2)] by blast
  moreover have "sink_from_queue Z use_zlib answer (evs @ QueueClosed # rest) = Ret (Ended, w)" if "flow = Writing"
    using assms(1) that by (intro sink_closed) simp
  ultimately show ?thesis using *(1-5) by (intro exI [of _ n] exI [of _ bs]) blast
qed

theorem writer_keeps_order_witness:
  "\<exists>w. sink_from_queue demo_zlib False (Taken 0)
       [Queued (Taken 1) (WsText ''a''), Decided (Some (Some True)), Queued (Taken 2) (WsText ''b'')] = Ret (Writing, w) \<and>
     wr_wire w = [TextFrame HELLO, TextFrame ''a'', BinaryFrame (demo_chunk ''b'')] \<and>
     (\<exists>plain binaries.
        wr_wire w = map frame_of (take plain [WsText HELLO, WsText ''a'', WsText ''b'']) @ map BinaryFrame binaries \<and>
        demo_inflate (concat binaries) = concat (map into_payload (drop plain [WsText HELLO, WsText ''a'', WsText ''b''])))"
proof -
  let ?evs = "[Queued (Taken 1) (WsText ''a''), Decided (Some (Some True)), Queued (Taken 2) (WsText ''b'')]"
  have "compress_full demo_zlib ([], [], []) \<lparr>vec_data = [], vec_cap = 32768\<rparr> ''b'' =
      Ret ((''b'', demo_chunk ''b'', []), \<lparr>vec_data = demo_chunk ''b'', vec_cap = 32768\<rparr>)"
    using demo_compress_full [of "''b''" "\<lparr>vec_data = [], vec_cap = 32768\<rparr>" "[]" "[]"]
    by (simp add: spare_def demo_chunk_def TRAILER_def)
  then have "sink_from_queue demo_zlib False (Taken 0) ?evs = Ret (Writing,
      \<lparr>wr_use_zlib = True, wr_zlib = Some \<lparr>zs_compress = (''b'', demo_chunk ''b'', []),
         zs_buffer = \<lparr>vec_data = demo_chunk ''b'', vec_cap = 32768\<rparr>\<rparr>, wr_pending = False,
       wr_wire = [TextFrame HELLO, TextFrame ''a'', BinaryFrame (demo_chunk ''b'')]\<rparr>)" (is "_ = Ret (_, ?w)")
    by (simp add: sink_from_queue_def write_message_def send_in_time_def SINK_SEND_TIMEOUT_def secs_def
        compress_and_send_def new_zlib_state_def frame_of_def into_payload_def
        demo_zlib_new)
  note run = this
  from writer_keeps_order [OF run demo_zlib_lossless, where rest = "[]"] obtain plain binaries where
    "wr_wire ?w = map frame_of (take plain (WsText HELLO # messages ?evs)) @ map BinaryFrame binaries"
    "demo_inflate (concat binaries) = concat (map into_payload (drop plain (WsText HELLO # messages ?evs)))"
    by (auto simp: demo_owed_def)
  then have "\<exists>plain binaries.
        wr_wire ?w = map frame_of (take plain [WsText HELLO, WsText ''a'', WsText ''b'']) @ map BinaryFrame binaries \<and>
        demo_inflate (concat binaries) = concat (map into_payload (drop plain [WsText HELLO, WsText ''a'', WsText ''b'']))"
    unfolding messages_simps by blast
  moreover have "wr_wire ?w = [TextFrame HELLO, TextFrame ''a'', BinaryFrame (demo_chunk ''b'')]" by simp
  ultimately show ?thesis using run by blast
qed



text \<open>A client that compresses its transport never gets a close code. With \<open>compress=zlib-stream\<close> the
  writer turns every queued message into a binary frame, the close messages included: whatever was
  queued, no close frame is ever written, so 4003, 4007 and 4009 never arrive.\<close>

theorem zlib_swallows_close:
  assumes "sink_from_queue Z True answer evs = Ret (flow, w)"
  shows "CloseFrame code reason \<notin> set (wr_wire w) \<and>
    (\<forall>f\<in>set (wr_wire w). \<exists>b. f = BinaryFrame b)"
  by (rule sink_sends [OF assms refl]) auto

theorem zlib_swallows_close_witness:
  "\<exists>flow w. sink_from_queue demo_zlib True (Taken 0)
       [Queued (Taken 1) (WsText INVALID_SESSION), Queued (Taken 2) (WsClose 4007 ''session rejected'')] = Ret (flow, w) \<and>
     CloseFrame 4007 ''session rejected'' \<notin> set (wr_wire w)"
proof -
  let ?evs = "[Queued (Taken 1) (WsText INVALID_SESSION), Queued (Taken 2) (WsClose 4007 ''session rejected'')]"
  have "\<forall>m\<in>set (messages ?evs). into_payload m \<noteq> []" by (simp add: into_payload_def INVALID_SESSION_def)
  then obtain flow w where "sink_from_queue demo_zlib True (Taken 0) ?evs = Ret (flow, w)"
    using sink_returns [OF demo_zlib_ok] by blast
  from zlib_swallows_close [OF this] this show ?thesis by blast
qed

end
