(* ===== verification/Close_Delivery.thy ===== *)
theory Close_Delivery
  imports Writer_Safety Client_Facts Demo
begin

text \<open>
  The end of a connection seen from the client: \<open>handle_client\<close> queues a close message, its teardown lets
  the writing task flush, and the writing task puts the close frame on the wire or, when the client
  compresses, something else.
\<close>

section \<open>The writing task, up to a point of the queue\<close>



section \<open>What the connection queues last\<close>









section \<open>Property\<close>



end
