(* ===== verification/Http_Server.thy ===== *)
theory Http_Server
  imports Rest_Proxy
begin

text \<open>
  The HTTP side of the server: \<open>handler\<close> of \<open>src/server.rs\<close> decides what a request is for, and
  \<open>server\<close> of \<open>src/upgrade.rs\<close> answers the WebSocket handshake. hyper, ring and base64 are not part
  of the repository; the listener and its connections are input and output.
\<close>

section \<open>The handshake\<close>

text \<open>The SHA-1 digest, its base64 text, and whether \<open>HeaderValue::from_str\<close> takes a text.\<close>

record http_lib =
  hl_sha1 :: "string \<Rightarrow> string"
  hl_base64 :: "string \<Rightarrow> string"
  hl_header_ok :: "string \<Rightarrow> bool"

text \<open>
  What a request leads to: the response, the requests sent to Discord and, if the connection is
  handed to \<open>handle_client\<close>, its \<open>use_zlib\<close>.
\<close>

record http_reply =
  hp_response :: rest_response
  hp_sent :: "upstream_request list"
  hp_client :: "bool option"

definition GUID :: string where "GUID = ''258EAFA5-E914-47DA-95CA-C5AB0DC85B11''"

definition contains_text :: "string \<Rightarrow> string \<Rightarrow> bool" where
  "contains_text s p \<longleftrightarrow> find_str s p \<noteq> None"

definition empty_response :: "u16 \<Rightarrow> rest_response" where
  "empty_response status = \<lparr>rs_status = status, rs_headers = [], rs_body = []\<rparr>"

definition accept_key :: "http_lib \<Rightarrow> string \<Rightarrow> string" where
  "accept_key L websocket_key = hl_base64 L (hl_sha1 L (websocket_key @ GUID))"

definition upgrade_server :: "http_lib \<Rightarrow> rest_lib \<Rightarrow> rest_request \<Rightarrow> http_reply outcome" where
  "upgrade_server L H request =
     (let use_zlib = (case rq_query request of
             None \<Rightarrow> False | Some q \<Rightarrow> contains_text q ''compress=zlib-stream'');
          reply = (\<lambda>response client. \<lparr>hp_response = response, hp_sent = [], hp_client = client\<rparr>)
      in if Option.bind (map_of (rq_headers request) ''upgrade'') (rl_to_str H) \<noteq> Some ''websocket''
         then Ret (reply (empty_response 400) None)
         else
           (case map_of (rq_headers request) ''sec-websocket-key'' of
              Some websocket_key \<Rightarrow>
                let key = accept_key L websocket_key in
                if \<not> hl_header_ok L key then Panic
                else Ret (reply
                  ((empty_response 101)\<lparr>rs_headers :=
                     [(''connection'', ''Upgrade''), (''upgrade'', ''websocket''),
                      (''sec-websocket-accept'', key), (''sec-websocket-version'', ''13'')]\<rparr>)
                  (Some use_zlib))
            | None \<Rightarrow> Ret (reply (empty_response 400) None)))"

section \<open>The handler\<close>

definition LANDING_HTML :: string where
  "LANDING_HTML =
     (let nl = [CHR 0x0A] in
     ''<!DOCTYPE html>'' @ nl @
     ''<html lang=\"en\">'' @ nl @
     ''<head>'' @ nl @
     ''<meta charset=\"utf-8\">'' @ nl @
     ''<meta name=\"viewport\" content=\"width=device-width, initial-scale=1\">'' @ nl @
     ''<title>Kimaki Gateway</title>'' @ nl @
     ''<style>'' @ nl @
     ''  * { margin: 0; padding: 0; box-sizing: border-box; }'' @ nl @
     ''  body {'' @ nl @
     ''    font-family: -apple-system, BlinkMacSystemFont, \"Segoe UI\", Roboto, Helvetica, Arial, sans-serif;'' @ nl @
     ''    min-height: 100vh;'' @ nl @
     ''    display: flex;'' @ nl @
     ''    align-items: center;'' @ nl @
     ''    justify-content: center;'' @ nl @
     ''    background: #0a0a0a;'' @ nl @
     ''    color: #e5e5e5;'' @ nl @
     ''  }'' @ nl @
     ''  .container {'' @ nl @
     ''    text-align: center;'' @ nl @
     ''    padding: 2rem;'' @ nl @
     ''  }'' @ nl @
     ''  h1 {'' @ nl @
     ''    font-size: 1.5rem;'' @ nl @
     ''    font-weight: 600;'' @ nl @
     ''    margin-bottom: 0.5rem;'' @ nl @
     ''  }'' @ nl @
     ''  p {'' @ nl @
     ''    font-size: 0.95rem;'' @ nl @
     ''    color: #888;'' @ nl @
     ''  }'' @ nl @
     ''  a {'' @ nl @
     ''    color: #e5e5e5;'' @ nl @
     ''    text-decoration: underline;'' @ nl @
     ''    text-underline-offset: 3px;'' @ nl @
     ''  }'' @ nl @
     ''  a:hover { color: #fff; }'' @ nl @
     ''</style>'' @ nl @
     ''</head>'' @ nl @
     ''<body>'' @ nl @
     ''<div class=\"container\">'' @ nl @
     ''  <h1>Discord Gateway Proxy</h1>'' @ nl @
     ''  <p><a href=\"https://kimaki.dev\">kimaki.dev</a></p>'' @ nl @
     ''</div>'' @ nl @
     ''</body>'' @ nl @
     ''</html>'')"

definition plain_reply :: "rest_response \<Rightarrow> http_reply" where
  "plain_reply response = \<lparr>hp_response = response, hp_sent = [], hp_client = None\<rparr>"

definition http_handler ::
  "http_lib \<Rightarrow> rest_lib \<Rightarrow> json_lib \<Rightarrow> config \<Rightarrow> registry \<Rightarrow> string \<Rightarrow> inner \<Rightarrow> inner \<Rightarrow> rest_request \<Rightarrow>
     http_reply outcome" where
  "http_handler L H J cfg r metrics st st' request =
     (if starts_with (rq_path request) ''/api/v10/'' \<or> starts_with (rq_path request) ''/v10/''
      then
        (case handle_rest_request H J cfg r st st' request of
           (response, sent) \<Rightarrow> Ret \<lparr>hp_response = response, hp_sent = sent, hp_client = None\<rparr>)
      else if rq_method request = ''GET'' \<and> rq_path request = ''/metrics''
      then Ret (plain_reply ((empty_response 200)\<lparr>rs_body := metrics\<rparr>))
      else if rq_method request = ''GET'' \<and> rq_path request = ''/shard-count''
      then Ret (plain_reply ((empty_response 200)\<lparr>rs_body := format_uint (shard_count st)\<rparr>))
      else if rq_method request = ''GET'' \<and> rq_path request = ''/''
      then
        (if map_of (rq_headers request) ''upgrade'' \<noteq> None then upgrade_server L H request
         else Ret (plain_reply
           \<lparr>rs_status = 200, rs_headers = [(''content-type'', ''text/html; charset=utf-8'')],
            rs_body = LANDING_HTML\<rparr>))
      else upgrade_server L H request)"

section \<open>Lemmas\<close>

text \<open>A request that is answered as a WebSocket handshake, with the key and the compression it asks for.\<close>

definition handshake :: "rest_lib \<Rightarrow> rest_request \<Rightarrow> (string \<times> bool) option" where
  "handshake H request =
     (if Option.bind (map_of (rq_headers request) ''upgrade'') (rl_to_str H) = Some ''websocket''
      then map_option (\<lambda>key. (key, case rq_query request of
          None \<Rightarrow> False | Some q \<Rightarrow> contains_text q ''compress=zlib-stream''))
        (map_of (rq_headers request) ''sec-websocket-key'')
      else None)"

lemma upgrade_server_result:
  assumes "\<And>s. hl_header_ok L (hl_base64 L s)"
  shows "upgrade_server L H request = Ret
    (case handshake H request of
       None \<Rightarrow> plain_reply (empty_response 400)
     | Some (key, use_zlib) \<Rightarrow>
         \<lparr>hp_response = (empty_response 101)\<lparr>rs_headers :=
            [(''connection'', ''Upgrade''), (''upgrade'', ''websocket''),
             (''sec-websocket-accept'', hl_base64 L (hl_sha1 L (key @ GUID))), (''sec-websocket-version'', ''13'')]\<rparr>,
          hp_sent = [], hp_client = Some use_zlib\<rparr>)"
  using assms
  by (auto simp: upgrade_server_def handshake_def accept_key_def plain_reply_def Let_def split: option.split)

end
