(* ===== verification/Http_Safety.thy ===== *)
theory Http_Safety
  imports Http_Server Demo
begin

text \<open>The property of the HTTP side: which request reaches which part of the proxy.\<close>






end
