(* ===== verification/Db_Poll.thy ===== *)
theory Db_Poll
  imports Db_Sync
begin

text \<open>
  \<open>start_polling\<close> of \<open>src/db_config.rs\<close>: the realtime loop of \<open>Db_Sync\<close>, the polling loop it falls back
  to when it fails, the pause before the next attempt, and the gate that holds back serving until a
  first load. Connecting and querying are input and output: each may fail at any time.
\<close>

section \<open>The listener\<close>

text \<open>
  What the dedicated connection of the realtime loop delivers, and what its task puts into the channel:
  the trimmed payloads of its own channel, and an error (\<^term>\<open>None\<close>) after which the task is over.
\<close>

datatype async_message = Notification string string | Notice | Other_Message | Poll_Error | Connection_Closed

definition LISTEN_CHANNEL :: string where "LISTEN_CHANNEL = ''gateway_clients_changed''"

fun listener_events :: "async_message list \<Rightarrow> string option list" where
  "listener_events [] = []"
| "listener_events (Notification channel payload # ms) =
     (if channel \<noteq> LISTEN_CHANNEL then listener_events ms else Some (trim payload) # listener_events ms)"
| "listener_events (Notice # ms) = listener_events ms"
| "listener_events (Other_Message # ms) = listener_events ms"
| "listener_events (Poll_Error # ms) = [None]"
| "listener_events (Connection_Closed # ms) = [None]"

lemma enqueue_listener:
  "sy_queue (enqueue_notification payload sy) =
     sy_queue sy @ List.map_filter id (listener_events [Notification LISTEN_CHANNEL payload])"
  by (simp add: enqueue_notification_def List.map_filter_simps)

text \<open>The error comes last.\<close>

lemma listener_error_last: "None \<notin> set (butlast (listener_events ms))"
  by (induction ms rule: listener_events.induct) auto

section \<open>State\<close>

text \<open>
  \<open>Connecting\<close> and \<open>Poll_Connecting\<close> are the start of the two loops. \<open>po_sender\<close> is whether the sender
  of the gate is still there, \<open>po_opened\<close> how often the gate was opened.
\<close>

datatype poll_phase = Connecting | Realtime | Poll_Connecting | Polling | Pausing

record polling =
  po_phase :: poll_phase
  po_sender :: bool
  po_opened :: nat
  po_sync :: sync

definition signal_initial_sync_ready :: "polling \<Rightarrow> polling" where
  "signal_initial_sync_ready p =
     (if \<not> po_sender p then p else p\<lparr>po_sender := False, po_opened := po_opened p + 1\<rparr>)"

text \<open>
  The start of the realtime loop. The \<open>LISTEN\<close> comes before the snapshot, so the queue may already
  hold announcements of writes the snapshot contains.
\<close>

definition start_realtime :: "string list \<Rightarrow> polling \<Rightarrow> polling" where
  "start_realtime queue p =
     signal_initial_sync_ready
       (p\<lparr>po_phase := Realtime,
          po_sync := (initial_sync (sy_rows (po_sync p)) (sy_registry (po_sync p)))\<lparr>sy_queue := queue\<rparr>\<rparr>)"

text \<open>One round of \<open>run_poll_loop\<close>, with the rows its query read; a poisoned lock keeps the registry.\<close>

definition poll_round :: "snapshot_row list \<Rightarrow> polling \<Rightarrow> polling" where
  "poll_round rows p =
     (let r = mark_sync_success (sy_registry (po_sync p));
          r' = r\<lparr>rg_clients := map_option (\<lambda>_. group_rows_into_clients rows) (rg_clients r)\<rparr>
      in signal_initial_sync_ready (p\<lparr>po_sync := (po_sync p)\<lparr>sy_registry := r'\<rparr>\<rparr>))"

definition start_polling :: "snapshot_row list \<Rightarrow> registry \<Rightarrow> polling" where
  "start_polling rows r =
     \<lparr>po_phase = Connecting, po_sender = True, po_opened = 0,
      po_sync = \<lparr>sy_rows = rows, sy_queue = [], sy_dirty = {}, sy_should_full_reconcile = False,
        sy_query = None, sy_registry = r\<rparr>\<rparr>"

section \<open>Steps\<close>

datatype poll_label = Sync_Step sync_label | Unheard_Write | Start_Realtime | Poll_Connected | Poll_Round | Fail

text \<open>
  While nothing listens a write changes the rows only. An error of the realtime loop leads to polling,
  an error of the polling loop to a pause and then to the realtime loop again.
\<close>

inductive poll_step :: "poll_label \<Rightarrow> polling \<Rightarrow> polling \<Rightarrow> bool" where
  realtime_step: "po_phase p = Realtime \<Longrightarrow> sync_step l (po_sync p) sy' \<Longrightarrow>
    poll_step (Sync_Step l) p (p\<lparr>po_sync := sy'\<rparr>)"
| unheard_write: "po_phase p \<noteq> Realtime \<Longrightarrow>
    poll_step Unheard_Write p (p\<lparr>po_sync := (po_sync p)\<lparr>sy_rows := rows\<rparr>\<rparr>)"
| start_realtime: "po_phase p = Connecting \<Longrightarrow> poll_step Start_Realtime p (start_realtime queue p)"
| poll_connected: "po_phase p = Poll_Connecting \<Longrightarrow> poll_step Poll_Connected p (p\<lparr>po_phase := Polling\<rparr>)"
| poll_round: "po_phase p = Polling \<Longrightarrow>
    poll_step Poll_Round p (poll_round (sy_rows (po_sync p)) p)"
| fail_realtime: "po_phase p \<in> {Connecting, Realtime} \<Longrightarrow>
    poll_step Fail p (p\<lparr>po_phase := Poll_Connecting\<rparr>)"
| fail_polling: "po_phase p \<in> {Poll_Connecting, Polling} \<Longrightarrow> poll_step Fail p (p\<lparr>po_phase := Pausing\<rparr>)"
| pause_over: "po_phase p = Pausing \<Longrightarrow> poll_step Fail p (p\<lparr>po_phase := Connecting\<rparr>)"

section \<open>Lemmas\<close>

lemma signal_simps [simp]:
  "po_phase (signal_initial_sync_ready p) = po_phase p"
  "po_sync (signal_initial_sync_ready p) = po_sync p"
  "po_sender (signal_initial_sync_ready p) \<longleftrightarrow> False"
  "po_opened (signal_initial_sync_ready p) = (if po_sender p then po_opened p + 1 else po_opened p)"
  by (simp_all add: signal_initial_sync_ready_def)

text \<open>The sender is used up exactly once; while the realtime loop runs its invariant holds.\<close>

definition poll_inv :: "polling \<Rightarrow> bool" where
  "poll_inv p \<longleftrightarrow> po_opened p = (if po_sender p then 0 else 1) \<and>
     (po_phase p = Realtime \<longrightarrow> sync_inv (po_sync p) \<and> \<not> po_sender p)"

lemma initial_sync_queue: "sync_inv ((initial_sync rows r)\<lparr>sy_queue := queue\<rparr>)"
  by (auto simp: sync_inv_def initial_sync_def db_entry_def group_rows_get split: option.splits)

lemma poll_step_inv:
  assumes "poll_step l p p'" and "poll_inv p" and "\<nexists>a b. l = Sync_Step (Db_Move a b)"
  shows "poll_inv p'"
  using assms(1)
proof (cases rule: poll_step.cases)
  case (realtime_step sl sy')
  with assms(2,3) show ?thesis by (auto simp: poll_inv_def dest!: sync_step_inv)
next
  case (start_realtime queue)
  with assms(2) show ?thesis by (auto simp: poll_inv_def start_realtime_def initial_sync_queue)
next
  case poll_round
  with assms(2) show ?thesis by (auto simp: poll_inv_def poll_round_def Let_def)
qed (use assms(2) in \<open>auto simp: poll_inv_def\<close>)

interpretation polls: invariant_system poll_step "\<lambda>l. \<nexists>a b. l = Sync_Step (Db_Move a b)" poll_inv
  by unfold_locales (rule poll_step_inv)

lemma poll_trace_inv:
  assumes "trace poll_step ls p p'" and "poll_inv p" and "\<forall>a b. Sync_Step (Db_Move a b) \<notin> set ls"
  shows "poll_inv p'"
  by (rule polls.trace_inv [OF assms(1) _ assms(2)]) (use assms(3) in blast)

lemma start_polling_inv: "poll_inv (start_polling rows r)"
  by (simp add: poll_inv_def start_polling_def)

text \<open>A step that opens the gate loads the registry.\<close>

lemma poll_step_opens:
  assumes "poll_step l p p'" and "po_opened p' \<noteq> po_opened p"
  shows "rg_clients (sy_registry (po_sync p')) =
    map_option (\<lambda>_. group_rows_into_clients (sy_rows (po_sync p'))) (rg_clients (sy_registry (po_sync p)))"
  using assms
  by (cases rule: poll_step.cases)
    (auto simp: start_realtime_def poll_round_def Let_def initial_sync_def)

end
