(* ===== verification/Db_Setup.thy ===== *)
theory Db_Setup
  imports Db_Poll
begin

text \<open>
  The beginning of \<open>run_realtime_loop\<close> of \<open>src/db_config.rs\<close>, await by await, with writers of the
  database in between: the connections, the installation of the trigger, the \<open>LISTEN\<close>, the first
  snapshot and its use. It refines \<open>start_realtime\<close>, which takes all this as one step.
\<close>

section \<open>State\<close>

text \<open>How far the function has come, named by the last await that succeeded.\<close>

datatype setup_stage =
    Started | Query_Connected | Function_Created | Trigger_Created | Listener_Connected | Listening
  | Snapshot_Read "snapshot_row list" | Loaded | Broken

text \<open>
  \<open>su_trigger\<close> is whether the database has the trigger, possibly from an earlier run, \<open>su_listening\<close>
  whether the \<open>LISTEN\<close> is in effect, and \<open>su_queue\<close> what the listener connection has been told.
\<close>

record setup_state =
  su_stage :: setup_stage
  su_trigger :: bool
  su_listening :: bool
  su_rows :: "snapshot_row list"
  su_queue :: "string list"
  su_registry :: registry

definition new_setup :: "bool \<Rightarrow> snapshot_row list \<Rightarrow> registry \<Rightarrow> setup_state" where
  "new_setup installed rows r =
     \<lparr>su_stage = Started, su_trigger = installed, su_listening = False, su_rows = rows,
      su_queue = [], su_registry = r\<rparr>"

section \<open>Steps\<close>

text \<open>\<open>DROP TRIGGER\<close> and \<open>CREATE TRIGGER\<close> are one batch, so other sessions see them as one change.\<close>

definition install_database_objects :: "setup_state \<Rightarrow> setup_state" where
  "install_database_objects su =
     (if su_stage su = Query_Connected then su\<lparr>su_stage := Function_Created\<rparr>
      else su\<lparr>su_stage := Trigger_Created, su_trigger := True\<rparr>)"

text \<open>What is done with the first snapshot; a poisoned lock keeps the registry.\<close>

definition load_initial :: "snapshot_row list \<Rightarrow> setup_state \<Rightarrow> setup_state" where
  "load_initial initial_clients su =
     (let r = mark_sync_success (su_registry su)
      in su\<lparr>su_stage := Loaded, su_registry :=
           r\<lparr>rg_clients := map_option (\<lambda>_. group_rows_into_clients initial_clients) (rg_clients r)\<rparr>\<rparr>)"

definition setup_next :: "setup_state \<Rightarrow> setup_state" where
  "setup_next su =
     (case su_stage su of
        Started \<Rightarrow> su\<lparr>su_stage := Query_Connected\<rparr>
      | Query_Connected \<Rightarrow> install_database_objects su
      | Function_Created \<Rightarrow> install_database_objects su
      | Trigger_Created \<Rightarrow> su\<lparr>su_stage := Listener_Connected\<rparr>
      | Listener_Connected \<Rightarrow> su\<lparr>su_stage := Listening, su_listening := True\<rparr>
      | Listening \<Rightarrow> su\<lparr>su_stage := Snapshot_Read (su_rows su)\<rparr>
      | Snapshot_Read initial_clients \<Rightarrow> load_initial initial_clients su
      | Loaded \<Rightarrow> su
      | Broken \<Rightarrow> su)"

text \<open>A write; its notification reaches the listener if the trigger is there and the \<open>LISTEN\<close> is in effect.\<close>

definition setup_write :: "string \<Rightarrow> string \<Rightarrow> string \<Rightarrow> snapshot_row list \<Rightarrow> setup_state \<Rightarrow> setup_state" where
  "setup_write tg_op client_id guild rows su =
     (if su_trigger su \<and> su_listening su
      then su\<lparr>su_rows := rows, su_queue := su_queue su @ [trim (trigger_payload tg_op client_id guild)]\<rparr>
      else su\<lparr>su_rows := rows\<rparr>)"

text \<open>Every await can fail; there is none between the snapshot and its use.\<close>

definition fallible :: "setup_stage \<Rightarrow> bool" where
  "fallible stage \<longleftrightarrow> (case stage of Snapshot_Read _ \<Rightarrow> False | Loaded \<Rightarrow> False | Broken \<Rightarrow> False | _ \<Rightarrow> True)"

datatype setup_label = Setup_Write string | Await | Setup_Error

inductive setup_step :: "setup_label \<Rightarrow> setup_state \<Rightarrow> setup_state \<Rightarrow> bool" where
  setup_write: "plain_change tg_op c g \<Longrightarrow> \<forall>c'. c' \<noteq> c \<longrightarrow> rows_of c' rows = rows_of c' (su_rows su) \<Longrightarrow>
    setup_step (Setup_Write c) su (setup_write tg_op c g rows su)"
| await: "su_stage su \<noteq> Loaded \<Longrightarrow> su_stage su \<noteq> Broken \<Longrightarrow> setup_step Await su (setup_next su)"
| setup_error: "fallible (su_stage su) \<Longrightarrow>
    setup_step Setup_Error su (su\<lparr>su_stage := Broken\<rparr>)"

section \<open>Refinement\<close>

text \<open>The state of the loop that a finished setup hands over.\<close>

definition setup_sync :: "setup_state \<Rightarrow> sync" where
  "setup_sync su =
     \<lparr>sy_rows = su_rows su, sy_queue = su_queue su, sy_dirty = {}, sy_should_full_reconcile = False,
      sy_query = None, sy_registry = su_registry su\<rparr>"

text \<open>
  While the setup runs, \<open>poll_step\<close> has not started the loop. Once the snapshot is read it still shows the
  rows of the snapshot, and has the writes since then before it.
\<close>

definition setup_rel :: "setup_state \<Rightarrow> polling \<Rightarrow> bool" where
  "setup_rel su p \<longleftrightarrow>
     (su_trigger su \<or> su_stage su \<in> {Started, Query_Connected, Function_Created, Broken}) \<and>
     (su_listening su \<or> su_stage su \<in>
        {Started, Query_Connected, Function_Created, Trigger_Created, Listener_Connected, Broken}) \<and>
     (case su_stage su of
        Loaded \<Rightarrow> po_phase p = Realtime \<and> po_sync p = setup_sync su
      | Snapshot_Read seen \<Rightarrow> po_phase p = Connecting \<and> sy_registry (po_sync p) = su_registry su \<and>
          (\<exists>queue cs. trace sync_step (map Db_Write cs) (po_sync (start_realtime queue p))
             (setup_sync (load_initial seen su)))
      | Broken \<Rightarrow> po_phase p = Poll_Connecting \<and> sy_rows (po_sync p) = su_rows su \<and>
          sy_registry (po_sync p) = su_registry su
      | _ \<Rightarrow> po_phase p = Connecting \<and> sy_rows (po_sync p) = su_rows su \<and> sy_registry (po_sync p) = su_registry su)"

lemma unheard_rows:
  "po_phase p \<noteq> Realtime \<Longrightarrow>
     trace poll_step [Unheard_Write] p (p\<lparr>po_sync := (po_sync p)\<lparr>sy_rows := rows\<rparr>\<rparr>)"
  using unheard_write by simp

lemma sync_trace_poll:
  "trace sync_step ls (po_sync p) sy \<Longrightarrow> po_phase p = Realtime \<Longrightarrow>
     trace poll_step (map Sync_Step ls) p (p\<lparr>po_sync := sy\<rparr>)"
proof (induction ls arbitrary: p)
  case (Cons l ls)
  then obtain sy1 where sy1: "sync_step l (po_sync p) sy1" "trace sync_step ls sy1 sy" by auto
  from Cons.IH [of "p\<lparr>po_sync := sy1\<rparr>"] sy1(2) Cons.prems(2)
  have "trace poll_step (map Sync_Step ls) (p\<lparr>po_sync := sy1\<rparr>) (p\<lparr>po_sync := sy\<rparr>)" by simp
  with realtime_step [OF Cons.prems(2) sy1(1)] show ?case by auto
qed simp

lemma setup_write_sync:
  assumes "plain_change tg_op c g" and "\<forall>c'. c' \<noteq> c \<longrightarrow> rows_of c' rows = rows_of c' (su_rows su)"
    and "su_trigger su" and "su_listening su"
  shows "sync_step (Db_Write c) (setup_sync su) (setup_sync (setup_write tg_op c g rows su))"
proof -
  have "setup_sync (setup_write tg_op c g rows su) = write_rows tg_op c g rows (setup_sync su)"
    using assms(3,4) by (simp add: setup_sync_def setup_write_def write_rows_def enqueue_notification_def)
  with db_write [OF assms(1), of rows "setup_sync su"] assms(2) show ?thesis by (simp add: setup_sync_def)
qed

lemma setup_rel_write:
  assumes "setup_rel su p" and w: "plain_change tg_op c g"
    and same: "\<forall>c'. c' \<noteq> c \<longrightarrow> rows_of c' rows = rows_of c' (su_rows su)"
  shows "\<exists>ms p'. trace poll_step ms p p' \<and> (\<forall>m\<in>set ms. \<nexists>a b. m = Sync_Step (Db_Move a b)) \<and>
    setup_rel (setup_write tg_op c g rows su) p'"
proof -
  let ?su = "setup_write tg_op c g rows su"
  have frame: "su_stage ?su = su_stage su" "su_trigger ?su = su_trigger su"
    "su_listening ?su = su_listening su" "su_registry ?su = su_registry su"
    "su_rows ?su = rows"
    by (simp_all add: setup_write_def)
  consider (loaded) "su_stage su = Loaded" | (read) seen where "su_stage su = Snapshot_Read seen"
    | (early) "po_phase p \<noteq> Realtime" "su_stage su \<noteq> Loaded" "\<nexists>seen. su_stage su = Snapshot_Read seen"
    using assms(1) by (cases "su_stage su") (auto simp: setup_rel_def)
  then show ?thesis
  proof cases
    case loaded
    with assms(1) have p: "po_phase p = Realtime" "po_sync p = setup_sync su" "su_trigger su" "su_listening su"
      by (auto simp: setup_rel_def)
    have "sync_step (Db_Write c) (po_sync p) (setup_sync ?su)"
      using setup_write_sync [OF w same p(3,4)] p(2) by simp
    from realtime_step [OF p(1) this] loaded p show ?thesis
      by (intro exI [of _ "[Sync_Step (Db_Write c)]"] exI [of _ "p\<lparr>po_sync := setup_sync ?su\<rparr>"])
        (simp add: setup_rel_def frame)
  next
    case read
    let ?old = "load_initial seen su"
    from assms(1) read obtain queue cs where p: "po_phase p = Connecting" "su_trigger su" "su_listening su"
      "sy_registry (po_sync p) = su_registry su"
      "trace sync_step (map Db_Write cs) (po_sync (start_realtime queue p)) (setup_sync ?old)"
      by (auto simp: setup_rel_def)
    have "setup_sync (setup_write tg_op c g rows ?old) = setup_sync (load_initial seen ?su)"
      by (simp add: setup_sync_def setup_write_def load_initial_def Let_def)
    moreover have "sync_step (Db_Write c) (setup_sync ?old) (setup_sync (setup_write tg_op c g rows ?old))"
      by (rule setup_write_sync [OF w]) (use same p(2,3) in \<open>simp_all add: load_initial_def Let_def\<close>)
    ultimately have "trace sync_step (map Db_Write (cs @ [c])) (po_sync (start_realtime queue p))
        (setup_sync (load_initial seen ?su))"
      using p(5) by (auto simp: trace_append)
    then have "\<exists>queue cs. trace sync_step (map Db_Write cs) (po_sync (start_realtime queue p))
        (setup_sync (load_initial seen ?su))" by blast
    with p(1-4) read have "setup_rel ?su p" by (simp add: setup_rel_def frame)
    then show ?thesis by (intro exI [of _ "[]"] exI [of _ p]) simp
  next
    case early
    then have "setup_rel ?su (p\<lparr>po_sync := (po_sync p)\<lparr>sy_rows := rows\<rparr>\<rparr>)"
      using assms(1) by (cases "su_stage su") (auto simp: setup_rel_def frame)
    with unheard_rows [OF early(1), of rows] show ?thesis
      by (intro exI [of _ "[Unheard_Write]"] exI [of _ "p\<lparr>po_sync := (po_sync p)\<lparr>sy_rows := rows\<rparr>\<rparr>"]) simp
  qed
qed

lemma setup_rel_await:
  assumes "setup_rel su p" and "su_stage su \<noteq> Loaded" and "su_stage su \<noteq> Broken"
  shows "\<exists>ms p'. trace poll_step ms p p' \<and> (\<forall>m\<in>set ms. \<nexists>a b. m = Sync_Step (Db_Move a b)) \<and>
    setup_rel (setup_next su) p'"
proof (cases "\<exists>seen. su_stage su = Snapshot_Read seen")
  case True
  then obtain seen where read: "su_stage su = Snapshot_Read seen" by blast
  with assms(1) obtain queue cs where p: "po_phase p = Connecting" "su_trigger su" "su_listening su"
    "trace sync_step (map Db_Write cs) (po_sync (start_realtime queue p)) (setup_sync (load_initial seen su))"
    by (auto simp: setup_rel_def)
  let ?p = "(start_realtime queue p)\<lparr>po_sync := setup_sync (load_initial seen su)\<rparr>"
  have phase: "po_phase (start_realtime queue p) = Realtime" by (simp add: start_realtime_def)
  have "trace poll_step (Start_Realtime # map Sync_Step (map Db_Write cs)) p ?p"
    using poll_step.start_realtime [OF p(1)] sync_trace_poll [OF p(4) phase] by auto
  moreover have "setup_rel (setup_next su) ?p"
    using read p(2,3) phase by (simp add: setup_rel_def setup_next_def load_initial_def Let_def)
  ultimately show ?thesis by (intro exI conjI) (assumption, auto)
next
  case False
  have "setup_rel (setup_next su) p"
  proof (cases "su_stage su = Listening")
    case True
    have "trace sync_step (map Db_Write []) (po_sync (start_realtime (su_queue su) p))
        (setup_sync (load_initial (su_rows su) (setup_next su)))"
      using assms(1) True
      by (simp add: setup_rel_def setup_next_def start_realtime_def initial_sync_def setup_sync_def load_initial_def Let_def)
    then have "\<exists>queue cs. trace sync_step (map Db_Write cs) (po_sync (start_realtime queue p))
        (setup_sync (load_initial (su_rows su) (setup_next su)))" by blast
    with assms(1) True show ?thesis by (simp add: setup_rel_def setup_next_def)
  qed (use False assms in \<open>cases "su_stage su"; auto simp: setup_rel_def setup_next_def install_database_objects_def\<close>)
  then show ?thesis by (intro exI [of _ "[]"] exI [of _ p]) simp
qed

interpretation setups: simulation setup_step poll_step "\<lambda>m. \<nexists>a b. m = Sync_Step (Db_Move a b)" setup_rel
proof unfold_locales
  fix l su su' p
  assume "setup_step l su su'" and rel: "setup_rel su p"
  then show "\<exists>ms p'. trace poll_step ms p p' \<and> (\<forall>m\<in>set ms. \<nexists>a b. m = Sync_Step (Db_Move a b)) \<and> setup_rel su' p'"
  proof cases
    case setup_error
    then have "setup_rel su' (p\<lparr>po_phase := Poll_Connecting\<rparr>)" "po_phase p \<in> {Connecting, Realtime}"
      using rel by (cases "su_stage su"; simp add: setup_rel_def fallible_def)+
    with fail_realtime [of p] show ?thesis by (intro exI [of _ "[Fail]"]) auto
  next
    case setup_write
    with setup_rel_write [OF rel] show ?thesis by blast
  next
    case await
    with setup_rel_await [OF rel] show ?thesis by blast
  qed
qed

lemma new_setup_rel:
  "po_phase p = Connecting \<Longrightarrow> setup_rel (new_setup installed (sy_rows (po_sync p)) (sy_registry (po_sync p))) p"
  by (simp add: setup_rel_def new_setup_def)

text \<open>Only a finished setup touches the registry.\<close>

lemma setup_registry:
  "trace setup_step ls su su' \<Longrightarrow> su_stage su \<noteq> Loaded \<Longrightarrow> su_stage su' \<noteq> Loaded \<Longrightarrow> su_registry su' = su_registry su"
proof (induction ls arbitrary: su)
  case (Cons l ls)
  then obtain m where m: "setup_step l su m" "trace setup_step ls m su'" by auto
  have "su_stage m \<noteq> Loaded \<Longrightarrow> su_registry m = su_registry su"
    using m(1) Cons.prems(2)
    by (cases rule: setup_step.cases)
      (auto simp: setup_write_def setup_next_def install_database_objects_def load_initial_def Let_def
        split: setup_stage.splits)
  moreover have "su_stage m = Loaded \<Longrightarrow> su_stage su' = Loaded"
    using m(2)
  proof (induction ls arbitrary: m)
    case (Cons l ls)
    then obtain m1 where "setup_step l m m1" "trace setup_step ls m1 su'" by auto
    moreover from this(1) Cons.prems(1) have "su_stage m1 = Loaded"
      by (cases rule: setup_step.cases) (auto simp: setup_write_def fallible_def)
    ultimately show ?case using Cons.IH by blast
  qed simp
  ultimately show ?case using Cons.IH [OF m(2)] Cons.prems(3) by metis
qed simp

section \<open>A round of the polling loop\<close>

text \<open>
  The query of a round and the use of its answer, with writes in between; the first component is the
  answer of the running query. It refines the atomic round.
\<close>

datatype round_label = Round_Write | Round_Query | Round_Store | Round_Error

inductive round_step ::
  "round_label \<Rightarrow> snapshot_row list option \<times> polling \<Rightarrow> snapshot_row list option \<times> polling \<Rightarrow> bool" where
  round_write: "po_phase p = Polling \<Longrightarrow>
    round_step Round_Write (q, p) (q, p\<lparr>po_sync := (po_sync p)\<lparr>sy_rows := rows\<rparr>\<rparr>)"
| round_query: "po_phase p = Polling \<Longrightarrow> round_step Round_Query (None, p) (Some (sy_rows (po_sync p)), p)"
| round_store: "po_phase p = Polling \<Longrightarrow> round_step Round_Store (Some rows, p) (None, poll_round rows p)"
| round_error: "po_phase p = Polling \<Longrightarrow>
    round_step Round_Error (None, p) (None, p\<lparr>po_phase := Pausing\<rparr>)"

definition with_rows :: "snapshot_row list \<Rightarrow> polling \<Rightarrow> polling" where
  "with_rows rows p = p\<lparr>po_sync := (po_sync p)\<lparr>sy_rows := rows\<rparr>\<rparr>"

definition round_rel :: "snapshot_row list option \<times> polling \<Rightarrow> polling \<Rightarrow> bool" where
  "round_rel c p \<longleftrightarrow>
     (case fst c of
        None \<Rightarrow> snd c = p
      | Some seen \<Rightarrow> po_phase p = Polling \<and> seen = sy_rows (po_sync p) \<and> (\<exists>rows. snd c = with_rows rows p))"

lemma poll_round_with_rows: "poll_round seen (with_rows rows p) = with_rows rows (poll_round seen p)"
  by (simp add: poll_round_def with_rows_def signal_initial_sync_ready_def Let_def)

lemma with_rows_step: "po_phase p \<noteq> Realtime \<Longrightarrow> poll_step Unheard_Write p (with_rows rows p)"
  unfolding with_rows_def by (rule unheard_write)

lemma round_simulated:
  assumes "round_step l c c'" and "round_rel c p"
  shows "\<exists>ms p'. trace poll_step ms p p' \<and> (\<forall>m\<in>set ms. \<nexists>a b. m = Sync_Step (Db_Move a b)) \<and> round_rel c' p'"
  using assms(1)
proof cases
  case (round_write p0 q rows)
  show ?thesis
  proof (cases q)
    case None
    with round_write assms(2) with_rows_step [of p rows] show ?thesis
      by (intro exI [of _ "[Unheard_Write]"] exI [of _ "with_rows rows p"]) (auto simp: round_rel_def with_rows_def)
  next
    case (Some seen)
    with round_write assms(2) show ?thesis
      by (intro exI [of _ "[]"] exI [of _ p]) (auto simp: round_rel_def with_rows_def)
  qed
next
  case (round_query p0)
  with assms(2) show ?thesis
    by (intro exI [of _ "[]"] exI [of _ p]) (auto simp: round_rel_def with_rows_def intro!: exI [of _ "sy_rows (po_sync p)"])
next
  case (round_store p0 seen)
  with assms(2) obtain rows where p: "po_phase p = Polling" "seen = sy_rows (po_sync p)" "p0 = with_rows rows p"
    by (auto simp: round_rel_def)
  have "poll_step Poll_Round p (poll_round seen p)" using poll_step.poll_round [OF p(1)] p(2) by simp
  moreover have "po_phase (poll_round seen p) = Polling" by (simp add: poll_round_def Let_def p(1))
  ultimately have "trace poll_step [Poll_Round, Unheard_Write] p (poll_round seen p0)"
    using with_rows_step [of "poll_round seen p" rows] by (auto simp: p(3) poll_round_with_rows)
  with round_store show ?thesis by (intro exI [of _ "[Poll_Round, Unheard_Write]"]) (auto simp: round_rel_def)
next
  case (round_error p0)
  with assms(2) fail_polling [of p] show ?thesis
    by (intro exI [of _ "[Fail]"]) (auto simp: round_rel_def)
qed

interpretation rounds: simulation round_step poll_step "\<lambda>m. \<nexists>a b. m = Sync_Step (Db_Move a b)" round_rel
  by unfold_locales (rule round_simulated)

text \<open>Between two rounds the polling loop is where atomic rounds could have left it.\<close>

lemma rounds_atomic:
  assumes "trace round_step ls (None, p) (None, p')"
  shows "\<exists>ms. trace poll_step ms p p'"
  using rounds.trace_simulates [OF assms, of p] by (auto simp: round_rel_def)

end
