(* ===== verification/Sync_Safety.thy ===== *)
theory Sync_Safety
  imports Db_Setup Registry_Safety
begin

text \<open>
  The registry sync as a whole: that it gets somewhere, and that it recovers from failures of the
  database connection.
\<close>

section \<open>Progress of the realtime loop\<close>









section \<open>Failures\<close>



section \<open>Connecting\<close>



end
