(* ===== verification/Startup.thy ===== *)
theory Startup
  imports Client_Total Voice_Safety Dispatch_Model Config_Load
begin

text \<open>
  \<open>run\<close> of \<open>src/main.rs\<close>: how the state is built before anything is served, the gates that delay
  serving, the cleanup task, and the shutdown. Opening sockets, spawning and signals are input and
  output; what the tasks do is in the theories of their components.
\<close>

section \<open>The shards\<close>

text \<open>\<open>gateway_shards\<close> is what Discord recommends.\<close>

definition total_shards :: "config \<Rightarrow> u32 \<Rightarrow> u32" where
  "total_shards cfg gateway_shards =
     (case cfg_shards cfg of None \<Rightarrow> gateway_shards | Some n \<Rightarrow> n)"

definition shard_range :: "config \<Rightarrow> u32 \<Rightarrow> u32 \<times> u32" where
  "shard_range cfg count =
     (case cfg_shard_start cfg of None \<Rightarrow> 0 | Some start \<Rightarrow> start,
      case cfg_shard_end cfg of None \<Rightarrow> count | Some stop \<Rightarrow> stop)"

text \<open>
  The iterator of \<open>shard_start..shard_end\<close>. \<open>Vec::with_capacity\<close> only asks for memory; with a start
  behind the end the subtraction wraps and the hint is close to \<open>2 ^ 32\<close> entries, so the allocator may
  end the process there, which is not modelled.
\<close>

definition range_u32 :: "u32 \<Rightarrow> u32 \<Rightarrow> u32 list" where
  "range_u32 a b = map of_nat [unat a..<unat b]"

text \<open>The name of the activity of a shard's presence.\<close>

definition activity_name :: "string \<Rightarrow> u32 \<Rightarrow> string" where
  "activity_name name shard_id = replace_all name ''{{shard}}'' (format_uint shard_id)"

text \<open>The presence a shard identifies with; without an activity it has none.\<close>

record presence =
  pr_activities :: "activity list"
  pr_afk :: bool
  pr_since :: "u64 option"
  pr_status :: status

definition shard_presence :: "config \<Rightarrow> u32 \<Rightarrow> presence option" where
  "shard_presence cfg shard_id =
     map_option (\<lambda>activity.
         \<lparr>pr_activities = [activity\<lparr>av_name := activity_name (av_name activity) shard_id\<rparr>],
          pr_afk = False, pr_since = None, pr_status = cfg_status cfg\<rparr>)
       (cfg_activity cfg)"

text \<open>
  \<open>ShardId::new\<close> panics on an id that is not below the total, \<open>broadcast::channel\<close> on a capacity of
  0 or above \<open>usize::MAX / 2\<close>.
\<close>

definition create_shard :: "config \<Rightarrow> u32 \<Rightarrow> u32 \<Rightarrow> shard outcome" where
  "create_shard cfg count shard_id =
     (if count \<le> shard_id then Panic
      else if cfg_backpressure cfg = 0 \<or> 0x7FFFFFFFFFFFFFFF < cfg_backpressure cfg then Panic
      else Ret \<lparr>sh_id = shard_id, sh_events = [], sh_ready = None, sh_guilds = empty_cache\<rparr>)"

definition initial_state :: "config \<Rightarrow> u32 \<Rightarrow> inner outcome" where
  "initial_state cfg gateway_shards =
     (let count = total_shards cfg gateway_shards;
          (start, stop) = shard_range cfg count
      in omap (\<lambda>shs.
           \<lparr>shards = shs, shard_count = count, sessions = [], active_client_connections = [],
            offline_event_buffers = [], last_wake_attempts = [], client_command_windows = [],
            voice_owners = [], bot_user_id_cell = 0, upstream = []\<rparr>)
         (traverse (create_shard cfg count) (range_u32 start stop)))"

section \<open>The gates\<close>

text \<open>
  \<open>timeout(deadline, _)\<close> on something that is signalled at \<open>ready\<close> or whose sender is dropped at
  \<open>dropped\<close>, if ever. The result is when the wait ends, and why.
\<close>

datatype ready_wait = Ready_In_Time | Ready_Dropped | Ready_Timed_Out

definition timed_wait :: "duration \<Rightarrow> duration option \<Rightarrow> duration option \<Rightarrow> ready_wait \<times> duration" where
  "timed_wait deadline ready dropped =
     (case (ready, dropped) of
        (Some t, None) \<Rightarrow> if t \<le> deadline then (Ready_In_Time, t) else (Ready_Timed_Out, deadline)
      | (None, Some d) \<Rightarrow> if d \<le> deadline then (Ready_Dropped, d) else (Ready_Timed_Out, deadline)
      | (Some t, Some d) \<Rightarrow>
          if deadline < min t d then (Ready_Timed_Out, deadline)
          else if t \<le> d then (Ready_In_Time, t) else (Ready_Dropped, d)
      | (None, None) \<Rightarrow> (Ready_Timed_Out, deadline))"

text \<open>Waiting for READY, all shards in parallel, and then for the first load of the clients.\<close>

definition SHARD_READY_DEADLINE :: duration where "SHARD_READY_DEADLINE = secs 30"
definition INITIAL_SYNC_DEADLINE :: duration where "INITIAL_SYNC_DEADLINE = secs 10"

definition wait_shard_ready :: "duration option \<Rightarrow> duration option \<Rightarrow> ready_wait \<times> duration" where
  "wait_shard_ready = timed_wait SHARD_READY_DEADLINE"

definition wait_initial_sync :: "duration option \<Rightarrow> duration option \<Rightarrow> ready_wait \<times> duration" where
  "wait_initial_sync = timed_wait INITIAL_SYNC_DEADLINE"

definition ready_gate :: "(duration option \<times> duration option) list \<Rightarrow> duration" where
  "ready_gate waits = fold (\<lambda>(ready, dropped) t. max t (snd (wait_shard_ready ready dropped))) waits 0"

text \<open>Which environment variable names the database.\<close>

definition database_url :: "string option \<Rightarrow> string option \<Rightarrow> string option" where
  "database_url direct fallback = (case direct of Some url \<Rightarrow> Some url | None \<Rightarrow> fallback)"

text \<open>
  When the server starts to accept clients: \<open>waits\<close> has the times of the shards, \<open>loaded\<close> and \<open>dropped\<close>
  those of the first load, counted from the start of the sync, which runs only with a database.
\<close>

definition serving_starts ::
  "(duration option \<times> duration option) list \<Rightarrow> string option \<Rightarrow> duration option \<Rightarrow> duration option \<Rightarrow> duration"
  where
  "serving_starts waits url loaded dropped =
     ready_gate waits + (case url of None \<Rightarrow> 0 | Some _ \<Rightarrow> snd (wait_initial_sync loaded dropped))"

section \<open>The cleanup task\<close>

text \<open>One tick, every five minutes.\<close>

definition cleanup_tick :: "registry \<Rightarrow> inner \<Rightarrow> inner" where
  "cleanup_tick r st =
     (case rg_clients r of
        None \<Rightarrow> st
      | Some clients \<Rightarrow> prune_stale_client_state (set (hm_keys clients)) st)"

section \<open>Shutdown\<close>

text \<open>
  \<open>waits\<close> are the times between one shard task's end and the next; a wait of more than ten seconds
  ends the loop. The result is the numbers of graceful and ungraceful tasks.
\<close>

definition SHUTDOWN_PATIENCE :: duration where "SHUTDOWN_PATIENCE = secs 10"

fun shutdown_loop :: "nat \<Rightarrow> duration list \<Rightarrow> nat \<Rightarrow> nat \<Rightarrow> nat \<times> nat" where
  "shutdown_loop 0 waits graceful ungraceful = (graceful, ungraceful)"
| "shutdown_loop (Suc tasks) [] graceful ungraceful = (graceful, ungraceful)"
| "shutdown_loop (Suc tasks) (w # waits) graceful ungraceful =
     (if w \<le> SHUTDOWN_PATIENCE then shutdown_loop tasks waits (graceful + 1) (ungraceful - 1)
      else (graceful, ungraceful))"

definition shutdown_counts :: "inner \<Rightarrow> duration list \<Rightarrow> nat \<times> nat" where
  "shutdown_counts st waits = shutdown_loop (length (shards st)) waits 0 (length (shards st))"

section \<open>Lemmas\<close>

lemma range_u32_all: "range_u32 0 n = map of_nat [0..<unat n]"
  by (simp add: range_u32_def)

lemma range_u32_mem: "i \<in> set (range_u32 a b) \<Longrightarrow> a \<le> i \<and> i < b"
proof -
  assume "i \<in> set (range_u32 a b)"
  then obtain n where n: "i = of_nat n" "unat a \<le> n" "n < unat b" by (auto simp: range_u32_def)
  moreover have "unat b < 2 ^ LENGTH(32)" by (rule unsigned_less)
  ultimately have "unat i = n" by (simp add: unat_of_nat_id)
  with n show ?thesis by (simp add: word_le_nat_alt word_less_nat_alt)
qed

text \<open>A capacity \<open>broadcast::channel\<close> accepts.\<close>

definition backpressure_ok :: "config \<Rightarrow> bool" where
  "backpressure_ok cfg \<longleftrightarrow> cfg_backpressure cfg \<noteq> 0 \<and> cfg_backpressure cfg \<le> 0x7FFFFFFFFFFFFFFF"

lemma create_shard_Ret:
  "create_shard cfg count i = Ret sh \<longleftrightarrow> i < count \<and> backpressure_ok cfg \<and>
     sh = \<lparr>sh_id = i, sh_events = [], sh_ready = None, sh_guilds = empty_cache\<rparr>"
  by (auto simp: create_shard_def backpressure_ok_def not_le not_less)

lemma traverse_create:
  assumes "backpressure_ok cfg" and "\<forall>i\<in>set is. i < count"
  shows "traverse (create_shard cfg count) is =
    Ret (map (\<lambda>i. \<lparr>sh_id = i, sh_events = [], sh_ready = None, sh_guilds = empty_cache\<rparr>) is)"
  using assms(2) by (induction "is") (simp_all add: create_shard_Ret [THEN iffD2] assms(1))

lemma initial_state_Ret:
  assumes "backpressure_ok cfg" and "snd (shard_range cfg (total_shards cfg n)) \<le> total_shards cfg n"
  shows "\<exists>st. initial_state cfg n = Ret st \<and> shard_count st = total_shards cfg n \<and>
    map sh_id (shards st) =
      range_u32 (fst (shard_range cfg (total_shards cfg n))) (snd (shard_range cfg (total_shards cfg n))) \<and>
    sessions st = [] \<and> wf_inner st \<and> stream_ok st \<and> (\<forall>c. connection_count st c = 0)"
proof -
  let ?count = "total_shards cfg n"
  obtain a b where r: "shard_range cfg ?count = (a, b)" by fastforce
  have "\<forall>i\<in>set (range_u32 a b). i < ?count"
    using assms(2) by (auto simp: r dest: range_u32_mem)
  from traverse_create [OF assms(1) this] show ?thesis
    by (simp add: initial_state_def Let_def r wf_inner_def stream_ok_def hm_wf_def offline_events_def
        connection_count_def hm_get_def comp_def)
qed

text \<open>All cases of a startup.\<close>

lemma range_u32_iff: "i \<in> set (range_u32 a b) \<longleftrightarrow> a \<le> i \<and> i < b"
proof
  assume "a \<le> i \<and> i < b"
  then have "unat i \<in> {unat a..<unat b}" by (simp add: word_le_nat_alt word_less_nat_alt)
  then show "i \<in> set (range_u32 a b)" unfolding range_u32_def by (auto intro!: image_eqI [of _ _ "unat i"])
qed (rule range_u32_mem)

lemma traverse_Panic:
  "(\<And>x. x \<in> set xs \<Longrightarrow> f x \<noteq> Diverge) \<Longrightarrow> x \<in> set xs \<Longrightarrow> f x = Panic \<Longrightarrow> traverse f xs = Panic"
proof (induction xs)
  case (Cons y ys)
  have "traverse f zs \<noteq> Diverge" if "set zs \<subseteq> set (y # ys)" for zs
    using that
  proof (induction zs)
    case (Cons z zs)
    with \<open>\<And>x. x \<in> set (y # ys) \<Longrightarrow> f x \<noteq> Diverge\<close> show ?case
      by (cases "f z"; cases "traverse f zs") auto
  qed simp
  with Cons show ?case by (cases "f y"; cases "traverse f ys") auto
qed simp

lemma startup_cases:
  fixes cfg n
  defines "count \<equiv> total_shards cfg n" and "start \<equiv> fst (shard_range cfg (total_shards cfg n))"
    and "stop \<equiv> snd (shard_range cfg (total_shards cfg n))"
  defines "fine \<equiv> stop \<le> start \<or> stop \<le> count \<and> backpressure_ok cfg"
  shows "case initial_state cfg n of
      Ret st \<Rightarrow> fine \<and> map sh_id (shards st) = range_u32 start stop \<and> shard_count st = count \<and>
        sessions st = [] \<and> wf_inner st \<and> stream_ok st \<and> (\<forall>c. connection_count st c = 0)
    | r \<Rightarrow> r = Panic \<and> \<not> fine"
proof -
  have state: "initial_state cfg n = omap (\<lambda>shs.
      \<lparr>shards = shs, shard_count = count, sessions = [], active_client_connections = [],
       offline_event_buffers = [], last_wake_attempts = [], client_command_windows = [],
       voice_owners = [], bot_user_id_cell = 0, upstream = []\<rparr>) (traverse (create_shard cfg count) (range_u32 start stop))"
    by (simp add: initial_state_def Let_def count_def start_def stop_def case_prod_beta)
  consider (empty) "stop \<le> start" | (good) "stop \<le> count" "backpressure_ok cfg" | (bad) "start < stop" "\<not> fine"
    unfolding fine_def by fastforce
  then show ?thesis
  proof cases
    case empty
    then have "range_u32 start stop = []" by (simp add: range_u32_def word_le_nat_alt)
    with empty show ?thesis
      by (simp add: state fine_def wf_inner_def stream_ok_def hm_wf_def offline_events_def
          connection_count_def hm_get_def)
  next
    case good
    from initial_state_Ret [OF good(2), of n] good show ?thesis
      by (auto simp: fine_def count_def start_def stop_def)
  next
    case bad
    have "\<exists>i\<in>set (range_u32 start stop). create_shard cfg count i = Panic"
    proof (cases "backpressure_ok cfg")
      case True
      then have "count < stop" using bad by (simp add: fine_def not_le)
      moreover have "unat (stop - 1) = unat stop - 1" using bad(1) by (intro unat_minus_one) auto
      ultimately have "count \<le> stop - 1" "start \<le> stop - 1" "stop - 1 < stop"
        using bad(1) by (auto simp: word_le_nat_alt word_less_nat_alt)
      then show ?thesis by (intro bexI [of _ "stop - 1"]) (simp_all add: create_shard_def range_u32_iff)
    next
      case False
      with bad(1) show ?thesis
        by (intro bexI [of _ start]) (auto simp: create_shard_def range_u32_iff backpressure_ok_def not_le)
    qed
    moreover have "create_shard cfg count i \<noteq> Diverge" for i by (simp add: create_shard_def)
    ultimately have "traverse (create_shard cfg count) (range_u32 start stop) = Panic"
      by (blast intro: traverse_Panic)
    with bad(2) show ?thesis by (simp add: state)
  qed
qed

lemma timed_wait_bound: "snd (timed_wait deadline ready dropped) \<le> deadline"
  by (simp add: timed_wait_def split: option.split)

lemma ready_gate_bound: "ready_gate waits \<le> SHARD_READY_DEADLINE"
proof -
  have one: "snd (wait_shard_ready ready dropped) \<le> SHARD_READY_DEADLINE" for ready dropped
    by (simp add: wait_shard_ready_def timed_wait_bound)
  have "t \<le> SHARD_READY_DEADLINE \<Longrightarrow>
      fold (\<lambda>(ready, dropped) t. max t (snd (wait_shard_ready ready dropped))) waits t \<le> SHARD_READY_DEADLINE" for t
    using one by (induction waits arbitrary: t) auto
  then show ?thesis by (simp add: ready_gate_def)
qed

lemma ready_gate_waits:
  "(ready, dropped) \<in> set waits \<Longrightarrow> snd (wait_shard_ready ready dropped) \<le> ready_gate waits"
proof -
  have mono: "t \<le> fold (\<lambda>(ready, dropped) t. max t (snd (wait_shard_ready ready dropped))) waits t" for t :: nat and waits
    by (induction waits arbitrary: t) (auto intro: order_trans [OF max.cobounded1])
  have "(ready, dropped) \<in> set waits \<Longrightarrow> snd (wait_shard_ready ready dropped) \<le>
      fold (\<lambda>(ready, dropped) t. max t (snd (wait_shard_ready ready dropped))) waits t" for t
  proof (induction waits arbitrary: t)
    case (Cons w waits)
    then show ?case
      using order_trans [OF _ mono [of "max t (snd (wait_shard_ready ready dropped))" waits]] by auto
  qed simp
  then show "(ready, dropped) \<in> set waits \<Longrightarrow> snd (wait_shard_ready ready dropped) \<le> ready_gate waits"
    by (simp add: ready_gate_def)
qed

text \<open>Serving starts within 40 seconds; not before a shard that gets ready in time and not before a load in time.\<close>

lemma serving_starts_bounds:
  "serving_starts waits url loaded dropped \<le> SHARD_READY_DEADLINE + INITIAL_SYNC_DEADLINE"
  "list_all (\<lambda>(ready, gone). snd (wait_shard_ready ready gone) \<le> serving_starts waits url loaded dropped) waits"
  "url \<noteq> None \<Longrightarrow> snd (wait_initial_sync loaded dropped) \<le> serving_starts waits url loaded dropped"
  using ready_gate_bound [of waits] timed_wait_bound [of INITIAL_SYNC_DEADLINE loaded dropped]
  by (auto simp: serving_starts_def wait_initial_sync_def list_all_iff split: option.split
      intro: add_mono ready_gate_waits trans_le_add1 [OF ready_gate_waits])

lemma shutdown_loop_counts:
  "tasks \<le> u \<Longrightarrow> shutdown_loop tasks waits g u = (g', u') \<Longrightarrow> g' + u' = g + u \<and> g \<le> g'"
  by (induction tasks waits g u rule: shutdown_loop.induct) (fastforce split: if_splits)+

end
