(* ===== verification/Gateway_Model.thy ===== *)
theory Gateway_Model
  imports Startup Forwarder Db_Sync
begin

text \<open>
  The whole proxy: its tasks as the steps of one relation. The connections' loops, their forwarding
  tasks, the event loops of the shards, the periodic tasks and the sync of the registry share the
  record \<^theory_text>\<open>inner\<close> and run in any order. A step is what a task does between two points at which it
  waits; an IDENTIFY or RESUME is one step (its inner interleavings are in \<open>Voice_Safety\<close> and
  \<open>Stream_Safety\<close>), the start of a forwarding task is three.
\<close>

section \<open>State\<close>

text \<open>
  Where a forwarding task is: waiting for READY, before the replay, before the subscription, or in
  the live loop, with the position of its receiver. The number is the task's \<open>seq\<close>.
\<close>

datatype forward_task =
    No_Task
  | Waiting forward_args usize
  | Greeted forward_args usize
  | Replayed forward_args usize
  | Live forward_args usize nat

fun task_args :: "forward_task \<Rightarrow> forward_args option" where
  "task_args No_Task = None"
| "task_args (Waiting fw seq) = Some fw"
| "task_args (Greeted fw seq) = Some fw"
| "task_args (Replayed fw seq) = Some fw"
| "task_args (Live fw seq pos) = Some fw"

fun task_seq :: "forward_task \<Rightarrow> usize option" where
  "task_seq (Greeted fw seq) = Some seq"
| "task_seq (Replayed fw seq) = Some seq"
| "task_seq (Live fw seq pos) = Some seq"
| "task_seq t = None"

text \<open>
  A connection: the variables of its loop, whether the loop has ended, its task and what the task has
  written: the greeting, the number it ends with, and the texts since.
\<close>

record connection =
  co_conn :: conn
  co_left :: bool
  co_task :: forward_task
  co_greeting :: "string list"
  co_first :: usize
  co_stream :: "string list"

text \<open>\<open>gw_loops\<close> is the \<open>is_ready\<close> of each shard's event loop while it runs.\<close>

record gateway =
  gw_conns :: "(nat, connection) hmap"
  gw_loops :: "nat \<Rightarrow> bool option"
  gw_sync :: sync
  gw_inner :: inner

definition gateway_boot :: "sync \<Rightarrow> inner \<Rightarrow> gateway" where
  "gateway_boot sy st =
     \<lparr>gw_conns = [], gw_loops = (\<lambda>_. Some False), gw_sync = sy, gw_inner = st\<rparr>"

definition new_connection :: "instant \<Rightarrow> connection" where
  "new_connection now =
     \<lparr>co_conn = new_conn now, co_left = False, co_task = No_Task, co_greeting = [], co_first = 0,
      co_stream = []\<rparr>"

text \<open>The task that a step of the loop spawned.\<close>

definition spawn_forward :: "conn \<Rightarrow> conn \<Rightarrow> forward_task \<Rightarrow> forward_task" where
  "spawn_forward cn cn' task =
     (case (cn_forward cn, cn_forward cn') of
        (None, Some (fw, seq)) \<Rightarrow> Waiting fw seq
      | _ \<Rightarrow> task)"

definition put_connection :: "nat \<Rightarrow> connection \<Rightarrow> gateway \<Rightarrow> gateway" where
  "put_connection k co g = g\<lparr>gw_conns := hm_insert k co (gw_conns g)\<rparr>"

definition task_shard :: "inner \<Rightarrow> forward_args \<Rightarrow> shard" where
  "task_shard st fw = shards st ! fw_shard fw"

definition gw_registry :: "gateway \<Rightarrow> registry" where
  "gw_registry g = sy_registry (gw_sync g)"

section \<open>Steps\<close>

datatype gateway_label =
    Accept nat
  | Client nat client_event
  | Greet nat | Replay nat | Subscribe nat | Receive nat | Lag nat
  | Abort nat
  | Teardown nat
  | Discord nat shard_message
  | Sweep | Cleanup | Wake
  | Db sync_label

text \<open>
  A lagging receiver skips forward, but the channel keeps at least the latest \<open>backpressure\<close>
  messages. On a graceful close the task is aborted before the queue is flushed.
\<close>

inductive gateway_step ::
  "config \<Rightarrow> json_lib \<Rightarrow> 'e twilight \<Rightarrow> gateway_label \<Rightarrow> gateway \<Rightarrow> gateway \<Rightarrow> bool"
  for cfg J tw where
  accept: "hm_get (gw_conns g) k = None \<Longrightarrow>
    gateway_step cfg J tw (Accept k) g (put_connection k (new_connection now) g)"
| client: "hm_get (gw_conns g) k = Some co \<Longrightarrow> \<not> co_left co \<Longrightarrow>
    en_json en = J \<Longrightarrow> en_config en = cfg \<Longrightarrow> en_registry en = gw_registry g \<Longrightarrow>
    client_step en ev (co_conn co) (gw_inner g) = Ret (flow, cn', st') \<Longrightarrow>
    gateway_step cfg J tw (Client k ev) g
      (put_connection k
        (co\<lparr>co_conn := cn', co_left := (flow = Stop),
            co_task := spawn_forward (co_conn co) cn' (co_task co)\<rparr>)
        (g\<lparr>gw_inner := st'\<rparr>))"
| greet: "hm_get (gw_conns g) k = Some co \<Longrightarrow> co_task co = Waiting fw seq \<Longrightarrow>
    sh_ready (task_shard (gw_inner g) fw) = Some ready \<Longrightarrow>
    greeting J fw ready (sh_guilds (task_shard (gw_inner g) fw)) seq = Ret (texts, seq') \<Longrightarrow>
    gateway_step cfg J tw (Greet k) g
      (put_connection k
        (co\<lparr>co_task := Greeted fw seq', co_greeting := texts, co_first := seq', co_stream := []\<rparr>) g)"
| replay: "hm_get (gw_conns g) k = Some co \<Longrightarrow> co_task co = Greeted fw seq \<Longrightarrow>
    replay_offline (gw_registry g) fw seq (gw_inner g) = Ret (texts, seq', st') \<Longrightarrow>
    gateway_step cfg J tw (Replay k) g
      (put_connection k (co\<lparr>co_task := Replayed fw seq', co_stream := co_stream co @ texts\<rparr>)
        (g\<lparr>gw_inner := st'\<rparr>))"
| subscribe: "hm_get (gw_conns g) k = Some co \<Longrightarrow> co_task co = Replayed fw seq \<Longrightarrow>
    gateway_step cfg J tw (Subscribe k) g
      (put_connection k (co\<lparr>co_task := Live fw seq (subscribe (task_shard (gw_inner g) fw))\<rparr>) g)"
| receive: "hm_get (gw_conns g) k = Some co \<Longrightarrow> co_task co = Live fw seq pos \<Longrightarrow>
    pos < length (sh_events (task_shard (gw_inner g) fw)) \<Longrightarrow>
    forward_received (gw_registry g) fw
      (Received (sh_events (task_shard (gw_inner g) fw) ! pos)) seq = Ret (texts, seq') \<Longrightarrow>
    gateway_step cfg J tw (Receive k) g
      (put_connection k (co\<lparr>co_task := Live fw seq' (pos + 1), co_stream := co_stream co @ texts\<rparr>) g)"
| lag: "hm_get (gw_conns g) k = Some co \<Longrightarrow> co_task co = Live fw seq pos \<Longrightarrow> pos < pos' \<Longrightarrow>
    pos' + unat (cfg_backpressure cfg) \<le> length (sh_events (task_shard (gw_inner g) fw)) \<Longrightarrow>
    forward_received (gw_registry g) fw (Lagged (pos' - pos)) seq = Ret (texts, seq') \<Longrightarrow>
    gateway_step cfg J tw (Lag k) g
      (put_connection k (co\<lparr>co_task := Live fw seq' pos', co_stream := co_stream co @ texts\<rparr>) g)"
| abort: "hm_get (gw_conns g) k = Some co \<Longrightarrow> co_left co \<Longrightarrow>
    cn_graceful_close (co_conn co) \<Longrightarrow> \<not> cn_sink_done (co_conn co) \<Longrightarrow>
    gateway_step cfg J tw (Abort k) g (put_connection k (co\<lparr>co_task := No_Task\<rparr>) g)"
| teardown: "hm_get (gw_conns g) k = Some co \<Longrightarrow> co_left co \<Longrightarrow>
    teardown now (co_conn co) (gw_inner g) = (flush, cn', st') \<Longrightarrow>
    flush \<longrightarrow> co_task co = No_Task \<Longrightarrow>
    gateway_step cfg J tw (Teardown k) g (g\<lparr>gw_inner := st', gw_conns := hm_remove k (gw_conns g)\<rparr>)"
| discord: "i < length (shards (gw_inner g)) \<Longrightarrow> gw_loops g i = Some ready \<Longrightarrow>
    events tw J cfg now (gw_registry g) shutdown i msg ready (gw_inner g) = Ret (flow, ready', effects, st') \<Longrightarrow>
    gateway_step cfg J tw (Discord i msg) g
      (g\<lparr>gw_inner := st', gw_loops := (gw_loops g)(i := if flow = Stop then None else Some ready')\<rparr>)"
| sweep: "voice_sweeper_tick cfg now (gw_registry g) (gw_inner g) = Ret st' \<Longrightarrow>
    gateway_step cfg J tw Sweep g (g\<lparr>gw_inner := st'\<rparr>)"
| cleanup: "gateway_step cfg J tw Cleanup g (g\<lparr>gw_inner := cleanup_tick (gw_registry g) (gw_inner g)\<rparr>)"
| wake: "scheduled_wakes_tick wall now (gw_registry g) (gw_inner g) = (effects, st') \<Longrightarrow>
    gateway_step cfg J tw Wake g (g\<lparr>gw_inner := st'\<rparr>)"
| db: "sync_step l (gw_sync g) sy' \<Longrightarrow> gateway_step cfg J tw (Db l) g (g\<lparr>gw_sync := sy'\<rparr>)"

inductive_cases gateway_stepE: "gateway_step cfg J tw l g g'"

section \<open>Counting the connections of a client\<close>

definition live_count :: "(nat, connection) hmap \<Rightarrow> string \<Rightarrow> nat" where
  "live_count m c = (\<Sum>(k, co)\<leftarrow>m. active_in (co_conn co) c)"

text \<open>What the entry of a key contributes.\<close>

definition counted :: "(nat, connection) hmap \<Rightarrow> nat \<Rightarrow> string \<Rightarrow> nat" where
  "counted m k c = (case hm_get m k of None \<Rightarrow> 0 | Some co \<Rightarrow> active_in (co_conn co) c)"

lemma counted_None [simp]: "hm_get m k = None \<Longrightarrow> counted m k c = 0"
  by (simp add: counted_def)

lemma live_count_remove:
  "hm_wf m \<Longrightarrow> live_count (hm_remove k m) c + counted m k c = live_count m c"
proof (induction m)
  case Nil
  then show ?case by (simp add: live_count_def hm_remove_def hm_get_def)
next
  case (Cons p m)
  obtain k' co where p: "p = (k', co)" by (cases p)
  with Cons.prems have wf: "hm_wf m" and new: "k' \<notin> set (map fst m)" by (auto simp: hm_wf_def)
  show ?case
  proof (cases "k' = k")
    case True
    with new have "AList.delete k m = m" by (intro delete_id) (simp add: image_iff)
    with True p show ?thesis by (simp add: live_count_def counted_def hm_remove_def hm_get_def)
  next
    case False
    with Cons.IH [OF wf] p show ?thesis
      by (simp add: live_count_def counted_def hm_remove_def hm_get_def)
  qed
qed

lemma live_count_insert:
  "hm_wf m \<Longrightarrow> live_count (hm_insert k co m) c + counted m k c = live_count m c + active_in (co_conn co) c"
proof (induction m)
  case Nil
  then show ?case by (simp add: live_count_def hm_insert_def hm_get_def)
next
  case (Cons p m)
  then have wf: "hm_wf m" by (simp add: hm_wf_def)
  from Cons.IH [OF wf] show ?case
    by (cases p) (simp add: live_count_def counted_def hm_insert_def hm_get_def)
qed

lemma live_count_zero:
  assumes "hm_wf m"
  shows "live_count m c = 0 \<longleftrightarrow>
    (\<nexists>k co. hm_get m k = Some co \<and> cn_active_client (co_conn co) = Some c)"
proof -
  have "live_count m c = 0 \<longleftrightarrow> (\<nexists>k co. (k, co) \<in> set m \<and> cn_active_client (co_conn co) = Some c)"
    by (induction m) (fastforce simp: live_count_def active_in_def)+
  moreover have "(k, co) \<in> set m \<longleftrightarrow> hm_get m k = Some co" for k co
    using assms by (simp add: hm_get_def hm_wf_def map_of_eq_Some_iff)
  ultimately show ?thesis by simp
qed

section \<open>What the steps leave alone\<close>

text \<open>A change of the state that no connection has to notice.\<close>

definition background :: "inner \<Rightarrow> inner \<Rightarrow> bool" where
  "background st st' \<longleftrightarrow>
     shards st' = shards st \<and> shard_count st' = shard_count st \<and> sessions st' = sessions st \<and>
     active_client_connections st' = active_client_connections st \<and>
     (wf_inner st \<longrightarrow>
        wf_inner st' \<and> (\<forall>c. set (offline_events st' c) \<subseteq> set (offline_events st c)))"

lemma background_refl [simp]: "background st st"
  by (simp add: background_def)

lemma background_replay:
  assumes "replay_offline r fw seq st = Ret (texts, seq', st')"
  shows "background st st'"
proof (cases "fw_client_id fw")
  case None
  with assms show ?thesis by (simp add: replay_offline_def)
next
  case (Some c)
  with assms have "st' = snd (drain_offline_events_for_client c st)"
    by (auto simp: replay_offline_def split: prod.splits)
  moreover have "background st (snd (drain_offline_events_for_client c st))"
    by (auto simp: background_def drain_offline_events_for_client_def wf_inner_def offline_events_def
        hm.get_remove split: option.splits)
  ultimately show ?thesis by simp
qed

lemma background_sweep:
  assumes "voice_sweeper_tick cfg now r st = Ret st'"
  shows "background st st'"
proof (cases "rg_clients r")
  case None
  with assms show ?thesis by (simp add: voice_sweeper_tick_def)
next
  case (Some m)
  then obtain gs st1 where take: "take_stale_voice_owners cfg now (authorized_of m) st = Ret (gs, st1)"
    and send: "send_voice_leaves gs st1 = Ret st'"
    using assms by (auto simp: voice_sweeper_tick_def)
  obtain iv where sw: "sweep_voice_owners now (authorized_of m) iv st = (gs, st1)"
    using take_stale_Ret [OF take] by blast
  note wf = sweep_result_wf [OF sw]
  from sw obtain vo where st1: "st1 = st\<lparr>voice_owners := vo\<rparr>" by (auto simp: sweep_voice_owners_def Let_def)
  show ?thesis using send_voice_leaves_Ret [OF send] wf
    by (simp add: background_def wf_inner_def offline_events_def st1)
qed

lemma background_cleanup: "background st (cleanup_tick r st)"
proof (cases "rg_clients r")
  case None
  then show ?thesis by (simp add: cleanup_tick_def)
next
  case (Some m)
  have "set (offline_events (prune_stale_client_state v st) c) \<subseteq> set (offline_events st c)" if "wf_inner st" for v c
    by (auto simp: prune_stale_get(1) [OF that])
  with Some show ?thesis
    by (simp add: cleanup_tick_def background_def) (simp add: prune_stale_client_state_def)
qed

lemma scheduled_wake_frame:
  "shards (snd (scheduled_wake wall now c cfg st)) = shards st"
  "shard_count (snd (scheduled_wake wall now c cfg st)) = shard_count st"
  "sessions (snd (scheduled_wake wall now c cfg st)) = sessions st"
  "active_client_connections (snd (scheduled_wake wall now c cfg st)) = active_client_connections st"
  "offline_events (snd (scheduled_wake wall now c cfg st)) = offline_events st"
proof -
  have "sessions (snd (should_wake_client now c d st)) = sessions st"
    "active_client_connections (snd (should_wake_client now c d st)) = active_client_connections st" for d
    by (simp_all add: should_wake_client_def split: option.split)
  with scheduled_wake_snd [of wall now c cfg st] show
    "shards (snd (scheduled_wake wall now c cfg st)) = shards st"
    "shard_count (snd (scheduled_wake wall now c cfg st)) = shard_count st"
    "sessions (snd (scheduled_wake wall now c cfg st)) = sessions st"
    "active_client_connections (snd (scheduled_wake wall now c cfg st)) = active_client_connections st"
    "offline_events (snd (scheduled_wake wall now c cfg st)) = offline_events st"
    by (metis should_wake_frame)+
qed

lemma background_wake:
  assumes "scheduled_wakes_tick wall now r st = (effects, st')"
  shows "background st st'"
proof (cases "rg_clients r")
  case None
  with assms show ?thesis by (simp add: scheduled_wakes_tick_def)
next
  case (Some m)
  then have st': "st' = snd (collect_effects (scheduled_wake wall now) m st)"
    using assms by (simp add: scheduled_wakes_tick_def)
  show ?thesis
    unfolding background_def st'
    by (simp add: collect_effects_same [where K = shards] collect_effects_same [where K = shard_count]
        collect_effects_same [where K = sessions] collect_effects_same [where K = offline_events]
        collect_effects_same [where K = active_client_connections] scheduled_wake_frame
        collect_effects_wf scheduled_wake_wf)
qed

text \<open>A round of a shard's loop: besides the shard and the buffers it only touches voice owners, wake
  times and the bot's id.\<close>

definition round_frame :: "inner \<Rightarrow> inner \<Rightarrow> bool" where
  "round_frame st st' \<longleftrightarrow>
     map sh_id (shards st') = map sh_id (shards st) \<and> shard_count st' = shard_count st \<and>
     sessions st' = sessions st \<and> active_client_connections st' = active_client_connections st \<and>
     (wf_inner st \<longrightarrow> wf_inner st')"

lemma round_frame_refl [simp]: "round_frame st st"
  by (simp add: round_frame_def)

lemma round_frame_trans: "round_frame a b \<Longrightarrow> round_frame b c \<Longrightarrow> round_frame a c"
  by (simp add: round_frame_def)

lemma round_frame_update:
  assumes "\<And>sh. sh_id (f sh) = sh_id sh"
  shows "round_frame st (update_shard i f st)"
proof -
  have "map sh_id ((shards st)[i := f (shards st ! i)]) = map sh_id (shards st)"
    by (cases "i < length (shards st)") (simp_all add: map_update assms list_update_same_conv list_update_beyond)
  then show ?thesis by (simp add: round_frame_def update_shard_def wf_inner_def)
qed

lemma round_frame_track: "round_frame st (track_bot_voice_state J p g st)"
  by (auto simp: round_frame_def track_bot_voice_state_def on_bot_voice_leave_def wf_inner_def
      split: option.splits)

lemma buffer_for_client_frame:
  "shards (snd (buffer_for_client now p s g c cfg st)) = shards st"
  "shard_count (snd (buffer_for_client now p s g c cfg st)) = shard_count st"
  "sessions (snd (buffer_for_client now p s g c cfg st)) = sessions st"
  "active_client_connections (snd (buffer_for_client now p s g c cfg st)) = active_client_connections st"
  by (simp_all add: buffer_for_client_snd)
    (simp_all add: should_wake_client_def push_offline_event_for_client_def Let_def split: option.split)

lemma round_frame_buffer:
  "round_frame st (snd (buffer_event_for_disconnected_clients now r p s g st))"
proof (cases g)
  case None
  then show ?thesis by (simp add: buffer_event_for_disconnected_clients_def)
next
  case (Some guild)
  show ?thesis
    by (cases "rg_clients r")
      (simp_all add: Some buffer_event_for_disconnected_clients_def round_frame_def
        collect_effects_same [where K = shards] collect_effects_same [where K = shard_count]
        collect_effects_same [where K = sessions]
        collect_effects_same [where K = active_client_connections] buffer_for_client_frame
        collect_effects_wf buffer_for_client_wf)
qed

lemma round_frame_relay:
  assumes "relay_event J now r i ev p e st = (effects, st')"
  shows "round_frame st st'"
proof -
  define m where "m = relay_message J r st (ev, p, e)"
  let ?st1 = "tracked J ev p e st"
  let ?st2 = "update_shard i (broadcast m) ?st1"
  have "st' = ?st2 \<or>
      st' = snd (buffer_event_for_disconnected_clients now r p (ge_sequence e) (ge_guild_id e) ?st2)"
    using assms by (auto simp: relay_event_def Let_def tracked_def relay_message_def m_def split: prod.splits if_splits)
  moreover have "round_frame st ?st1" by (simp add: tracked_def round_frame_track)
  then have "round_frame st ?st2"
    by (rule round_frame_trans) (simp add: round_frame_update broadcast_def)
  ultimately show ?thesis using round_frame_buffer round_frame_trans by blast
qed

lemma round_frame_ready:
  assumes "on_ready J cfg i p st = Ret st'"
  shows "round_frame st st'"
proof -
  obtain d user where "st' = update_shard i (set_ready d) st \<or>
      st' = update_shard i (set_ready d) (st\<lparr>bot_user_id_cell := user\<rparr>)"
    using assms by (auto simp: on_ready_def Let_def split: option.splits)
  moreover have "round_frame st (st\<lparr>bot_user_id_cell := user\<rparr>)" by (simp add: round_frame_def wf_inner_def)
  moreover have "round_frame m (update_shard i (set_ready d) m)" for m
    by (simp add: round_frame_update set_ready_def)
  ultimately show ?thesis using round_frame_trans by blast
qed

lemma round_frame_parsed:
  assumes "apply_parsed tw cfg i p ready st = (ready', st')"
  shows "round_frame st st'"
  using assms
  by (auto simp: apply_parsed_def set_not_ready_def intro: round_frame_update
      split: sum.splits option.splits twilight_event.splits if_splits)

lemma round_frame_events:
  assumes "events tw J cfg now r shutdown i msg ready st = Ret (flow, ready', effects, st')"
  shows "round_frame st st'"
proof (cases "\<exists>p e. msg = MsgText p \<and> from_json p = Some e")
  case False
  with assms have "st' = st" by (auto simp: events_def split: shard_message.splits option.splits)
  then show ?thesis by simp
next
  case True
  then obtain p e where msg: "msg = MsgText p" and e: "from_json p = Some e" by blast
  with assms obtain ready1 effs1 st1 where h: "handle_event J cfg now r i p e ready st = Ret (ready1, effs1, st1)"
    by (auto simp: events_def)
  with assms msg e have "apply_parsed tw cfg i p ready1 st1 = (ready', st')"
    by (cases "apply_parsed tw cfg i p ready1 st1") (simp add: events_def)
  then have "round_frame st1 st'" by (rule round_frame_parsed)
  moreover have "round_frame st st1"
    using h e by (cases rule: handle_event_cases) (auto intro: round_frame_ready round_frame_relay)
  ultimately show ?thesis by (rule round_frame_trans [rotated])
qed

end
