(* ===== verification/Gateway_Invariant.thy ===== *)
theory Gateway_Invariant
  imports Gateway_Model
begin

text \<open>
  The invariant of the whole proxy, \<open>gateway_ok\<close>, and its preservation by every step of
  \<open>gateway_step\<close>, with the lemmas on what a step of a client's loop does to the rest.
\<close>

section \<open>A step of a client's loop\<close>

lemma client_step_buffers:
  assumes "client_step en ev cn st = Ret (flow, cn', st')"
  shows "offline_events st' = offline_events st"
proof -
  have act: "offline_event_buffers st2 = offline_event_buffers st1"
    if "activate cl c1 st1 = (c2, st2)" for cl c1 c2 and st1 st2 :: inner
    using that by (auto simp: activate_def split: option.splits if_splits)
  have "offline_event_buffers st' = offline_event_buffers st"
    using assms
  proof (cases rule: client_step_cases)
    case (identify p d auth)
    from identify(7) obtain cn1 st1 st2 session_id s where
      "activate (client_of (ac_principal auth)) cn st = (cn1, st1)"
      "leave_old_voice (client_of (ac_principal auth)) (fst (idf_shard d)) st1 = Ret st2"
      "create_session (en_now en) (en_random en) s st2 = Ret (session_id, st')"
      by (rule identified_steps) (rule that)
    then show ?thesis
      by (auto dest!: act leave_old_voice_core create_session_core simp: same_core_def)
  next
    case (no_session p d auth)
    obtain res where "get_session (en_now en) (res_session_id d) st = (res, st')"
      using no_session(5) by (metis prod.collapse)
    then show ?thesis by (auto dest!: get_session_core simp: same_core_def)
  next
    case (resume p d auth s st1)
    obtain sh cn1 where "shard_at st1 (ss_shard_id s) = Ret sh"
      "activate (client_of (ss_principal s)) (cn\<lparr>cn_shard_sender := Some (sh_id sh)\<rparr>) st1 = (cn1, st')"
      using resume(6) by (rule resumed_steps) (rule that)
    then show ?thesis using resume(4) by (auto dest!: act get_session_core simp: same_core_def)
  next
    case filtered
    then show ?thesis by (auto dest!: send_command_core simp: same_core_def)
  qed simp_all
  then show ?thesis by (simp add: offline_events_def fun_eq_iff)
qed

text \<open>The arguments of the forwarding task are set once, for a shard that exists.\<close>

lemma client_step_forward:
  assumes "client_step en ev cn st = Ret (flow, cn', st')" and "conn_ok cn"
  shows "cn_forward cn' = cn_forward cn \<or>
    (\<exists>fw seq. flow = Continue \<and> cn_forward cn = None \<and> cn_forward cn' = Some (fw, seq) \<and>
       fw_shard fw < length (shards st'))"
  using assms(1)
proof (cases rule: client_step_cases)
  case quiet
  have "cn_forward cn' = cn_forward cn" by (subst quiet(2)) simp
  then show ?thesis ..
next
  case (identify p d auth)
  from identify(7) obtain cn1 session_id sh where "shard_at st' (fst (idf_shard d)) = Ret sh" "flow = Continue"
    "cn' = cn1\<lparr>cn_command_scope := client_of (ac_principal auth), cn_shard_sender := Some (sh_id sh),
        cn_compress_tx := False, cn_compress := Some (idf_compress d),
        cn_forward := Some (\<lparr>fw_session_id = session_id, fw_shard = unat (fst (idf_shard d)),
          fw_send_guilds = True, fw_authorized_guilds = ac_authorized_guilds auth,
          fw_client_id = client_of (ac_principal auth)\<rparr>, 0)\<rparr>"
    by (rule identified_steps) (rule that)
  with identify(2) assms(2) show ?thesis by (auto simp: shard_at_def conn_ok_def split: if_splits)
next
  case no_session
  then show ?thesis by (auto simp: reject_session_def enqueue_def)
next
  case (resume p d auth s st1)
  note core = client_step_core [OF assms(1)] get_session_core [OF resume(4)]
  from resume(6) obtain sh where sh: "shard_at st1 (ss_shard_id s) = Ret sh" by (auto simp: resumed_def)
  then have bound: "unat (ss_shard_id s) < length (shards st')"
    using core by (auto simp: shard_at_def same_core_def split: if_splits)
  obtain cn1 st2 where act: "activate (client_of (ss_principal s)) (cn\<lparr>cn_shard_sender := Some (sh_id sh)\<rparr>) st1 = (cn1, st2)"
    by fastforce
  have fw1: "cn_forward cn1 = cn_forward cn"
    by (subst activate_rest(5) [OF act]) simp
  show ?thesis
  proof (cases "cn_compress_tx cn")
    case True
    then have "cn_forward cn = None" using assms(2) by (simp add: conn_ok_def)
    with True bound sh act resume(6) show ?thesis by (auto simp: resumed_def Let_def)
  next
    case False
    with fw1 sh act resume(6) show ?thesis
      by (auto simp: resumed_def Let_def reject_session_def enqueue_def)
  qed
qed simp_all

section \<open>The invariant\<close>

text \<open>
  A connection whose loop runs satisfies \<open>conn_ok\<close> and, once it is authenticated, has a task. A task
  has the arguments its loop spawned it with, a shard that exists and a guild filter exactly for a
  multi-tenant client; its receiver is not ahead of
  the shard, and the texts it wrote since the greeting are numbered without a gap up to its \<open>seq\<close>.
\<close>

definition stream_numbered :: "connection \<Rightarrow> bool" where
  "stream_numbered co \<longleftrightarrow> numbered_from (co_first co) (co_stream co) \<and>
     (\<forall>seq. task_seq (co_task co) = Some seq \<longrightarrow> last_number (co_first co) (co_stream co) = seq)"

definition connection_ok :: "inner \<Rightarrow> connection \<Rightarrow> bool" where
  "connection_ok st co \<longleftrightarrow>
     (\<not> co_left co \<longrightarrow> conn_ok (co_conn co) \<and>
        task_args (co_task co) = map_option fst (cn_forward (co_conn co))) \<and>
     (\<forall>fw. task_args (co_task co) = Some fw \<longrightarrow>
        map_option fst (cn_forward (co_conn co)) = Some fw \<and> fw_shard fw < length (shards st) \<and>
        (fw_authorized_guilds fw = None \<longleftrightarrow> fw_client_id fw = None)) \<and>
     (\<forall>fw seq pos. co_task co = Live fw seq pos \<longrightarrow> pos \<le> length (sh_events (task_shard st fw))) \<and>
     (\<forall>fw seq. co_task co = Waiting fw seq \<longrightarrow> co_stream co = []) \<and>
     (co_task co = No_Task \<and> \<not> co_left co \<longrightarrow> co_stream co = []) \<and>
     stream_numbered co"

definition gateway_ok :: "gateway \<Rightarrow> bool" where
  "gateway_ok g \<longleftrightarrow>
     wf_inner (gw_inner g) \<and> sessions_ok (gw_inner g) \<and> stream_ok (gw_inner g) \<and>
     all_shards (gw_inner g) \<and>
     map sh_id (shards (gw_inner g)) = map of_nat [0..<unat (shard_count (gw_inner g))] \<and>
     wf_registry (gw_registry g) \<and> hm_wf (gw_conns g) \<and>
     (\<forall>k co. hm_get (gw_conns g) k = Some co \<longrightarrow> connection_ok (gw_inner g) co) \<and>
     (\<forall>c. connection_count (gw_inner g) c = live_count (gw_conns g) c)"

lemma gateway_okI:
  "\<lbrakk>wf_inner (gw_inner g); sessions_ok (gw_inner g); stream_ok (gw_inner g); all_shards (gw_inner g);
    map sh_id (shards (gw_inner g)) = map of_nat [0..<unat (shard_count (gw_inner g))];
    wf_registry (gw_registry g); hm_wf (gw_conns g);
    \<And>k co. hm_get (gw_conns g) k = Some co \<Longrightarrow> connection_ok (gw_inner g) co;
    \<And>c. connection_count (gw_inner g) c = live_count (gw_conns g) c\<rbrakk> \<Longrightarrow> gateway_ok g"
  by (simp add: gateway_ok_def)

lemma gateway_okD:
  assumes "gateway_ok g"
  shows "wf_inner (gw_inner g)" "sessions_ok (gw_inner g)" "stream_ok (gw_inner g)"
    "all_shards (gw_inner g)"
    "map sh_id (shards (gw_inner g)) = map of_nat [0..<unat (shard_count (gw_inner g))]"
    "wf_registry (gw_registry g)" "hm_wf (gw_conns g)"
    "hm_get (gw_conns g) k = Some co \<Longrightarrow> connection_ok (gw_inner g) co"
    "connection_count (gw_inner g) c = live_count (gw_conns g) c"
  using assms unfolding gateway_ok_def by blast+

text \<open>Growing shards keep a connection's part of the invariant.\<close>

lemma connection_ok_mono:
  assumes "connection_ok st co" and "length (shards st') = length (shards st)"
    and "\<And>i. i < length (shards st) \<Longrightarrow> length (sh_events (shards st ! i)) \<le> length (sh_events (shards st' ! i))"
  shows "connection_ok st' co"
proof -
  have "pos \<le> length (sh_events (shards st' ! fw_shard fw))" if "co_task co = Live fw seq pos" for fw seq pos
    using assms that by (fastforce simp: connection_ok_def task_shard_def intro: le_trans)
  then show ?thesis using assms(1,2) by (simp add: connection_ok_def task_shard_def)
qed

lemma connection_ok_same: "connection_ok st co \<Longrightarrow> shards st' = shards st \<Longrightarrow> connection_ok st' co"
  by (erule connection_ok_mono) simp_all

lemma all_shards_same:
  "all_shards st \<Longrightarrow> length (shards st') = length (shards st) \<Longrightarrow> shard_count st' = shard_count st \<Longrightarrow>
     sessions st' = sessions st \<Longrightarrow> all_shards st'"
  by (simp add: all_shards_def shard_ids_bound_def)

lemma stream_ok_same:
  "stream_ok st \<Longrightarrow> shards st' = shards st \<Longrightarrow>
     (\<And>c. set (offline_events st' c) \<subseteq> set (offline_events st c)) \<Longrightarrow> stream_ok st'"
  unfolding stream_ok_def by (metis subsetD)

lemma gateway_ok_background:
  assumes "gateway_ok g" and "background (gw_inner g) st'"
  shows "gateway_ok (g\<lparr>gw_inner := st'\<rparr>)"
proof -
  note ok = gateway_okD [OF assms(1)]
  note b = assms(2) [unfolded background_def]
  show ?thesis
  proof (rule gateway_okI, goal_cases)
    case 3
    show ?case using b ok(1) by (simp add: stream_ok_same [OF ok(3)])
  next
    case 4
    show ?case using b by (simp add: all_shards_same [OF ok(4)])
  next
    case (8 k co)
    with b ok(8) show ?case by (auto intro: connection_ok_same)
  next
    case (9 c)
    from b ok(9) show ?case by (simp add: connection_count_def)
  qed (use b ok in \<open>simp_all add: sessions_ok_def gw_registry_def\<close>)
qed

text \<open>A connection is replaced by one that is active for the same client.\<close>

lemma gateway_ok_put:
  assumes "gateway_ok g" and "hm_get (gw_conns g) k = Some co"
    and "co_conn co' = co_conn co" and "connection_ok (gw_inner g) co'"
  shows "gateway_ok (put_connection k co' g)"
proof -
  note ok = gateway_okD [OF assms(1)]
  show ?thesis
  proof (rule gateway_okI, goal_cases)
    case (8 k' co'')
    with ok(8) assms(4) show ?case by (auto simp: put_connection_def hm.get_insert split: if_splits)
  next
    case (9 c)
    show ?case
      using live_count_insert [OF ok(7), of k co' c] ok(9) [of c] assms(2,3)
      by (simp add: put_connection_def counted_def)
  qed (use ok in \<open>simp_all add: put_connection_def gw_registry_def hm.wf_insert\<close>)
qed

section \<open>Every step keeps the invariant\<close>

lemma gateway_ok_accept:
  assumes "gateway_ok g" and "hm_get (gw_conns g) k = None"
  shows "gateway_ok (put_connection k (new_connection now) g)"
proof -
  note ok = gateway_okD [OF assms(1)]
  have new: "connection_ok st (new_connection now)" for st
    by (simp add: connection_ok_def new_connection_def stream_numbered_def) (simp add: new_conn_def)
  have idle: "active_in (co_conn (new_connection now)) c = 0" for c
    by (simp add: new_connection_def new_conn_def active_in_def)
  show ?thesis
  proof (rule gateway_okI, goal_cases)
    case (8 k' co)
    with ok(8) new show ?case by (auto simp: put_connection_def hm.get_insert split: if_splits)
  next
    case (9 c)
    show ?case
      using live_count_insert [OF ok(7), of k "new_connection now" c] ok(9) [of c] assms(2) idle
      by (simp add: put_connection_def)
  qed (use ok in \<open>simp_all add: put_connection_def gw_registry_def hm.wf_insert\<close>)
qed

lemma connection_ok_client:
  assumes co: "connection_ok st co" and running: "\<not> co_left co"
    and step: "client_step en ev (co_conn co) st = Ret (flow, cn', st')" and inv: "flow = Continue \<longrightarrow> conn_ok cn'"
  shows "connection_ok st' (co\<lparr>co_conn := cn', co_left := (flow = Stop),
      co_task := spawn_forward (co_conn co) cn' (co_task co)\<rparr>)"
proof -
  have cn: "conn_ok (co_conn co)" and args: "task_args (co_task co) = map_option fst (cn_forward (co_conn co))"
    using co running by (simp_all add: connection_ok_def)
  from client_step_forward [OF step cn] show ?thesis
  proof
    assume same: "cn_forward cn' = cn_forward (co_conn co)"
    then have "spawn_forward (co_conn co) cn' (co_task co) = co_task co"
      by (simp add: spawn_forward_def split: option.split)
    with co same client_step_core [OF step] inv args running show ?thesis
      by (cases flow) (auto simp: connection_ok_def stream_numbered_def task_shard_def)
  next
    assume "\<exists>fw seq. flow = Continue \<and> cn_forward (co_conn co) = None \<and> cn_forward cn' = Some (fw, seq) \<and>
      fw_shard fw < length (shards st')"
    then obtain fw seq where fw: "flow = Continue" "cn_forward (co_conn co) = None" "cn_forward cn' = Some (fw, seq)"
      "fw_shard fw < length (shards st')" by blast
    then have "conn_ok cn'" using inv by simp
    then have "fw_authorized_guilds fw = None \<longleftrightarrow> fw_client_id fw = None"
      using fw(3) by (auto simp: conn_ok_def split: if_splits)
    note fw = fw this
    with args have "co_task co = No_Task" by (cases "co_task co") simp_all
    with co running have "co_stream co = []" by (simp add: connection_ok_def)
    with fw inv show ?thesis
      by (simp add: connection_ok_def stream_numbered_def spawn_forward_def)
  qed
qed

lemma gateway_ok_client:
  assumes "gateway_ok g" and get: "hm_get (gw_conns g) k = Some co" and running: "\<not> co_left co"
    and step: "client_step en ev (co_conn co) (gw_inner g) = Ret (flow, cn', st')"
  shows "gateway_ok (put_connection k
      (co\<lparr>co_conn := cn', co_left := (flow = Stop),
          co_task := spawn_forward (co_conn co) cn' (co_task co)\<rparr>) (g\<lparr>gw_inner := st'\<rparr>))"
    (is "gateway_ok (put_connection k ?co _)")
proof -
  note ok = gateway_okD [OF assms(1)]
  note co = ok(8) [OF get]
  have cn: "conn_ok (co_conn co)" using co running by (simp add: connection_ok_def)
  note inv = client_step_invariant [OF cn ok(2) ok(1) step]
  note core = client_step_core [OF step]
  have bound: "shard_ids_bound (shard_count (gw_inner g)) (gw_inner g)"
    using ok(4) by (simp add: all_shards_def)
  have count: "connection_count st' c + active_in (co_conn co) c = connection_count (gw_inner g) c + active_in cn' c" for c
    using client_step_count(1) [OF step, of c] client_step_count(2) [OF step]
    by (auto simp: newly_active_def active_in_def)
  note new = connection_ok_client [OF co running step inv(1)]
  show ?thesis
  proof (rule gateway_okI, goal_cases)
    case 3
    show ?case
      using core client_step_buffers [OF step]
      by (simp add: put_connection_def stream_ok_same [OF ok(3)])
  next
    case 4
    show ?case
      using core client_step_bound [OF step ok(1) bound] ok(4)
      by (simp add: put_connection_def all_shards_def)
  next
    case (8 k' co')
    with ok(8) new core show ?case
      by (auto simp: put_connection_def hm.get_insert intro: connection_ok_same split: if_splits)
  next
    case (9 c)
    show ?case
      using live_count_insert [OF ok(7), of k ?co c] ok(9) [of c] count [of c] get
      by (simp add: put_connection_def counted_def)
  qed (use ok inv core in \<open>simp_all add: put_connection_def gw_registry_def hm.wf_insert\<close>)
qed

lemma gateway_ok_teardown:
  assumes "gateway_ok g" and get: "hm_get (gw_conns g) k = Some co"
    and down: "teardown now (co_conn co) (gw_inner g) = (flush, cn', st')"
  shows "gateway_ok (g\<lparr>gw_inner := st', gw_conns := hm_remove k (gw_conns g)\<rparr>)"
proof -
  note ok = gateway_okD [OF assms(1)]
  have st': "st' = (case cn_active_client (co_conn co) of None \<Rightarrow> gw_inner g
      | Some c \<Rightarrow> mark_client_disconnected now c (gw_inner g))"
    using down by (simp add: teardown_def)
  have frame: "shards st' = shards (gw_inner g)" "shard_count st' = shard_count (gw_inner g)"
    "sessions st' = sessions (gw_inner g)" "offline_events st' = offline_events (gw_inner g)"
    by (auto simp: st' mark_client_disconnected_def uncount_connection_def Let_def
        set_voice_owner_disconnected_def offline_events_def fun_eq_iff split: option.split)
  have count: "connection_count st' c = connection_count (gw_inner g) c - active_in (co_conn co) c" for c
    by (auto simp: st' mark_disconnected_count active_in_def split: option.split)
  show ?thesis
  proof (rule gateway_okI, goal_cases)
    case 1
    show ?case using ok(1) by (simp add: st' split: option.split)
  next
    case 3
    show ?case using frame by (simp add: stream_ok_same [OF ok(3)])
  next
    case 4
    show ?case using frame by (simp add: all_shards_same [OF ok(4)])
  next
    case (8 k' co')
    with ok(8) frame show ?case by (auto simp: hm.get_remove intro: connection_ok_same split: if_splits)
  next
    case (9 c)
    show ?case
      using live_count_remove [OF ok(7), of k c] ok(9) [of c] count [of c] get
      by (simp add: counted_def)
  qed (use ok frame in \<open>simp_all add: sessions_ok_def gw_registry_def hm.wf_remove\<close>)
qed

text \<open>The texts of the task.\<close>

lemma stream_numbered_step:
  assumes "stream_numbered co" and "task_seq (co_task co) = Some seq"
    and "numbered_from seq texts" and "task_seq task = Some (last_number seq texts)"
  shows "stream_numbered (co\<lparr>co_task := task, co_stream := co_stream co @ texts\<rparr>)"
  using assms by (simp add: stream_numbered_def numbered_append last_number_append)

lemma replay_numbered:
  assumes "stream_ok st"
  shows "\<exists>texts st'. replay_offline r fw seq st = Ret (texts, last_number seq texts, st') \<and>
    numbered_from seq texts"
proof (cases "fw_client_id fw")
  case None
  then show ?thesis by (simp add: replay_offline_def)
next
  case (Some c)
  have "\<forall>b\<in>set (offline_events st c). scanned (be_payload b) (be_sequence b) (be_guild_id b)"
    using assms by (simp add: stream_ok_def)
  from replay_events_numbered [OF this, of r fw seq] Some show ?thesis
    by (auto simp: replay_offline_def drain_offline_events_for_client_def)
qed

lemma received_numbered:
  assumes "\<And>m. res = Received m \<Longrightarrow> scanned (bm_payload m) (bm_sequence m) (bm_guild_id m)"
  shows "\<exists>texts. forward_received r fw res seq = Ret (texts, last_number seq texts) \<and> numbered_from seq texts"
proof -
  have "\<forall>r' m. (r', Received m) \<in> set [(r, res)] \<longrightarrow> scanned (bm_payload m) (bm_sequence m) (bm_guild_id m)"
    using assms by simp
  from forward_live_numbered [OF this, of fw seq] show ?thesis by auto
qed

lemma stream_ok_received:
  assumes "stream_ok st" and "fw_shard fw < length (shards st)"
    and "pos < length (sh_events (task_shard st fw))"
  shows "scanned (bm_payload (sh_events (task_shard st fw) ! pos))
    (bm_sequence (sh_events (task_shard st fw) ! pos)) (bm_guild_id (sh_events (task_shard st fw) ! pos))"
proof -
  have "sh_events (task_shard st fw) \<in> set (map sh_events (shards st))"
    using assms(2) by (simp add: task_shard_def)
  moreover have "sh_events (task_shard st fw) ! pos \<in> set (sh_events (task_shard st fw))"
    using assms(3) by simp
  ultimately show ?thesis using assms(1) unfolding stream_ok_def by blast
qed

text \<open>A task moves on: the arguments stay, the receiver does not run ahead.\<close>

lemma connection_ok_task:
  assumes "connection_ok st co" and "task_args (co_task co) = Some fw" and "task_args task = Some fw"
    and "stream_numbered (co\<lparr>co_task := task, co_stream := texts\<rparr>)" and "\<nexists>seq. task = Waiting fw seq"
    and "\<And>seq pos. task = Live fw seq pos \<Longrightarrow> pos \<le> length (sh_events (task_shard st fw))"
  shows "connection_ok st (co\<lparr>co_task := task, co_stream := texts\<rparr>)"
  using assms by (cases task) (auto simp: connection_ok_def)

lemma gateway_ok_discord:
  assumes "gateway_ok g" and i: "i < length (shards (gw_inner g))"
    and round: "events tw J cfg now (gw_registry g) down i msg ready (gw_inner g) = Ret (flow, ready', effects, st')"
  shows "gateway_ok (g\<lparr>gw_inner := st', gw_loops := loops\<rparr>)"
proof -
  note ok = gateway_okD [OF assms(1)]
  note f = round_frame_events [OF round, unfolded round_frame_def]
  note ev = round_effects(1) [OF i ok(6) round]
  have len: "length (shards st') = length (shards (gw_inner g))"
    using arg_cong [OF ev, of length] by simp
  have grow: "length (sh_events (shards (gw_inner g) ! j)) \<le> length (sh_events (shards st' ! j))"
    if "j < length (shards (gw_inner g))" for j
  proof -
    have "sh_events (shards st' ! j) = map sh_events (shards st') ! j" using that len by simp
    also have "\<dots> = (if j = i then sh_events (shards (gw_inner g) ! i) @
        broadcast_of_round J (gw_registry g) (gw_inner g) ready msg else sh_events (shards (gw_inner g) ! j))"
      unfolding ev using that i by (auto simp: nth_list_update)
    finally show ?thesis by simp
  qed
  show ?thesis
  proof (rule gateway_okI, goal_cases)
    case 3
    show ?case using stream_ok_round [OF ok(3) i ok(6) round] by simp
  next
    case 4
    show ?case using f len by (simp add: all_shards_same [OF ok(4)])
  next
    case (8 k co)
    with ok(8) len grow show ?case by (auto intro: connection_ok_mono)
  next
    case (9 c)
    show ?case using ok(9) [of c] f by (simp add: connection_count_def)
  qed (use f ok in \<open>simp_all add: sessions_ok_def gw_registry_def\<close>)
qed

lemma sync_step_wf:
  assumes "sync_step l sy sy'" and "wf_registry (sy_registry sy)"
  shows "wf_registry (sy_registry sy')"
  using assms
  by (cases rule: sync_step.cases)
    (auto simp: wf_registry_def write_rows_def enqueue_notification_def on_listener_event_def Let_def
      begin_flush_def finish_flush_def begin_reconcile_def finish_reconcile_def health_check_def
      refresh_clients_by_ids_def split: option.splits)

text \<open>The steps of a forwarding task.\<close>

lemma gateway_ok_greet:
  assumes "gateway_ok g" and get: "hm_get (gw_conns g) k = Some co" and task: "co_task co = Waiting fw seq"
  shows "gateway_ok (put_connection k
    (co\<lparr>co_task := Greeted fw seq', co_greeting := texts, co_first := seq', co_stream := []\<rparr>) g)"
proof (rule gateway_ok_put [OF assms(1) get])
  have co: "connection_ok (gw_inner g) co" using assms(1) get by (simp add: gateway_ok_def)
  with task show "connection_ok (gw_inner g)
      (co\<lparr>co_task := Greeted fw seq', co_greeting := texts, co_first := seq', co_stream := []\<rparr>)"
    by (auto simp: connection_ok_def stream_numbered_def)
qed simp

lemma gateway_ok_replay:
  assumes "gateway_ok g" and get: "hm_get (gw_conns g) k = Some co" and task: "co_task co = Greeted fw seq"
    and replay: "replay_offline (gw_registry g) fw seq (gw_inner g) = Ret (texts, seq', st')"
  shows "gateway_ok (put_connection k
    (co\<lparr>co_task := Replayed fw seq', co_stream := co_stream co @ texts\<rparr>) (g\<lparr>gw_inner := st'\<rparr>))"
proof -
  note b = background_replay [OF replay]
  have g': "gateway_ok (g\<lparr>gw_inner := st'\<rparr>)" by (rule gateway_ok_background [OF assms(1) b])
  have co: "connection_ok (gw_inner g) co" and st: "stream_ok (gw_inner g)"
    using assms(1) get by (simp_all add: gateway_ok_def)
  have n: "seq' = last_number seq texts" "numbered_from seq texts"
    using replay_numbered [OF st, of "gw_registry g" fw seq] replay by auto
  have "stream_numbered (co\<lparr>co_task := Replayed fw seq', co_stream := co_stream co @ texts\<rparr>)"
    using co task n by (intro stream_numbered_step) (auto simp: connection_ok_def)
  then have "connection_ok (gw_inner g) (co\<lparr>co_task := Replayed fw seq', co_stream := co_stream co @ texts\<rparr>)"
    using co task by (intro connection_ok_task) simp_all
  then have "connection_ok st' (co\<lparr>co_task := Replayed fw seq', co_stream := co_stream co @ texts\<rparr>)"
    using b by (auto simp: background_def intro: connection_ok_same)
  with get show ?thesis by (intro gateway_ok_put [OF g']) simp_all
qed

lemma gateway_ok_live:
  assumes "gateway_ok g" and get: "hm_get (gw_conns g) k = Some co"
    and args: "task_args (co_task co) = Some fw" and seq: "task_seq (co_task co) = Some seq"
    and texts: "numbered_from seq texts" "seq' = last_number seq texts"
    and pos: "pos \<le> length (sh_events (task_shard (gw_inner g) fw))"
  shows "gateway_ok (put_connection k
    (co\<lparr>co_task := Live fw seq' pos, co_stream := co_stream co @ texts\<rparr>) g)"
proof (rule gateway_ok_put [OF assms(1) get])
  have co: "connection_ok (gw_inner g) co" using assms(1) get by (simp add: gateway_ok_def)
  then have "stream_numbered (co\<lparr>co_task := Live fw seq' pos, co_stream := co_stream co @ texts\<rparr>)"
    using seq texts by (intro stream_numbered_step) (simp_all add: connection_ok_def)
  with co args pos show "connection_ok (gw_inner g)
      (co\<lparr>co_task := Live fw seq' pos, co_stream := co_stream co @ texts\<rparr>)"
    by (intro connection_ok_task) simp_all
qed simp

lemma gateway_ok_receive:
  assumes "gateway_ok g" and get: "hm_get (gw_conns g) k = Some co" and task: "co_task co = Live fw seq pos"
    and "pos < length (sh_events (task_shard (gw_inner g) fw))"
  shows "\<exists>texts. forward_received (gw_registry g) fw
      (Received (sh_events (task_shard (gw_inner g) fw) ! pos)) seq = Ret (texts, last_number seq texts) \<and>
    numbered_from seq texts"
proof (rule received_numbered)
  have "connection_ok (gw_inner g) co" and st: "stream_ok (gw_inner g)"
    using assms(1) get by (simp_all add: gateway_ok_def)
  with task have "fw_shard fw < length (shards (gw_inner g))" by (simp add: connection_ok_def)
  then show "scanned (bm_payload m) (bm_sequence m) (bm_guild_id m)"
    if "Received (sh_events (task_shard (gw_inner g) fw) ! pos) = Received m" for m
    using that stream_ok_received [OF st _ assms(4)] by auto
qed

text \<open>All steps.\<close>

lemma gateway_step_ok:
  assumes "gateway_step cfg J tw l g g'" and "gateway_ok g"
  shows "gateway_ok g'"
  using assms(1)
proof (cases rule: gateway_step.cases)
  case (accept k now)
  with assms(2) show ?thesis by (simp add: gateway_ok_accept)
next
  case client
  with assms(2) show ?thesis by (auto intro: gateway_ok_client)
next
  case greet
  with assms(2) show ?thesis by (auto intro: gateway_ok_greet)
next
  case replay
  with assms(2) show ?thesis by (auto intro: gateway_ok_replay)
next
  case (subscribe k co fw seq)
  have g': "g' = put_connection k
      (co\<lparr>co_task := Live fw seq (subscribe (task_shard (gw_inner g) fw)), co_stream := co_stream co @ []\<rparr>) g"
    using subscribe(2) by simp
  show ?thesis
    unfolding g'
    by (rule gateway_ok_live [OF assms(2) subscribe(3), where seq = seq])
      (simp_all add: subscribe(4) subscribe_def)
next
  case (receive k co fw seq pos texts seq')
  note r = gateway_ok_receive [OF assms(2) receive(3-5)] receive(6)
  show ?thesis
    unfolding receive(2)
    by (rule gateway_ok_live [OF assms(2) receive(3), where seq = seq]) (use r receive(4,5) in auto)
next
  case (lag k co fw seq pos pos' texts seq')
  have "texts = []" "seq' = seq" using lag(7) by (simp_all add: forward_received_def)
  then show ?thesis
    unfolding lag(2)
    by (intro gateway_ok_live [OF assms(2) lag(3), where seq = seq]) (use lag in simp_all)
next
  case (abort k co)
  have "connection_ok (gw_inner g) co" using gateway_okD(8) [OF assms(2) abort(3)] .
  then have "connection_ok (gw_inner g) (co\<lparr>co_task := No_Task\<rparr>)"
    using abort(4) by (simp add: connection_ok_def stream_numbered_def)
  then show ?thesis unfolding abort(2) by (intro gateway_ok_put [OF assms(2) abort(3)]) simp_all
next
  case teardown
  with assms(2) show ?thesis by (auto intro: gateway_ok_teardown)
next
  case discord
  with assms(2) show ?thesis by (auto intro: gateway_ok_discord)
next
  case sweep
  with assms(2) show ?thesis by (auto intro: gateway_ok_background background_sweep)
next
  case cleanup
  with assms(2) show ?thesis by (auto intro: gateway_ok_background background_cleanup)
next
  case wake
  with assms(2) show ?thesis by (auto intro: gateway_ok_background background_wake)
next
  case (db l sy')
  with assms(2) sync_step_wf [OF db(3)] show ?thesis by (simp add: gateway_ok_def gw_registry_def)
qed

end
