(* ===== verification/System_Safety.thy ===== *)
theory System_Safety
  imports Gateway_Invariant Demo
begin

text \<open>
  The properties of the whole proxy: of every state that the steps of \<open>gateway_step\<close> reach from a
  startup with all shards, whatever the clients, Discord and the database do.
\<close>

section \<open>Reachable states\<close>

definition booted :: "config \<Rightarrow> gateway \<Rightarrow> bool" where
  "booted cfg g \<longleftrightarrow>
     (\<exists>n sy st. total_shards cfg n \<noteq> 0 \<and> shard_range cfg (total_shards cfg n) = (0, total_shards cfg n) \<and>
        initial_state cfg n = Ret st \<and> wf_registry (sy_registry sy) \<and> g = gateway_boot sy st)"

definition reachable :: "config \<Rightarrow> json_lib \<Rightarrow> 'e twilight \<Rightarrow> gateway \<Rightarrow> bool" where
  "reachable cfg J tw g \<longleftrightarrow> (\<exists>g0 ls. booted cfg g0 \<and> trace (gateway_step cfg J tw) ls g0 g)"

lemma traverse_Ret_all: "traverse f xs = Ret ys \<Longrightarrow> x \<in> set xs \<Longrightarrow> \<exists>y. f x = Ret y"
  by (induction xs arbitrary: ys) auto

lemma initial_state_backpressure:
  assumes "initial_state cfg n = Ret st" and "shard_range cfg (total_shards cfg n) = (0, total_shards cfg n)"
    and "total_shards cfg n \<noteq> 0"
  shows "backpressure_ok cfg"
proof -
  let ?n = "total_shards cfg n"
  obtain shs where "traverse (create_shard cfg ?n) (range_u32 0 ?n) = Ret shs"
    using assms(1,2) by (auto simp: initial_state_def Let_def)
  moreover have "0 \<in> set (range_u32 0 ?n)"
    using assms(3) by (auto simp: range_u32_all image_iff unat_gt_0 intro: bexI [of _ 0])
  ultimately obtain sh where "create_shard cfg ?n 0 = Ret sh" using traverse_Ret_all by fast
  then show ?thesis by (simp add: create_shard_Ret)
qed

lemma booted_ok:
  assumes "booted cfg g"
  shows "gateway_ok g"
proof -
  from assms obtain n sy st where n: "total_shards cfg n \<noteq> 0"
      "shard_range cfg (total_shards cfg n) = (0, total_shards cfg n)" "initial_state cfg n = Ret st"
    and g: "wf_registry (sy_registry sy)" "g = gateway_boot sy st"
    by (auto simp: booted_def)
  have "snd (shard_range cfg (total_shards cfg n)) \<le> total_shards cfg n" by (simp add: n(2))
  from initial_state_Ret [OF initial_state_backpressure [OF n(3,2,1)] this] n
  have st: "shard_count st = total_shards cfg n" "sessions st = []" "wf_inner st" "stream_ok st"
      "\<And>c. connection_count st c = 0"
    and ids: "map sh_id (shards st) = map of_nat [0..<unat (shard_count st)]"
    by (auto simp: range_u32_all)
  have "length (shards st) = unat (shard_count st)" using arg_cong [OF ids, of length] by simp
  then have all: "all_shards st" using n(1) st(1,2) by (simp add: all_shards_def shard_ids_bound_def hm_get_def)
  show ?thesis
  proof (rule gateway_okI, goal_cases)
    case 5
    show ?case using ids by (simp add: g gateway_boot_def)
  next
    case (8 k co)
    then show ?case by (simp add: g gateway_boot_def hm_get_def)
  next
    case (9 c)
    show ?case using st(5) by (simp add: g gateway_boot_def live_count_def)
  qed (use st all g in \<open>simp_all add: gateway_boot_def gw_registry_def sessions_ok_def hm_wf_def hm_get_def\<close>)
qed

interpretation proxy: invariant_system "gateway_step cfg J tw" "\<lambda>_. True" gateway_ok for cfg J tw
  by unfold_locales (erule gateway_step_ok)

lemma reachable_ok: "reachable cfg J tw g \<Longrightarrow> gateway_ok g"
  unfolding reachable_def by (elim exE conjE) (rule proxy.trace_inv, assumption, simp, erule booted_ok)

lemma reachable_step: "reachable cfg J tw g \<Longrightarrow> gateway_step cfg J tw l g g' \<Longrightarrow> reachable cfg J tw g'"
  unfolding reachable_def
  by (elim exE conjE, rename_tac g0 ls)
    (rule_tac x = g0 in exI, rule_tac x = "ls @ [l]" in exI, auto simp: trace_append)

section \<open>An executable scheduler\<close>

text \<open>Runs the step a label names, at time 0 with the session ids \<open>rnd\<close>, where it is possible.\<close>

definition run_env :: "config \<Rightarrow> json_lib \<Rightarrow> (nat \<Rightarrow> string) \<Rightarrow> gateway \<Rightarrow> env" where
  "run_env cfg J rnd g =
     \<lparr>en_json = J, en_config = cfg, en_registry = gw_registry g, en_now = 0, en_random = rnd\<rparr>"

fun run_task :: "json_lib \<Rightarrow> gateway_label \<Rightarrow> connection \<Rightarrow> gateway \<Rightarrow> gateway option" where
  "run_task J (Greet k) co g =
     (case co_task co of
        Waiting fw seq \<Rightarrow>
          (case sh_ready (task_shard (gw_inner g) fw) of
             None \<Rightarrow> None
           | Some ready \<Rightarrow>
               (case greeting J fw ready (sh_guilds (task_shard (gw_inner g) fw)) seq of
                  Ret (texts, seq') \<Rightarrow> Some (put_connection k
                    (co\<lparr>co_task := Greeted fw seq', co_greeting := texts, co_first := seq', co_stream := []\<rparr>) g)
                | _ \<Rightarrow> None))
      | _ \<Rightarrow> None)"
| "run_task J (Replay k) co g =
     (case co_task co of
        Greeted fw seq \<Rightarrow>
          (case replay_offline (gw_registry g) fw seq (gw_inner g) of
             Ret (texts, seq', st') \<Rightarrow> Some (put_connection k
               (co\<lparr>co_task := Replayed fw seq', co_stream := co_stream co @ texts\<rparr>) (g\<lparr>gw_inner := st'\<rparr>))
           | _ \<Rightarrow> None)
      | _ \<Rightarrow> None)"
| "run_task J (Subscribe k) co g =
     (case co_task co of
        Replayed fw seq \<Rightarrow>
          Some (put_connection k (co\<lparr>co_task := Live fw seq (subscribe (task_shard (gw_inner g) fw))\<rparr>) g)
      | _ \<Rightarrow> None)"
| "run_task J (Receive k) co g =
     (case co_task co of
        Live fw seq pos \<Rightarrow>
          if pos < length (sh_events (task_shard (gw_inner g) fw))
          then
            (case forward_received (gw_registry g) fw
                (Received (sh_events (task_shard (gw_inner g) fw) ! pos)) seq of
               Ret (texts, seq') \<Rightarrow> Some (put_connection k
                 (co\<lparr>co_task := Live fw seq' (pos + 1), co_stream := co_stream co @ texts\<rparr>) g)
             | _ \<Rightarrow> None)
          else None
      | _ \<Rightarrow> None)"
| "run_task J l co g = None"

fun label_conn :: "gateway_label \<Rightarrow> nat option" where
  "label_conn (Greet k) = Some k"
| "label_conn (Replay k) = Some k"
| "label_conn (Subscribe k) = Some k"
| "label_conn (Receive k) = Some k"
| "label_conn l = None"

fun run_label ::
  "config \<Rightarrow> json_lib \<Rightarrow> 'e twilight \<Rightarrow> (nat \<Rightarrow> string) \<Rightarrow> gateway_label \<Rightarrow> gateway \<Rightarrow> gateway option" where
  "run_label cfg J tw rnd (Accept k) g =
     (if hm_get (gw_conns g) k = None then Some (put_connection k (new_connection 0) g) else None)"
| "run_label cfg J tw rnd (Client k ev) g =
     (case hm_get (gw_conns g) k of
        None \<Rightarrow> None
      | Some co \<Rightarrow>
          if co_left co then None
          else
            (case client_step (run_env cfg J rnd g) ev (co_conn co) (gw_inner g) of
               Ret (flow, cn', st') \<Rightarrow> Some (put_connection k
                 (co\<lparr>co_conn := cn', co_left := (flow = Stop),
                     co_task := spawn_forward (co_conn co) cn' (co_task co)\<rparr>) (g\<lparr>gw_inner := st'\<rparr>))
             | _ \<Rightarrow> None))"
| "run_label cfg J tw rnd (Discord i msg) g =
     (case gw_loops g i of
        None \<Rightarrow> None
      | Some ready \<Rightarrow>
          if i < length (shards (gw_inner g))
          then
            (case events tw J cfg 0 (gw_registry g) False i msg ready (gw_inner g) of
               Ret (flow, ready', effects, st') \<Rightarrow>
                 Some (g\<lparr>gw_inner := st', gw_loops := (gw_loops g)(i := if flow = Stop then None else Some ready')\<rparr>)
             | _ \<Rightarrow> None)
          else None)"
| "run_label cfg J tw rnd l g =
     (case label_conn l of
        None \<Rightarrow> None
      | Some k \<Rightarrow> (case hm_get (gw_conns g) k of None \<Rightarrow> None | Some co \<Rightarrow> run_task J l co g))"

fun run_labels ::
  "config \<Rightarrow> json_lib \<Rightarrow> 'e twilight \<Rightarrow> (nat \<Rightarrow> string) \<Rightarrow> gateway_label list \<Rightarrow> gateway \<Rightarrow> gateway option" where
  "run_labels cfg J tw rnd [] g = Some g"
| "run_labels cfg J tw rnd (l # ls) g = Option.bind (run_label cfg J tw rnd l g) (run_labels cfg J tw rnd ls)"

lemma run_task_sound:
  assumes "run_task J l co g = Some g'" and "label_conn l = Some k" and "hm_get (gw_conns g) k = Some co"
  shows "gateway_step cfg J tw l g g'"
  using assms
  by (cases l)
    (auto split: forward_task.splits option.splits outcome.splits if_splits
      intro: gateway_step.greet gateway_step.replay gateway_step.subscribe
        gateway_step.receive [unfolded Suc_eq_plus1 [symmetric]])

lemma run_label_sound:
  assumes "run_label cfg J tw rnd l g = Some g'"
  shows "gateway_step cfg J tw l g g'"
proof -
  have client: "gateway_step cfg J tw (Client k ev) g g'"
    if "run_label cfg J tw rnd (Client k ev) g = Some g'" for k ev
    using that
    by (auto split: option.splits outcome.splits if_splits
        intro!: gateway_step.client [where en = "run_env cfg J rnd g"] simp: run_env_def)
  show ?thesis
    using assms client
    by (cases l)
      (auto split: option.splits outcome.splits if_splits
        intro: run_task_sound gateway_step.accept gateway_step.discord)
qed

lemma run_labels_sound: "run_labels cfg J tw rnd ls g = Some g' \<Longrightarrow> trace (gateway_step cfg J tw) ls g g'"
  by (induction ls arbitrary: g) (auto simp: Option.bind_eq_Some_conv intro: run_label_sound)

section \<open>A run of the demo proxy\<close>

text \<open>
  Two shards; client \<open>a\<close>, authorized for guild 7, connects and identifies, shard 0 gets READY and a
  message of guild 7, which the client is sent.
\<close>

definition run_json :: json_lib where
  "run_json =
     demo_json\<lparr>parse_identify := (\<lambda>_. Some \<lparr>idf_compress = None, idf_shard = (0, 2), idf_token = ''a:sa''\<rparr>)\<rparr>"

definition run_twilight :: "unit twilight" where
  "run_twilight = \<lparr>tw_parse = (\<lambda>_ _. Inr None), tw_update = (\<lambda>_ gc. gc)\<rparr>"

definition run_sync :: sync where
  "run_sync =
     \<lparr>sy_rows = [], sy_queue = [], sy_dirty = {}, sy_should_full_reconcile = False, sy_query = None,
      sy_registry = demo_registry\<rparr>"

definition run_boot :: gateway where
  "run_boot = gateway_boot run_sync
     (case initial_state demo_config 2 of Ret st \<Rightarrow> st | _ \<Rightarrow> demo_inner)"

definition run_message :: string where
  "run_message = ''{\"t\":\"MESSAGE_CREATE\",\"s\":5,\"op\":0,\"d\":{\"guild_id\":\"7\"}}''"

definition run_start :: "gateway_label list" where
  "run_start =
     [Discord 0 (MsgText ''{\"t\":\"READY\",\"s\":1,\"op\":0,\"d\":{}}''),
      Accept 0, Client 0 (ClientText ''{\"op\":2,\"d\":{}}''), Greet 0, Replay 0, Subscribe 0]"

definition run_live :: gateway where
  "run_live =
     (case run_labels demo_config run_json run_twilight (\<lambda>_. ''sid'') run_start run_boot of
        Some g \<Rightarrow> g | None \<Rightarrow> run_boot)"

definition run_sent :: gateway where
  "run_sent =
     (case run_labels demo_config run_json run_twilight (\<lambda>_. ''sid'')
        [Discord 0 (MsgText run_message), Receive 0] run_live of
        Some g \<Rightarrow> g | None \<Rightarrow> run_boot)"

lemma run_booted: "booted demo_config run_boot"
proof -
  have "\<exists>st. initial_state demo_config 2 = Ret st"
    using initial_state_Ret [of demo_config 2]
    by (auto simp: backpressure_ok_def demo_config_def total_shards_def shard_range_def)
  then show ?thesis
    unfolding booted_def run_boot_def
    by (intro exI [of _ 2] exI [of _ run_sync])
      (auto simp: demo_config_def total_shards_def shard_range_def run_sync_def)
qed

lemma run_live_trace: "trace (gateway_step demo_config run_json run_twilight) run_start run_boot run_live"
proof (rule run_labels_sound)
  have "run_labels demo_config run_json run_twilight (\<lambda>_. ''sid'') run_start run_boot \<noteq> None" by code_simp
  then show "run_labels demo_config run_json run_twilight (\<lambda>_. ''sid'') run_start run_boot = Some run_live"
    by (auto simp: run_live_def)
qed

lemma run_live_reachable: "reachable demo_config run_json run_twilight run_live"
  unfolding reachable_def using run_booted run_live_trace by blast

lemma run_sent_steps:
  "\<exists>m. gateway_step demo_config run_json run_twilight (Discord 0 (MsgText run_message)) run_live m \<and>
     gateway_step demo_config run_json run_twilight (Receive 0) m run_sent"
proof -
  have "run_labels demo_config run_json run_twilight (\<lambda>_. ''sid'') [Discord 0 (MsgText run_message), Receive 0] run_live
      \<noteq> None" by code_simp
  then have "run_labels demo_config run_json run_twilight (\<lambda>_. ''sid'') [Discord 0 (MsgText run_message), Receive 0] run_live
      = Some run_sent" by (auto simp: run_sent_def simp del: run_labels.simps)
  from run_labels_sound [OF this] show ?thesis by auto
qed

section \<open>Properties\<close>

lemma list_all2_in_right: "list_all2 P xs ys \<Longrightarrow> y \<in> set ys \<Longrightarrow> \<exists>x\<in>set xs. P x y"
  by (induction rule: list_all2_induct) auto

text \<open>What a step adds to the texts of a task.\<close>

lemma gateway_step_stream:
  assumes "gateway_step cfg J tw l g g'" and "hm_get (gw_conns g) k = Some co"
    and "hm_get (gw_conns g') k = Some co'" and "t \<in> set (drop (length (co_stream co)) (co_stream co'))"
  obtains (replay) fw seq texts seq' st' where "co_task co = Greeted fw seq"
      and "replay_offline (gw_registry g) fw seq (gw_inner g) = Ret (texts, seq', st')" and "t \<in> set texts"
    | (receive) fw seq pos texts seq' where "co_task co = Live fw seq pos"
      and "pos < length (sh_events (task_shard (gw_inner g) fw))"
      and "forward_received (gw_registry g) fw
        (Received (sh_events (task_shard (gw_inner g) fw) ! pos)) seq = Ret (texts, seq')" and "t \<in> set texts"
  using assms(1)
proof (cases rule: gateway_step.cases)
  case (replay k' co1 fw seq texts seq' st')
  then show thesis
    using assms(2-4) that(1) by (auto simp: put_connection_def hm.get_insert split: if_splits)
next
  case (receive k' co1 fw seq pos texts seq')
  then show thesis
    using assms(2-4) that(2) by (auto simp: put_connection_def hm.get_insert split: if_splits)
next
  case (lag k' co1 fw seq pos pos' texts seq')
  then show thesis
    using assms(2-4) by (auto simp: put_connection_def hm.get_insert forward_received_def split: if_splits)
qed (use assms(2-4) in \<open>auto simp: put_connection_def hm.get_insert hm.get_remove split: if_splits\<close>)

text \<open>C1: no tenant sees another tenant's guild. Whatever the clients, Discord and the database did
  before: a text that a step of the proxy adds to the stream of a multi-tenant client's connection
  is, up to its sequence number, an event from Discord whose own text names a guild that the client
  is authorized for in the registry of that moment.\<close>

theorem gateway_stream_confined:
  assumes "reachable cfg J tw g" and "gateway_step cfg J tw l g g'"
    and "hm_get (gw_conns g) k = Some co" and "hm_get (gw_conns g') k = Some co'"
    and "task_args (co_task co) = Some fw" and "fw_client_id fw = Some c"
    and "t \<in> set (drop (length (co_stream co)) (co_stream co'))"
  shows "\<exists>p e guild. from_json p = Some e \<and> same_but_sequence p t \<and> ge_guild_id e = Some guild \<and>
    client_has_guild (gw_registry g) c guild"
proof -
  note ok = gateway_okD [OF reachable_ok [OF assms(1)]]
  have co: "connection_ok (gw_inner g) co" using ok(8) assms(3) .
  then have auth: "fw_authorized_guilds fw \<noteq> None" and shard: "fw_shard fw < length (shards (gw_inner g))"
    using assms(5,6) by (simp_all add: connection_ok_def)
  show ?thesis
    using assms(2,3,4,7)
  proof (cases rule: gateway_step_stream)
    case (replay fw' seq texts seq' st')
    then have fw: "fw' = fw" using assms(5) by simp
    have buffer: "\<forall>b\<in>set (offline_events (gw_inner g) c). scanned (be_payload b) (be_sequence b) (be_guild_id b)"
      using ok(3) by (simp add: stream_ok_def)
    obtain ts where "replay_events (gw_registry g) fw (offline_events (gw_inner g) c) seq = Ret (ts, last_number seq ts)"
      and all: "list_all2 (\<lambda>b t. same_but_sequence (be_payload b) t)
        (filter (replays (gw_registry g) fw) (offline_events (gw_inner g) c)) ts"
      using replay_events_numbered [OF buffer, of "gw_registry g" fw seq] by blast
    then have "t \<in> set ts"
      using replay(2,3) fw assms(6)
      by (auto simp: replay_offline_def drain_offline_events_for_client_def)
    then obtain b where "b \<in> set (offline_events (gw_inner g) c)" "replays (gw_registry g) fw b"
      "same_but_sequence (be_payload b) t"
      using list_all2_in_right [OF all] by auto
    with buffer replays_tenant [OF _ auth assms(6)] show ?thesis unfolding scanned_def by metis
  next
    case (receive fw' seq pos texts seq')
    then have fw: "fw' = fw" using assms(5) by simp
    let ?m = "sh_events (task_shard (gw_inner g) fw) ! pos"
    have m: "scanned (bm_payload ?m) (bm_sequence ?m) (bm_guild_id ?m)"
      using stream_ok_received [OF ok(3) shard] receive(2) fw by simp
    have passes: "forwards (gw_registry g) fw ?m"
      using receive(3,4) fw by (auto simp: forward_received_def split: if_splits)
    obtain u where "overwrite_sequence seq (bm_payload ?m) (bm_sequence ?m) = Ret (u, last_number seq [u])"
      "same_but_sequence (bm_payload ?m) u"
      using overwrite_scanned [OF scanned_sequence [OF m], of seq] by blast
    then have "same_but_sequence (bm_payload ?m) t"
      using receive(3,4) fw passes by (auto simp: forward_received_def)
    with m forwards_tenant [OF passes auth assms(6)] show ?thesis unfolding scanned_def by metis
  qed
qed

theorem gateway_stream_confined_witness:
  "\<exists>m co co' t. gateway_step demo_config run_json run_twilight (Receive 0) m run_sent \<and>
     hm_get (gw_conns m) 0 = Some co \<and> hm_get (gw_conns run_sent) 0 = Some co' \<and>
     t \<in> set (drop (length (co_stream co)) (co_stream co')) \<and>
     (\<exists>p guild e. same_but_sequence p t \<and> from_json p = Some e \<and> ge_guild_id e = Some guild \<and>
       client_has_guild (gw_registry m) ''a'' guild)"
proof -
  obtain m where steps: "gateway_step demo_config run_json run_twilight (Discord 0 (MsgText run_message)) run_live m"
    "gateway_step demo_config run_json run_twilight (Receive 0) m run_sent" using run_sent_steps by blast
  have r: "reachable demo_config run_json run_twilight m" by (rule reachable_step [OF run_live_reachable steps(1)])
  have "case hm_get (gw_conns run_live) 0 of Some co \<Rightarrow> co_stream co = [] \<and>
      (case task_args (co_task co) of Some fw \<Rightarrow> fw_client_id fw = Some ''a'' | None \<Rightarrow> False) | None \<Rightarrow> False"
    by code_simp
  moreover have "gw_conns m = gw_conns run_live" using steps(1) by (cases rule: gateway_step.cases) simp_all
  ultimately obtain co fw where co: "hm_get (gw_conns m) 0 = Some co" "co_stream co = []"
    "task_args (co_task co) = Some fw" "fw_client_id fw = Some ''a''" by (auto split: option.splits)
  have "case hm_get (gw_conns run_sent) 0 of Some co \<Rightarrow> co_stream co \<noteq> [] | None \<Rightarrow> False" by code_simp
  then obtain co' t where co': "hm_get (gw_conns run_sent) 0 = Some co'" "t \<in> set (co_stream co')"
    by (auto split: option.splits) (metis list.set_intros(1) neq_Nil_conv)
  have t: "t \<in> set (drop (length (co_stream co)) (co_stream co'))" using co(2) co'(2) by simp
  from gateway_stream_confined [OF r steps(2) co(1) co'(1) co(3,4) t] steps(2) co(1) co'(1) t
  show ?thesis by blast
qed

text \<open>C2: the state of the whole proxy. However its tasks interleave: every running connection is either
  not authenticated at all or acts for one client everywhere; the number of live connections the
  proxy keeps for a client is the number of connections that are active for it and not yet torn
  down; everything broadcast or buffered carries the ids its own text has; and what a forwarding
  task has written since its greeting is numbered without a gap up to its sequence number.\<close>

theorem gateway_invariant:
  assumes "reachable cfg J tw g"
  shows "(\<forall>k co. hm_get (gw_conns g) k = Some co \<and> \<not> co_left co \<longrightarrow> conn_ok (co_conn co)) \<and>
    sessions_ok (gw_inner g) \<and> all_shards (gw_inner g) \<and> stream_ok (gw_inner g) \<and>
    (\<forall>c. connection_count (gw_inner g) c =
      length (filter (\<lambda>(k, co). cn_active_client (co_conn co) = Some c) (gw_conns g))) \<and>
    (\<forall>k co seq. hm_get (gw_conns g) k = Some co \<and> task_seq (co_task co) = Some seq \<longrightarrow>
      numbered_from (co_first co) (co_stream co) \<and> last_number (co_first co) (co_stream co) = seq)"
proof -
  note ok = gateway_okD [OF reachable_ok [OF assms]]
  have "live_count m c = length (filter (\<lambda>(k, co). cn_active_client (co_conn co) = Some c) m)" for m c
    by (induction m) (auto simp: live_count_def active_in_def)
  with ok(9) have "\<forall>c. connection_count (gw_inner g) c =
      length (filter (\<lambda>(k, co). cn_active_client (co_conn co) = Some c) (gw_conns g))" by simp
  with ok(2-4,8) show ?thesis by (auto simp: connection_ok_def stream_numbered_def)
qed

theorem gateway_invariant_witness:
  "connection_count (gw_inner run_sent) ''a'' = 1"
proof -
  obtain m where "gateway_step demo_config run_json run_twilight (Discord 0 (MsgText run_message)) run_live m"
    "gateway_step demo_config run_json run_twilight (Receive 0) m run_sent" using run_sent_steps by blast
  then have "reachable demo_config run_json run_twilight run_sent"
    by (blast intro: reachable_step run_live_reachable)
  moreover have "length (filter (\<lambda>(k, co). cn_active_client (co_conn co) = Some ''a'') (gw_conns run_sent)) = 1"
    by code_simp
  ultimately show ?thesis using gateway_invariant [of demo_config run_json run_twilight run_sent] by simp
qed

text \<open>C3: nothing a client does stops the proxy. With all shards, in every state the proxy can reach,
  whatever a client sends is handled (if the random generator yields an unused session id), every
  forwarding task can replay and forward what it has, and the voice sweeper runs through.\<close>

theorem gateway_never_panics:
  assumes "reachable cfg J tw g"
  shows "(\<forall>k co en ev j. hm_get (gw_conns g) k = Some co \<and> \<not> co_left co \<and>
        hm_get (sessions (gw_inner g)) (en_random en j) = None \<longrightarrow>
        (\<exists>x. client_step en ev (co_conn co) (gw_inner g) = Ret x)) \<and>
    (\<forall>k co fw seq. hm_get (gw_conns g) k = Some co \<and> co_task co = Greeted fw seq \<longrightarrow>
        (\<exists>x. replay_offline (gw_registry g) fw seq (gw_inner g) = Ret x)) \<and>
    (\<forall>k co fw seq pos. hm_get (gw_conns g) k = Some co \<and> co_task co = Live fw seq pos \<and>
        pos < length (sh_events (task_shard (gw_inner g) fw)) \<longrightarrow>
        (\<exists>x. forward_received (gw_registry g) fw (Received (sh_events (task_shard (gw_inner g) fw) ! pos)) seq = Ret x)) \<and>
    (\<forall>now. \<exists>st'. voice_sweeper_tick cfg now (gw_registry g) (gw_inner g) = Ret st')"
proof -
  note g = reachable_ok [OF assms]
  note ok = gateway_okD [OF g]
  have n: "shard_count (gw_inner g) \<noteq> 0" using ok(4) by (simp add: all_shards_def)
  have "\<exists>x. client_step en ev cn (gw_inner g) = Ret x"
    if "hm_get (sessions (gw_inner g)) (en_random en j) = None" for en ev cn j
    using client_step_returns [OF ok(4,1) that] by blast
  moreover have "\<exists>x. replay_offline (gw_registry g) fw seq (gw_inner g) = Ret x" for fw seq
    using replay_numbered [OF ok(3)] by blast
  moreover have "\<exists>x. forward_received (gw_registry g) fw (Received (sh_events (task_shard (gw_inner g) fw) ! pos)) seq = Ret x"
    if "hm_get (gw_conns g) k = Some co" "co_task co = Live fw seq pos"
      "pos < length (sh_events (task_shard (gw_inner g) fw))" for k co fw seq pos
    using gateway_ok_receive [OF g that] by blast
  moreover have "\<exists>st'. voice_sweeper_tick cfg now (gw_registry g) (gw_inner g) = Ret st'" for now
    by (rule voice_sweeper_returns [OF n])
  ultimately show ?thesis by blast
qed

theorem gateway_never_panics_witness:
  "\<exists>co x. hm_get (gw_conns run_live) 0 = Some co \<and>
     client_step (run_env demo_config run_json (\<lambda>_. ''other'') run_live) (ClientText ''{\"op\":4,\"d\":{}}'')
       (co_conn co) (gw_inner run_live) = Ret x"
proof -
  have "case hm_get (gw_conns run_live) 0 of Some co \<Rightarrow> \<not> co_left co | None \<Rightarrow> False" by code_simp
  then obtain co where co: "hm_get (gw_conns run_live) 0 = Some co" "\<not> co_left co" by (auto split: option.splits)
  have "hm_get (sessions (gw_inner run_live)) ''other'' = None" by code_simp
  then have "hm_get (sessions (gw_inner run_live)) (en_random (run_env demo_config run_json (\<lambda>_. ''other'') run_live) 0) = None"
    by (simp add: run_env_def)
  with gateway_never_panics [OF run_live_reachable] co show ?thesis by blast
qed



section \<open>Startup\<close>


end
