(* ===== verification/Source_Tests.thy ===== *)
theory Source_Tests
  imports Rest_Routes Commands Db_Config
begin

text \<open>
  The unit tests of the repository, on the model: each assertion of the \<open>tests\<close> modules of
  \<open>rest_proxy.rs\<close>, \<open>state.rs\<close>, \<open>deserializer.rs\<close>, \<open>db_config.rs\<close> and \<open>server.rs\<close> holds of the definition that
  models the tested function. Where a test goes through the JSON library, what the library gives for
  the test's text is filled in.
\<close>

section \<open>A printer\<close>

text \<open>The text that a JSON library writes, without escapes, which the tests do not need.\<close>

definition quoted :: "string \<Rightarrow> string" where "quoted s = [CHR 0x22] @ s @ [CHR 0x22]"

fun separated :: "string list \<Rightarrow> string" where
  "separated [] = []"
| "separated [s] = s"
| "separated (s # t # ss) = s @ '','' @ separated (t # ss)"

fun show_json :: "json \<Rightarrow> string" where
  "show_json JNull = ''null''"
| "show_json (JBool b) = (if b then ''true'' else ''false'')"
| "show_json (JInt i) = format_uint (word_of_int i :: u64)"
| "show_json (JFloat s) = s"
| "show_json (JStr s) = quoted s"
| "show_json (JArr js) = ''['' @ separated (map show_json js) @ '']''"
| "show_json (JObj obj) = ''{'' @ separated (map (\<lambda>(k, v). quoted k @ '':'' @ show_json v) obj) @ ''}''"

definition test_json :: json_lib where
  "test_json =
     \<lparr>parse_identify = (\<lambda>_. None), parse_resume = (\<lambda>_. None), parse_request_guild_members = (\<lambda>_. None),
      parse_voice_state_update = (\<lambda>_. None), parse_ready = (\<lambda>_. None), parse_ready_user = (\<lambda>_. None),
      parse_voice_state_event = (\<lambda>_. None), parse_object_keys = (\<lambda>_. None),
      parse_value = (\<lambda>_. None), to_json_string = (\<lambda>j. Some (show_json j))\<rparr>"

section \<open>\<open>rest_proxy.rs\<close>\<close>

lemma rejects_paths_the_upstream_client_would_rewrite:
  "is_canonical_path ''/api/v10/guilds/1/channels''"
  "is_canonical_path ''/api/v10/users/@me''"
  "\<not> is_canonical_path ''/api/v10/guilds/1/../../users/@me/guilds''"
  "\<not> is_canonical_path ''/api/v10/guilds/1/%2e%2e/%2E%2e/users/@me/guilds''"
  "\<not> is_canonical_path ''/api/v10/guilds/1/./channels''"
  "\<not> is_canonical_path ''/api/v10/guilds/1%2f..%2fusers/@me''"
  "\<not> is_canonical_path ''/api/v10/guilds/1%5cchannels''"
  "\<not> is_canonical_path ''/api/v10//users/@me''"
  "\<not> is_canonical_path ''/api/v10/guilds/1/channels/''"
  "\<not> is_canonical_path ''/api/v10/guilds/%zz''"
  by code_simp+

lemma global_routes_are_exact_and_read_only:
  "is_client_authorized_for_route {1} (resolve_route_scope ''/api/v10/users/@me'') ''GET''"
  "is_client_authorized_for_route {1} (resolve_route_scope ''/api/v10/gateway/bot'') ''GET''"
  "\<not> is_client_authorized_for_route {1} (resolve_route_scope ''/api/v10/users/@me'') ''PATCH''"
  "\<not> is_client_authorized_for_route {1} (resolve_route_scope ''/api/v10/users/@me/guilds'') ''GET''"
  "\<not> is_client_authorized_for_route {1} (resolve_route_scope ''/api/v10/users/@me/guilds/2'') ''DELETE''"
  "\<not> is_client_authorized_for_route {1} (resolve_route_scope ''/api/v10/users/@me/channels'') ''POST''"
  "\<not> is_client_authorized_for_route {1} (resolve_route_scope ''/api/v10/gateway/bot/extra'') ''GET''"
  by code_simp+

text \<open>\<open>parse_object_keys\<close> gives the keys of the test's body, \<^term>\<open>None\<close> for a body that is no object.\<close>

definition keys_json :: "string set option \<Rightarrow> json_lib" where
  "keys_json keys = test_json\<lparr>parse_object_keys := (\<lambda>_. keys)\<rparr>"

lemma finds_requests_that_change_the_bot_voice_state:
  "bot_voice_change_guild (keys_json (Some {''channel_id''})) ''PATCH'' ''/api/v10/guilds/7/members/42'' ''{\"channel_id\":\"9\"}'' (Some 42) = Some 7"
  "bot_voice_change_guild (keys_json (Some {''mute''})) ''PATCH'' ''/api/v10/guilds/7/members/42'' ''{\"mute\":true}'' (Some 42) = Some 7"
  "bot_voice_change_guild (keys_json None) ''PATCH'' ''/api/v10/guilds/7/members/42'' ''not json'' (Some 42) = Some 7"
  "bot_voice_change_guild (keys_json (Some {''suppress''})) ''PATCH'' ''/api/v10/guilds/7/voice-states/@me'' ''{\"suppress\":false}'' (Some 42) = Some 7"
  "bot_voice_change_guild (keys_json (Some {''nick''})) ''PATCH'' ''/api/v10/guilds/7/members/42'' ''{\"nick\":\"bot\"}'' (Some 42) = None"
  "bot_voice_change_guild (keys_json (Some {''channel_id''})) ''PATCH'' ''/api/v10/guilds/7/members/43'' ''{\"channel_id\":\"9\"}'' (Some 42) = None"
  "bot_voice_change_guild (keys_json None) ''GET'' ''/api/v10/guilds/7/members/42'' [] (Some 42) = None"
  "bot_voice_change_guild (keys_json (Some {''channel_id''})) ''PATCH'' ''/api/v10/guilds/7/roles/42'' ''{\"channel_id\":\"9\"}'' (Some 42) = None"
  by code_simp+

lemma resolves_tokenized_routes_as_allowed_without_auth:
  "resolve_route_scope ''/api/v10/interactions/123456789/token/callback'' = AllowedWithoutAuth"
  "resolve_route_scope ''/api/v10/webhooks/123456789/token/messages/@original'' = AllowedWithoutAuth"
  by code_simp+

lemma denies_non_tokenized_webhook_routes_without_guild_scope:
  "resolve_route_scope ''/api/v10/webhooks/123456789'' = DeniedWithoutGuild"
  "resolve_route_scope ''/api/v10/interactions/123456789'' = DeniedWithoutGuild"
  by code_simp+

lemma never_attaches_bot_authorization_for_allowed_without_auth_routes:
  "\<not> should_attach_bot_authorization AllowedWithoutAuth True"
  "\<not> should_attach_bot_authorization AllowedWithoutAuth False"
  "should_attach_bot_authorization AllowedWithoutGuild True"
  by (simp_all add: should_attach_bot_authorization_def)

lemma keeps_content_encoding_response_header:
  "\<not> should_skip_response_header ''content-encoding''"
  "should_skip_response_header ''content-length''"
  "should_skip_response_header ''transfer-encoding''"
  by (simp_all add: should_skip_response_header_def)

lemma skips_accept_encoding_request_header:
  "should_skip_request_header ''accept-encoding''"
  "should_skip_request_header ''authorization''"
  "\<not> should_skip_request_header ''user-agent''"
  by (simp_all add: should_skip_request_header_def)

definition value_json :: "json \<Rightarrow> json_lib" where
  "value_json j = test_json\<lparr>parse_value := (\<lambda>_. Some j)\<rparr>"

lemma classifies_channel_lookups:
  "classify_channel_lookup_response (value_json (JObj [(''message'', JStr ''Unknown Channel''), (''code'', JInt 10003)])) 404 []
     = UnknownChannel"
  "classify_channel_lookup_response (value_json (JObj [(''id'', JStr ''1''), (''type'', JInt 0),
     (''guild_id'', JStr ''1422625037164351591''), (''name'', JStr ''kimakivoice'')])) 200  []  = Found 1422625037164351591"
  "classify_channel_lookup_response (value_json (JObj [(''id'', JStr ''1''), (''type'', JInt 1)])) 200  []  = MissingGuild"
  "classify_channel_lookup_response (value_json (JObj [(''message'', JStr ''internal'')])) 500  []  = LookupFailed"
  "classify_channel_lookup_response (value_json (JObj [(''message'', JStr ''Missing Access''), (''code'', JInt 50001)])) 403 []
     = LookupFailed"
  by code_simp+

lemma allows_channel_only_when_resolved_guild_is_authorized:
  "channel_scope_decision (Found 1422625037164351591) {1422625037164351591} = AllowChannel"
  "channel_scope_decision (Found 99) {1422625037164351591} = Forbidden (Some 99)"
  "channel_scope_decision UnknownChannel {1422625037164351591} = UnknownChannelDecision"
  "channel_scope_decision MissingGuild {1422625037164351591} = Forbidden None"
  "channel_scope_decision LookupFailed {1422625037164351591} = LookupFailedDecision"
  by (simp_all add: channel_scope_decision_def)

section \<open>\<open>state.rs\<close>\<close>

definition test_owner :: "bool \<Rightarrow> Proxy_State.voice_owner" where
  "test_owner wants_voice = \<lparr>vo_client_id = ''a'', vo_disconnected_at = None, vo_wants_voice = wants_voice\<rparr>"

lemma voice_owner_keeps_the_guild_until_the_bot_is_out:
  "decide_voice_command None ''b'' True = Allow"
  "decide_voice_command (Some (test_owner True)) ''a'' True = Allow"
  "decide_voice_command (Some (test_owner True)) ''b'' False = Deny"
  "decide_voice_command (Some (test_owner False)) ''a'' True = Allow"
  "decide_voice_command (Some (test_owner False)) ''b'' True = Deny"
  "decide_voice_command (Some (test_owner False)) ''b'' False = Allow"
  by (simp_all add: decide_voice_command_def test_owner_def)

section \<open>\<open>deserializer.rs\<close>\<close>

lemma finds_channel_id_on_message_create:
  "map_option (\<lambda>e. (map_option event_name (ge_event_type e), ge_guild_id e, ge_channel_id e))
     (from_json ''{\"t\":\"MESSAGE_CREATE\",\"s\":1,\"op\":0,\"d\":{\"id\":\"9\",\"channel_id\":\"1545800148565758123\",\"guild_id\":\"1422625037164351591\",\"content\":\"hi\"}}'')
   = Some (Some ''MESSAGE_CREATE'', Some 1422625037164351591, Some 1545800148565758123)"
  by code_simp

section \<open>\<open>db_config.rs\<close>\<close>

lemma conflicting_secrets_keep_newest_row_and_skip_stale_guilds:
  "hm_get (group_rows_into_clients
     [\<lparr>row_client_id = ''client-1'', row_secret = ''new-secret'', row_guild_id = ''111'',
       row_reachable_url = Some ''https://client.example'', row_next_wake_at = None\<rparr>,
      \<lparr>row_client_id = ''client-1'', row_secret = ''old-secret'', row_guild_id = ''222'',
       row_reachable_url = Some ''https://stale.example'', row_next_wake_at = None\<rparr>,
      \<lparr>row_client_id = ''client-1'', row_secret = ''new-secret'', row_guild_id = ''333'',
       row_reachable_url = None, row_next_wake_at = None\<rparr>]) ''client-1''
   = Some \<lparr>cl_secret = ''new-secret'', cl_guilds = {111, 333},
       cl_reachable_url = Some ''https://client.example'', cl_next_wake_at = None\<rparr>"
  by code_simp

section \<open>\<open>server.rs\<close>\<close>

definition members_json :: "request_guild_members_info \<Rightarrow> json_lib" where
  "members_json d = test_json\<lparr>parse_request_guild_members := (\<lambda>_. Some d)\<rparr>"

definition voice_json :: "voice_state_update_info \<Rightarrow> json_lib" where
  "voice_json d = test_json\<lparr>parse_voice_state_update := (\<lambda>_. Some d)\<rparr>"

definition test_members :: "string \<Rightarrow> request_guild_members_info" where
  "test_members guild =
     \<lparr>rgm_guild_id = guild, rgm_query = None, rgm_limit = Some 0, rgm_presences = None,
      rgm_user_ids = None, rgm_nonce = None\<rparr>"

lemma forwards_rebuilt_commands_for_authorized_guild:
  "filter_client_command
     (members_json (test_members ''1422625037164351591''\<lparr>rgm_user_ids := Some (Many [''1'', ''2'']), rgm_nonce := Some ''abc''\<rparr>))
     8 [] {1422625037164351591} =
   Forward 1422625037164351591
     ''{\"op\":8,\"d\":{\"guild_id\":\"1422625037164351591\",\"limit\":0,\"user_ids\":[\"1\",\"2\"],\"nonce\":\"abc\"}}''"
  "filter_client_command
     (voice_json \<lparr>vsu_guild_id = ''1422625037164351591'', vsu_channel_id = Some ''7'', vsu_self_mute = False, vsu_self_deaf = True\<rparr>)
     4 [] {1422625037164351591} =
   Voice 1422625037164351591 (Some 7)
     ''{\"op\":4,\"d\":{\"guild_id\":\"1422625037164351591\",\"channel_id\":\"7\",\"self_mute\":false,\"self_deaf\":true}}''"
  "filter_client_command
     (voice_json \<lparr>vsu_guild_id = ''1422625037164351591'', vsu_channel_id = None, vsu_self_mute = False, vsu_self_deaf = False\<rparr>)
     4 [] {1422625037164351591} =
   Voice 1422625037164351591 None
     ''{\"op\":4,\"d\":{\"guild_id\":\"1422625037164351591\",\"channel_id\":null,\"self_mute\":false,\"self_deaf\":false}}''"
  by code_simp+

definition is_drop :: "client_command \<Rightarrow> bool" where
  "is_drop c = (case c of Drop _ \<Rightarrow> True | _ \<Rightarrow> False)"

lemma drops_commands_outside_scope:
  "is_drop (filter_client_command (members_json (test_members ''999'')) 8 [] {1422625037164351591})"
  "is_drop (filter_client_command test_json 8 [] {1422625037164351591})"
  "is_drop (filter_client_command (members_json (test_members ''not-a-snowflake'')) 8 [] {1422625037164351591})"
  "is_drop (filter_client_command test_json 3 [] {1422625037164351591})"
  "is_drop (filter_client_command
     (voice_json \<lparr>vsu_guild_id = ''999'', vsu_channel_id = Some ''1'', vsu_self_mute = False, vsu_self_deaf = False\<rparr>)
     4 [] {1422625037164351591})"
  "is_drop (filter_client_command
     (voice_json \<lparr>vsu_guild_id = ''1422625037164351591'', vsu_channel_id = Some ''x'', vsu_self_mute = False, vsu_self_deaf = False\<rparr>)
     4 [] {1422625037164351591})"
  "is_drop (filter_client_command test_json 4 [] {1422625037164351591})"
  "is_drop (filter_client_command test_json 31 [] {1422625037164351591})"
  by code_simp+

text \<open>The oversized query: whatever the library writes, it is longer than the query.\<close>

lemma drops_oversized_command:
  "4096 < length (show_json (outgoing_command 8 (request_guild_members_json
      (test_members ''1422625037164351591''\<lparr>rgm_query := Some (replicate 5000 (CHR ''a''))\<rparr>))))"
  by (simp add: outgoing_command_def request_guild_members_json_def test_members_def opt_field_def quoted_def)

end
