(* ===== verification/Metrics_Model.thy ===== *)
theory Metrics_Model
  imports Dispatch_Model
begin

text \<open>
  What the event loop of a shard reports to the metrics library: a counter per event, and the
  connection and cache figures, at most once per ten seconds (\<open>events\<close> and
  \<open>update_shard_statistics\<close> of \<open>src/dispatch.rs\<close>). Nothing in the proxy reads them.
\<close>

section \<open>Reports\<close>

text \<open>The states of a shard's connection are twilight's; \<open>Seconds\<close> is a duration as a float.\<close>

datatype connection_state = Active | Disconnected | Identifying | Resuming | FatallyClosed

datatype metric_value = Whole nat | Seconds duration | Not_A_Number

datatype metric =
    Histogram string string metric_value
  | Gauge string string metric_value
  | Counter string string string nat

record cache_stats =
  cst_emojis :: nat
  cst_guilds :: nat
  cst_members :: nat
  cst_presences :: nat
  cst_channels :: nat
  cst_roles :: nat
  cst_unavailable_guilds :: nat
  cst_users :: nat
  cst_voice_states :: nat

definition status_value :: "connection_state \<Rightarrow> nat" where
  "status_value s =
     (case s of Active \<Rightarrow> 4 | Disconnected \<Rightarrow> 1 | Identifying \<Rightarrow> 2 | Resuming \<Rightarrow> 3 | FatallyClosed \<Rightarrow> 0)"

definition update_shard_statistics ::
  "string \<Rightarrow> cache_stats \<Rightarrow> connection_state \<Rightarrow> duration list \<Rightarrow> metric list" where
  "update_shard_statistics shard_id stats status latencies =
     (let latency = (case latencies of [] \<Rightarrow> Not_A_Number | d # _ \<Rightarrow> Seconds d);
          gauge = (\<lambda>name v. Gauge name shard_id (Whole v)) in
      [Histogram ''gateway_shard_latency_histogram'' shard_id latency,
       Gauge ''gateway_shard_latency'' shard_id latency,
       Histogram ''gateway_shard_status'' shard_id (Whole (status_value status)),
       gauge ''gateway_cache_emojis'' (cst_emojis stats),
       gauge ''gateway_cache_guilds'' (cst_guilds stats),
       gauge ''gateway_cache_members'' (cst_members stats),
       gauge ''gateway_cache_presences'' (cst_presences stats),
       gauge ''gateway_cache_channels'' (cst_channels stats),
       gauge ''gateway_cache_roles'' (cst_roles stats),
       gauge ''gateway_cache_unavailable_guilds'' (cst_unavailable_guilds stats),
       gauge ''gateway_cache_users'' (cst_users stats),
       gauge ''gateway_cache_voice_states'' (cst_voice_states stats)])"

definition event_counter :: "string \<Rightarrow> shard_message \<Rightarrow> metric list" where
  "event_counter shard_id msg =
     (case msg of
        MsgText payload \<Rightarrow>
          (case Option.bind (from_json payload) ge_event_type of
             Some info \<Rightarrow> [Counter ''gateway_shard_events'' shard_id (event_name info) 1]
           | None \<Rightarrow> [])
      | _ \<Rightarrow> [])"

section \<open>The loop\<close>

text \<open>One entry per round: the time, what the library says of the shard, and the message.\<close>

record metrics_round =
  mr_now :: instant
  mr_status :: connection_state
  mr_latencies :: "duration list"
  mr_stats :: cache_stats
  mr_message :: shard_message

definition TEN_SECONDS :: duration where "TEN_SECONDS = secs 10"

fun shard_metrics :: "string \<Rightarrow> metrics_round list \<Rightarrow> instant \<Rightarrow> metric list" where
  "shard_metrics shard_id [] last_metrics_update = []"
| "shard_metrics shard_id (m # ms) last_metrics_update =
     (let due = TEN_SECONDS < duration_since (mr_now m) last_metrics_update in
      (if due then update_shard_statistics shard_id (mr_stats m) (mr_status m) (mr_latencies m) else [])
      @ event_counter shard_id (mr_message m)
      @ shard_metrics shard_id ms (if due then mr_now m else last_metrics_update))"

section \<open>Lemmas\<close>

definition counted :: "string \<Rightarrow> metric \<Rightarrow> bool" where
  "counted name m \<longleftrightarrow> (case m of Counter _ _ event _ \<Rightarrow> event = name | _ \<Rightarrow> False)"

definition reported :: "metric \<Rightarrow> bool" where
  "reported m \<longleftrightarrow> (case m of Histogram name _ _ \<Rightarrow> name = ''gateway_shard_status'' | _ \<Rightarrow> False)"

definition named_event :: "string \<Rightarrow> shard_message \<Rightarrow> bool" where
  "named_event name msg \<longleftrightarrow>
     (\<exists>payload info. msg = MsgText payload \<and>
       Option.bind (from_json payload) ge_event_type = Some info \<and> event_name info = name)"

text \<open>The counter of an event counts the messages that the scanner gives this name.\<close>

lemma event_counter_counts:
  "length (filter (counted name) (shard_metrics shard_id ms t)) =
     length (filter (\<lambda>m. named_event name (mr_message m)) ms)"
proof (induction ms arbitrary: t)
  case (Cons m ms)
  have "filter (counted name) (update_shard_statistics shard_id stats status latencies) = []" for stats status latencies
    by (simp add: update_shard_statistics_def Let_def counted_def)
  moreover have "filter (counted name) (event_counter shard_id (mr_message m)) =
      (if named_event name (mr_message m) then event_counter shard_id (mr_message m) else [])"
    by (cases "mr_message m") (auto simp: event_counter_def named_event_def counted_def split: option.split)
  moreover have "named_event name (mr_message m) \<Longrightarrow> length (event_counter shard_id (mr_message m)) = 1"
    by (auto simp: event_counter_def named_event_def)
  ultimately show ?case by (simp add: Cons.IH Let_def)
qed simp

text \<open>Within ten seconds of a report there is no other.\<close>

lemma report_rate:
  assumes "\<forall>m\<in>set ms. mr_now m \<le> t + TEN_SECONDS"
  shows "filter reported (shard_metrics shard_id ms t) = []"
  using assms
proof (induction ms)
  case (Cons m ms)
  moreover have "filter reported (event_counter shard_id (mr_message m)) = []"
    by (auto simp: event_counter_def reported_def split: shard_message.split option.split)
  ultimately show ?case by (auto simp: Let_def duration_since_def)
qed simp

end
