(* ===== verification/Ready_Watch.thy ===== *)
theory Ready_Watch
  imports Proxy_State
begin

text \<open>
  \<open>Ready\<close> of \<open>src/state.rs\<close> at the level of its \<open>watch\<close> channel: a value with a version, and the tasks
  in \<open>wait_until_ready\<close>, each with the version it has seen. The rest of the development uses the value
  only, as \<open>sh_ready\<close>; here is why a task that waits for READY cannot miss it.
\<close>

section \<open>The channel\<close>

text \<open>
  \<open>send\<close> stores a value and counts the version up; \<open>Ready\<close> keeps a receiver of its own, so it never
  fails. \<open>wa_closed\<close> is whether the sender was dropped.
\<close>

record 'p watch =
  wa_value :: "'p option"
  wa_version :: nat
  wa_closed :: bool

definition new_ready :: "'p watch" where
  "new_ready = \<lparr>wa_value = None, wa_version = 0, wa_closed = False\<rparr>"

definition watch_send :: "'p option \<Rightarrow> 'p watch \<Rightarrow> 'p watch" where
  "watch_send v w = w\<lparr>wa_value := v, wa_version := wa_version w + 1\<rparr>"

section \<open>Waiting\<close>

text \<open>
  Where \<open>wait_until_ready\<close> is: before \<open>borrow_and_update\<close>, in \<open>changed\<close> with the version seen, or done.
\<close>

datatype 'p waiter = Checking | Awaiting nat | Got 'p | Sender_Dropped

definition check_ready :: "'p watch \<Rightarrow> 'p waiter" where
  "check_ready w = (case wa_value w of Some payload \<Rightarrow> Got payload | None \<Rightarrow> Awaiting (wa_version w))"

text \<open>\<open>changed\<close> looks at the version before it looks for a closed channel; \<^term>\<open>None\<close> is not ready yet.\<close>

definition poll_changed :: "'p watch \<Rightarrow> nat \<Rightarrow> 'p waiter option" where
  "poll_changed w seen =
     (if wa_version w \<noteq> seen then Some Checking
      else if wa_closed w then Some Sender_Dropped
      else None)"

datatype 'p ready_label = Set_Ready 'p | Set_Not_Ready | Drop_Sender | Check | Changed

inductive ready_step :: "'p ready_label \<Rightarrow> 'p watch \<times> 'p waiter \<Rightarrow> 'p watch \<times> 'p waiter \<Rightarrow> bool" where
  set_ready: "\<not> wa_closed w \<Longrightarrow> ready_step (Set_Ready p) (w, k) (watch_send (Some p) w, k)"
| set_not_ready: "\<not> wa_closed w \<Longrightarrow> ready_step Set_Not_Ready (w, k) (watch_send None w, k)"
| drop_sender: "ready_step Drop_Sender (w, k) (w\<lparr>wa_closed := True\<rparr>, k)"
| check: "ready_step Check (w, Checking) (w, check_ready w)"
| changed: "poll_changed w seen = Some k \<Longrightarrow> ready_step Changed (w, Awaiting seen) (w, k)"

inductive_cases ready_stepE: "ready_step l s t"

section \<open>Lemmas\<close>

lemma watch_value:
  "sh_ready (Proxy_State.set_ready payload sh) = wa_value (watch_send (Some payload) w)"
  "sh_ready (set_not_ready sh) = wa_value (watch_send None w)"
  "is_ready sh \<longleftrightarrow> sh_ready sh \<noteq> None"
  by (simp_all add: Proxy_State.set_ready_def set_not_ready_def is_ready_def watch_send_def)

text \<open>A task in \<open>changed\<close> has seen no version of the future, and no value if it is up to date.\<close>

definition ready_inv :: "'p set \<Rightarrow> 'p watch \<times> 'p waiter \<Rightarrow> bool" where
  "ready_inv P s \<longleftrightarrow>
     (case wa_value (fst s) of None \<Rightarrow> True | Some p \<Rightarrow> p \<in> P) \<and>
     (case snd s of
        Awaiting seen \<Rightarrow> seen < wa_version (fst s) \<or> seen = wa_version (fst s) \<and> wa_value (fst s) = None
      | Got p \<Rightarrow> p \<in> P
      | _ \<Rightarrow> True)"

definition sets_only :: "'p set \<Rightarrow> 'p ready_label \<Rightarrow> bool" where
  "sets_only P l \<longleftrightarrow> (case l of Set_Ready p \<Rightarrow> p \<in> P | _ \<Rightarrow> True)"

lemma ready_step_inv:
  assumes "ready_step l s t" and "sets_only P l" and "ready_inv P s"
  shows "ready_inv P t"
  using assms
  by (cases rule: ready_step.cases)
    (auto simp: ready_inv_def sets_only_def watch_send_def check_ready_def poll_changed_def
      split: waiter.splits option.splits if_splits)

interpretation ready: invariant_system ready_step "sets_only P" "ready_inv P" for P
  by unfold_locales (rule ready_step_inv)

lemma waiter_continues:
  assumes "ready_inv P (w, k)" and "wa_value w = Some p" and "\<nexists>q. k = Got q" and "k \<noteq> Sender_Dropped"
  shows "trace ready_step [Check] (w, k) (w, Got p) \<or> trace ready_step [Changed, Check] (w, k) (w, Got p)"
proof (cases k)
  case Checking
  have "ready_step Check (w, Checking) (w, check_ready w)" by (rule check)
  with Checking assms(2) show ?thesis by (simp add: check_ready_def)
next
  case (Awaiting seen)
  with assms(1,2) have "wa_version w \<noteq> seen" by (auto simp: ready_inv_def)
  then have "ready_step Changed (w, Awaiting seen) (w, Checking)"
    by (intro changed) (simp add: poll_changed_def)
  moreover have "ready_step Check (w, Checking) (w, Got p)"
    using check [of w] assms(2) by (simp add: check_ready_def)
  ultimately show ?thesis using Awaiting by auto
qed (use assms in auto)

section \<open>No lost READY\<close>

text \<open>C20: waiting for READY has no race. However the shard's loop sets and clears the READY state while a
  task waits, the task never blocks while the shard is ready; if the shard is ready and stays so, at
  most two steps of the task give it the current payload; and what it returns is a payload that was
  set, or the one that was there when it began.\<close>

theorem ready_wait_race_free:
  assumes "trace ready_step ls (w0, Checking) (w, k)"
  shows "(\<forall>seen. k = Awaiting seen \<and> poll_changed w seen = None \<longrightarrow> wa_value w = None) \<and>
    (\<forall>p. wa_value w = Some p \<and> (\<nexists>q. k = Got q) \<and> k \<noteq> Sender_Dropped \<longrightarrow>
       trace ready_step [Check] (w, k) (w, Got p) \<or> trace ready_step [Changed, Check] (w, k) (w, Got p)) \<and>
    (\<forall>p. k = Got p \<longrightarrow> wa_value w0 = Some p \<or> Set_Ready p \<in> set ls)"
proof -
  define P where "P = {p. wa_value w0 = Some p \<or> Set_Ready p \<in> set ls}"
  have inv: "ready_inv P (w, k)"
  proof (rule ready.trace_inv [OF assms])
    show "\<forall>l\<in>set ls. sets_only P l" by (auto simp: sets_only_def P_def split: ready_label.split)
    show "ready_inv P (w0, Checking)" by (simp add: ready_inv_def P_def split: option.split)
  qed
  then have "\<forall>seen. k = Awaiting seen \<and> poll_changed w seen = None \<longrightarrow> wa_value w = None"
    by (auto simp: ready_inv_def poll_changed_def split: if_splits)
  moreover have "\<forall>p. k = Got p \<longrightarrow> p \<in> P" using inv by (auto simp: ready_inv_def)
  ultimately show ?thesis using waiter_continues [OF inv] by (auto simp: P_def)
qed

theorem ready_wait_race_free_witness:
  "\<exists>w k. trace ready_step [Check, Set_Ready ''r'', Set_Not_Ready, Set_Ready ''s''] (new_ready, Checking) (w, k) \<and>
     (trace ready_step [Check] (w, k) (w, Got ''s'') \<or> trace ready_step [Changed, Check] (w, k) (w, Got ''s''))"
proof -
  define w1 where "w1 = watch_send (Some ''r'') new_ready"
  define w2 where "w2 = watch_send None w1"
  define w3 where "w3 = watch_send (Some ''s'') w2"
  have v: "wa_value w3 = Some ''s''" "\<not> wa_closed w1" "\<not> wa_closed w2" "\<not> wa_closed new_ready"
    by (simp_all add: w3_def w2_def w1_def watch_send_def new_ready_def)
  have "ready_step Check (new_ready, Checking) (new_ready, Awaiting 0)"
    using check [of new_ready] by (simp add: check_ready_def new_ready_def)
  moreover have "ready_step (Set_Ready ''r'') (new_ready, Awaiting 0) (w1, Awaiting 0)"
    unfolding w1_def using v by (intro ready_step.set_ready)
  moreover have "ready_step Set_Not_Ready (w1, Awaiting 0) (w2, Awaiting 0)"
    unfolding w2_def using v by (intro ready_step.set_not_ready)
  moreover have "ready_step (Set_Ready ''s'') (w2, Awaiting 0) (w3, Awaiting 0)"
    unfolding w3_def using v by (intro ready_step.set_ready)
  ultimately have t: "trace ready_step [Check, Set_Ready ''r'', Set_Not_Ready, Set_Ready ''s''] (new_ready, Checking) (w3, Awaiting 0)"
    unfolding trace.simps by (intro exI conjI) (assumption | rule refl)+
  from ready_wait_race_free [OF t] v t show ?thesis by blast
qed

end
