(* ===== verification/Process_Run.thy ===== *)
theory Process_Run
  imports Startup Http_Server
begin

text \<open>
  The process from start to end: \<open>run\<close> and \<open>main\<close> of \<open>src/main.rs\<close> around the startup, with the loop that
  accepts connections, \<open>run\<close> of \<open>src/server.rs\<close>. Sockets and signals are input.
\<close>

section \<open>Accepting connections\<close>

text \<open>
  The results of \<open>accept\<close> are the addresses of new connections, or errors. The result is the connections
  that are served, and whether the loop still runs; it ends at the first error.
\<close>

fun accept_loop :: "string option list \<Rightarrow> string list \<times> bool" where
  "accept_loop [] = ([], True)"
| "accept_loop (None # results) = ([], False)"
| "accept_loop (Some addr # results) = (case accept_loop results of (served, on) \<Rightarrow> (addr # served, on))"

definition server_run :: "bool \<Rightarrow> string option list \<Rightarrow> string list \<times> bool" where
  "server_run bound results = (if \<not> bound then ([], False) else accept_loop results)"

section \<open>The process\<close>

text \<open>What happens once everything is started: results of \<open>accept\<close>, and the two signals.\<close>

datatype process_input = Accept "string option" | Sigint | Sigterm

definition accepts :: "process_input list \<Rightarrow> string option list" where
  "accepts = List.map_filter (\<lambda>i. case i of Accept r \<Rightarrow> Some r | _ \<Rightarrow> None)"

definition is_signal :: "process_input \<Rightarrow> bool" where
  "is_signal i \<longleftrightarrow> i = Sigint \<or> i = Sigterm"

text \<open>
  \<open>Fatal\<close> is an error of \<open>run\<close>, which \<open>main\<close> prints. The server is a task of its own, whose end nobody
  waits for: only a signal ends the process. A shutdown closes every shard and waits for their tasks.
\<close>

datatype process =
    Fatal
  | Serving "string list" bool
  | Shut_Down "string list" "u32 list" nat nat

definition run_process ::
  "config \<Rightarrow> u32 option \<Rightarrow> bool \<Rightarrow> process_input list \<Rightarrow> duration list \<Rightarrow> process outcome" where
  "run_process cfg gateway bound inputs waits =
     (case gateway of
        None \<Rightarrow> Ret Fatal
      | Some gateway_shards \<Rightarrow>
          omap (\<lambda>st.
              case server_run bound (accepts (takeWhile (Not \<circ> is_signal) inputs)) of
                (served, on) \<Rightarrow>
                  if list_ex is_signal inputs
                  then (case shutdown_counts st waits of
                      (graceful, ungraceful) \<Rightarrow> Shut_Down served (map sh_id (shards st)) graceful ungraceful)
                  else Serving served on)
            (initial_state cfg gateway_shards))"

text \<open>What the system sees of the end: an exit status, or none for a process that runs or is aborted.\<close>

definition exit_status :: "process outcome \<Rightarrow> nat option" where
  "exit_status r =
     (case r of
        Ret Fatal \<Rightarrow> Some 0
      | Ret (Shut_Down _ _ _ _) \<Rightarrow> Some 0
      | _ \<Rightarrow> None)"

section \<open>Lemmas\<close>

lemma accept_loop_served:
  "accept_loop results = (map the (takeWhile (\<lambda>r. r \<noteq> None) results), None \<notin> set results)"
  by (induction results rule: accept_loop.induct) auto

lemma accept_loop_failed: "accept_loop (xs @ None # ys) = (fst (accept_loop xs), False)"
  by (induction xs rule: accept_loop.induct) (auto split: prod.splits)

lemma accepts_append: "accepts (xs @ ys) = accepts xs @ accepts ys"
  by (simp add: accepts_def List.map_filter_def)

lemma accepts_mem: "r \<in> set (accepts inputs) \<longleftrightarrow> Accept r \<in> set inputs"
  by (auto simp: accepts_def set_map_filter_iff split: process_input.splits) (metis process_input.exhaust)

text \<open>After a failed \<open>accept\<close> nobody is served any more, and the process goes on until a signal.\<close>

lemma failed_accept_ends_serving:
  assumes "initial_state cfg n = Ret st" and "\<not> list_ex is_signal (before @ Accept None # after)"
  shows "run_process cfg (Some n) True (before @ Accept None # after) waits =
    Ret (Serving (fst (accept_loop (accepts before))) False)"
    and "exit_status (run_process cfg (Some n) True (before @ Accept None # after) waits) = None"
proof -
  have "takeWhile (Not \<circ> is_signal) (before @ Accept None # after) = before @ Accept None # after"
    using assms(2) by (auto simp: takeWhile_eq_all_conv list_ex_iff)
  moreover have "accepts (before @ Accept None # after) = accepts before @ None # accepts after"
    by (simp add: accepts_append) (simp add: accepts_def List.map_filter_simps)
  ultimately show "run_process cfg (Some n) True (before @ Accept None # after) waits =
      Ret (Serving (fst (accept_loop (accepts before))) False)"
    using assms(1,2) by (simp only: run_process_def server_run_def accept_loop_failed) simp
  then show "exit_status (run_process cfg (Some n) True (before @ Accept None # after) waits) = None"
    by (simp add: exit_status_def)
qed

text \<open>Unless an \<open>accept\<close> fails every connection before the signal is served.\<close>

lemma serves_until_signal:
  assumes "initial_state cfg n = Ret st" and "Accept None \<notin> set inputs"
  shows "\<exists>served. served = map the (accepts (takeWhile (Not \<circ> is_signal) inputs)) \<and>
    (if list_ex is_signal inputs
     then \<exists>g u. run_process cfg (Some n) True inputs waits = Ret (Shut_Down served (map sh_id (shards st)) g u) \<and>
       g + u = length (shards st)
     else run_process cfg (Some n) True inputs waits = Ret (Serving served True))"
proof -
  let ?in = "accepts (takeWhile (Not \<circ> is_signal) inputs)"
  have "None \<notin> set ?in" using assms(2) by (auto simp: accepts_mem dest: set_takeWhileD)
  then have "accept_loop ?in = (map the ?in, True)"
    unfolding accept_loop_served by (metis (mono_tags, lifting) takeWhile_eq_all_conv)
  moreover obtain g u where gu: "shutdown_counts st waits = (g, u)" by fastforce
  moreover have "g + u = length (shards st)"
    using shutdown_loop_counts [OF order_refl gu [unfolded shutdown_counts_def]] by simp
  ultimately show ?thesis using assms(1) by (simp add: run_process_def server_run_def)
qed

text \<open>An error of the startup leaves the exit status of a clean shutdown.\<close>

lemma fatal_exits_zero: "exit_status (run_process cfg None bound inputs waits) = Some 0"
  by (simp add: run_process_def exit_status_def)

end
