(* ===== verification/Spec2Isabelle.thy ===== *)
theory Spec2Isabelle
  imports Cache_Safety Config_Safety Gateway_Safety Rest_Safety Registry_Safety Stream_Safety Voice_Safety
    Wake_Safety Scanner_Safety Close_Delivery Http_Safety Sync_Safety System_Safety Source_Tests Metrics_Model Ready_Watch Process_Run
begin

text \<open>
  A verification development for the Discord gateway proxy (\<open>src/src/*.rs\<close>).

  The proxy holds the shards' connections to Discord once and serves many gateway clients from them.
  A client authenticates with the bot token, or as a tenant with an id and a secret of the client
  registry; a tenant gets the events of its own guilds, may send two kinds of commands for them, and
  reaches the REST API through the proxy under the same limits. The registry comes from the
  configuration or from a database that the proxy follows. The development states what keeps tenants
  apart, what a client can rely on, and where the code does not do what it means to.

  PARTS, in the order of the imports.

  \<^item> \<open>Prelude\<close>, \<open>Rust_Str\<close>, \<open>Hash_Map\<close>: machine integers, the clock, results that may panic
    (\<open>outcome\<close>), traces of labelled steps with the contracts of their invariants, ranks and refinements
    (locales \<open>invariant_system\<close>, \<open>ranked_system\<close> and \<open>simulation\<close>); strings as lists of UTF-8 bytes with Rust's char boundaries,
    number formats and splitting; hash maps as entry lists, with their contract as the locale \<open>hash_map\<close>.
  \<^item> \<open>Json_Model\<close> (\<open>model.rs\<close>), \<open>Deserializer\<close> (\<open>deserializer.rs\<close>): the payload types and the scanner that
    finds op, event name, sequence number and routing ids in a payload's text.
  \<^item> \<open>Config_Model\<close>, \<open>Config_Load\<close>, \<open>Config_Safety\<close> (\<open>config.rs\<close>): the configuration, what its
    attributes require and default, where it is read from, and the reload of the log level.
  \<^item> \<open>Db_Config\<close>, \<open>Db_Query\<close>, \<open>Auth_Model\<close> (\<open>db_config.rs\<close>, \<open>auth.rs\<close>): the registry \<open>CLIENTS\<close> as the rows
    give it, the orders the query allows, its freshness, and the verdict on a token.
  \<^item> \<open>Db_Sync\<close>, \<open>Db_Poll\<close>, \<open>Db_Setup\<close>, \<open>Sync_Safety\<close>, \<open>Registry_Safety\<close> (\<open>db_config.rs\<close>): the realtime
    loop (\<open>sync_step\<close>), the listener, the polling fallback and the retries around them (\<open>poll_step\<close>);
    \<open>Db_Setup\<close> refines the start of the loop and the polling rounds to their awaits.
  \<^item> \<open>Guild_Cache\<close>, \<open>Cache_Safety\<close> (\<open>cache.rs\<close>): the lookups in a shard's cache and the READY,
    GUILD_CREATE and GUILD_DELETE payloads built from it.
  \<^item> \<open>Proxy_State\<close>, \<open>Sessions\<close>, \<open>Voice_Lock\<close>, \<open>Client_Activity\<close>, \<open>Voice_Safety\<close> (\<open>state.rs\<close>): the record
    \<open>inner\<close> (\<open>Inner\<close>), its session table (locale \<open>session_store\<close>), the voice owner lock (locale
    \<open>handover\<close>), connection counters, offline buffers (locale \<open>bounded_buffer\<close>), command windows
    (locale \<open>window_limiter\<close>) and wake cooldowns. \<open>Ready_Watch\<close>: the READY state as a \<open>watch\<close> channel and
    the tasks that wait on it.
  \<^item> \<open>Wake_Model\<close>, \<open>Wake_Safety\<close> (\<open>wake.rs\<close>): waking clients that are away.
  \<^item> \<open>Dispatch_Model\<close> (\<open>dispatch.rs\<close>): one round of a shard's event loop (\<open>events\<close>): broadcasting, buffering
    for clients that are away, voice tracking, cache updates. \<open>Metrics_Model\<close>: what the loop reports.
  \<^item> \<open>Forwarder\<close>, \<open>Stream_Safety\<close> (\<open>forward_shard\<close> of \<open>server.rs\<close>): greeting, replay, live stream.
  \<^item> \<open>Commands\<close>, \<open>Client_Loop\<close>, \<open>Client_Facts\<close>, \<open>Client_Total\<close>, \<open>Gateway_Safety\<close> (\<open>handle_client\<close> of
    \<open>server.rs\<close>): a client's connection, one step (\<open>client_step\<close>) per received message or timer.
  \<^item> \<open>Socket_Writer\<close>, \<open>Writer_Stream\<close>, \<open>Writer_Safety\<close> (\<open>sink_from_queue\<close> of \<open>server.rs\<close>): the task that
    writes a client's queue to its socket, with the zlib stream. \<open>Writer_Stream\<close> has the contract of a
    lossless compressor (\<open>lossless\<close>), \<open>Writer_Safety\<close> that of one that makes progress (\<open>deflate_ok\<close>).
    \<open>Close_Delivery\<close> puts it together with the connection's end.
  \<^item> \<open>Http_Server\<close>, \<open>Http_Safety\<close> (\<open>handler\<close> of \<open>server.rs\<close>, \<open>upgrade.rs\<close>): what an HTTP request is for, and
    the WebSocket handshake.
  \<^item> \<open>Rest_Routes\<close>, \<open>Rest_Proxy\<close>, \<open>Rest_Safety\<close> (\<open>rest_proxy.rs\<close>): the checks on a REST path and the
    request handler.
  \<^item> \<open>Startup\<close>, \<open>Process_Run\<close> (\<open>main.rs\<close>, \<open>run\<close> of \<open>server.rs\<close>): shards, initial state, gates, background
    tasks; accepting connections, shutdown and exit status.
  \<^item> \<open>Gateway_Model\<close>, \<open>Gateway_Invariant\<close>, \<open>System_Safety\<close>: the whole proxy. Its state is a record of all
    connections with their tasks, the shards' loops, the registry sync and \<open>inner\<close>; \<open>gateway_step\<close> lets
    any of them take a step, \<open>reachable\<close> is what they reach from a started proxy.
  \<^item> \<open>Scanner_Safety\<close>: what the payload scanner makes of unexpected text. \<open>Demo\<close>: the small proxy on which
    the witnesses of the properties are evaluated. \<open>Source_Tests\<close>: the repository's own unit tests, each
    assertion proved of the model.

  WHAT THE LEMMAS SHOW. The theories named \<open>.._Safety\<close> hold the properties; the others hold the models
  with the lemmas on their own operations. Confinement: every text a tenant is streamed or greeted with,
  every command sent upstream for it and every REST request it gets through concerns a guild it is
  authorized for at that moment. Accounting: connections, counters, buffers, sessions and sequence
  numbers agree in every reachable state. Totality: no step panics or loops where all shards are
  present, and the compressor loops end for a zlib that makes progress. Registry: it equals a per-client
  specification of the rows, and sync comes to rest and converges through any interleaving of writes,
  notifications and failures. Theorems of the kind error show, on the model, what the code does
  where it falls short; they are not assumptions of the others.

  ATOMICITY. A step of a task runs up to the next point at which it waits or, in \<open>state.rs\<close>, releases a lock:
  \<open>voice_step\<close> and the theorem on reconnecting clients split the operations into their critical
  sections. A database query and the use of its answer are two steps of
  \<open>sync_step\<close>; the start of the realtime loop and a round of \<open>run_poll_loop\<close> are one step of \<open>poll_step\<close>
  each, and \<open>Db_Setup\<close> shows that their awaits, with writes in between, refine them. In \<open>gateway_step\<close> an IDENTIFY or RESUME is one step; the start of a forwarding task is three
  (greeting, replay, subscription), so events may come between.

  BOUNDS AND FUEL. No function runs on fuel. The loops over input are structural recursions; the two
  compressor loops are \<open>partial_function (option)\<close>, with \<^term>\<open>None\<close> for a loop that never ends, read as
  \<open>Diverge\<close>. \<open>u8\<close> to \<open>u64\<close> and \<open>usize\<close> are words and wrap; an index out of bounds, a remainder by zero and an
  \<open>unwrap\<close> of an error are \<open>Panic\<close>, which aborts the process in the release profile. Times are nanoseconds
  as natural numbers and do not overflow.

  PARAMETERS. Code outside the repository is an argument: the JSON library (\<open>json_lib\<close>, \<open>config_lib\<close>),
  twilight's event parser and cache updates (\<open>twilight\<close>), the HTTP client (\<open>rest_lib\<close>), SHA-1 and base64
  (\<open>http_lib\<close>), flate2 (\<open>zlib_lib\<close>). What a property needs of them is a hypothesis of that property.

  NOT MODELLED. Opening sockets and database connections, TLS, the SQL texts except for what the
  trigger sends, spawning, signals and log output: they are input and output, and each may happen or
  fail at any time in the step relations. The store of the metrics and its text, which no decision
  reads. The poisoning of a lock is modelled where the code handles it (the registry) and nowhere
  else, since a panic aborts. The allocator is not modelled. The example client is not part of the proxy.
\<close>

end
